(* ===== verification/Prelude.thy ===== *)
theory Prelude
  imports Complex_Main "HOL-Library.Multiset" "HOL-Library.List_Lexorder" "HOL-Library.Char_ord"
begin

text \<open>
  What every component of the development shares.

  \<^item> \<open>'a result\<close>: a C++ call either returns a value (\<open>Inr\<close>) or leaves by an exception
    (\<open>Inl\<close>); \<open>bindR\<close> sequences two such calls.
  \<^item> \<open>omap\<close>: a \<^verbatim>\<open>std::map\<close>, kept as the association list in key order that iterating over
    the map visits.  The interface \<open>ordered_map\<close> states its laws; the list implementation
    is interpreted below.
  \<^item> Generic lemmas on lists and on sums over maps that several components use.
\<close>

named_theorems model_defs \<open>definitions that a symbolic evaluation of the model unfolds\<close>

section \<open>Exceptions\<close>

datatype exn =
    Runtime_error string          \<comment> \<open>\<^verbatim>\<open>std::runtime_error\<close> with its message\<close>
  | Out_of_range                  \<comment> \<open>\<^verbatim>\<open>std::out_of_range\<close>, from \<^verbatim>\<open>map::at\<close>, \<^verbatim>\<open>substr\<close> or \<^verbatim>\<open>stoll\<close>\<close>
  | Invalid_argument              \<comment> \<open>\<^verbatim>\<open>std::invalid_argument\<close>, from \<^verbatim>\<open>stoll\<close>\<close>
  | Length_error                  \<comment> \<open>\<^verbatim>\<open>std::length_error\<close>, from growing a string too far\<close>
  | Logic_error                   \<comment> \<open>\<^verbatim>\<open>std::logic_error\<close>, from a string made of a null pointer\<close>
  | Filesystem_error string       \<comment> \<open>\<^verbatim>\<open>std::filesystem::filesystem_error\<close>, with the operation that failed\<close>
  | Json_error string             \<comment> \<open>\<^verbatim>\<open>simdjson::simdjson_error\<close> with its message\<close>
  | Python_error string           \<comment> \<open>an exception of pybind11: a Python exception or a failed cast\<close>
  | Null_pointer                  \<comment> \<open>no exception: a null pointer is followed, which C++ does not define\<close>

type_synonym 'a result = "exn + 'a"

definition bindR :: "'a result \<Rightarrow> ('a \<Rightarrow> 'b result) \<Rightarrow> 'b result" where
  "bindR r f = (case r of Inl e \<Rightarrow> Inl e | Inr x \<Rightarrow> f x)"

lemma bindR_Inl [simp]: "bindR (Inl e) f = Inl e"
  by (simp add: bindR_def)

lemma bindR_Inr [simp]: "bindR (Inr x) f = f x"
  by (simp add: bindR_def)

lemma bindR_eq_Inr: "bindR r f = Inr y \<longleftrightarrow> (\<exists>x. r = Inr x \<and> f x = Inr y)"
  by (cases r) auto

lemma bindR_eq_Inl:
  "bindR r f = Inl e \<longleftrightarrow> r = Inl e \<or> (\<exists>x. r = Inr x \<and> f x = Inl e)"
  by (cases r) auto

lemma bindR_cong [fundef_cong]:
  "r = r' \<Longrightarrow> (\<And>x. r' = Inr x \<Longrightarrow> f x = f' x) \<Longrightarrow> bindR r f = bindR r' f'"
  by (cases r') auto

text \<open>A loop that may run forever has the value \<open>None\<close> then; \<open>bindRO\<close> sequences such loops.\<close>

definition bindRO :: "'a result option \<Rightarrow> ('a \<Rightarrow> 'b result option) \<Rightarrow> 'b result option" where
  "bindRO r f = (case r of None \<Rightarrow> None | Some (Inl e) \<Rightarrow> Some (Inl e) | Some (Inr x) \<Rightarrow> f x)"

lemma bindRO_simps [simp]:
  "bindRO None f = None" "bindRO (Some (Inl e)) f = Some (Inl e)" "bindRO (Some (Inr x)) f = f x"
  by (simp_all add: bindRO_def)

lemma bindRO_eq_Inr: "bindRO r f = Some (Inr y) \<longleftrightarrow> (\<exists>x. r = Some (Inr x) \<and> f x = Some (Inr y))"
  by (auto simp: bindRO_def split: option.splits sum.splits)

lemma bindRO_cong [fundef_cong]:
  "r = r' \<Longrightarrow> (\<And>x. r' = Some (Inr x) \<Longrightarrow> f x = f' x) \<Longrightarrow> bindRO r f = bindRO r' f'"
  by (auto simp: bindRO_def split: option.splits sum.splits)

section \<open>Loops\<close>

text \<open>
  A \<^verbatim>\<open>while\<close> loop on a state: \<open>body s\<close> is \<open>None\<close> where the loop stops, otherwise the result of
  its body.  The loop itself is \<open>None\<close> when it runs forever.
\<close>

partial_function (option) loop_while :: "('s \<Rightarrow> 's result option) \<Rightarrow> 's \<Rightarrow> 's result option" where
  "loop_while body s =
     (case body s of
        None \<Rightarrow> Some (Inr s)
      | Some r \<Rightarrow> (case r of Inl e \<Rightarrow> Some (Inl e) | Inr s' \<Rightarrow> loop_while body s'))"

declare loop_while.simps [code]

lemma loop_while_induct [consumes 1, case_names stop throw step]:
  assumes "loop_while body s = Some y"
    and stop: "\<And>s. body s = None \<Longrightarrow> Q s (Inr s)"
    and throw: "\<And>s e. body s = Some (Inl e) \<Longrightarrow> Q s (Inl e)"
    and step: "\<And>s s' y. body s = Some (Inr s') \<Longrightarrow> Q s' y \<Longrightarrow> Q s y"
  shows "Q s y"
proof -
  have "(\<lambda>r s y. r = body \<longrightarrow> Q s y) body s y"
  proof (rule loop_while.raw_induct [where P = "\<lambda>r s y. r = body \<longrightarrow> Q s y", OF _ assms(1)])
    fix loop r s y
    assume IH: "\<And>r s y. loop r s = Some y \<Longrightarrow> r = body \<longrightarrow> Q s y"
      and y: "(case r s of None \<Rightarrow> Some (Inr s)
                | Some q \<Rightarrow> (case q of Inl e \<Rightarrow> Some (Inl e) | Inr s' \<Rightarrow> loop r s')) = Some y"
    show "r = body \<longrightarrow> Q s y"
      using y stop [of s] throw [of s] step [of s] IH by (auto split: option.splits sum.splits)
  qed
  then show ?thesis by simp
qed

lemma loop_while_inv:
  assumes "loop_while body s = Some (Inr s')" and "P s"
    and "\<And>s s'. P s \<Longrightarrow> body s = Some (Inr s') \<Longrightarrow> P s'"
  shows "P s' \<and> body s' = None"
proof -
  have "\<forall>s'. y = Inr s' \<longrightarrow> P s \<longrightarrow> P s' \<and> body s' = None" if "loop_while body s = Some y" for y
    using that
  proof (induction rule: loop_while_induct)
    case (step s s1 y)
    then show ?case using assms(3) [of s s1] by blast
  qed simp_all
  then show ?thesis using assms(1,2) by blast
qed

lemma loop_while_total:
  assumes "P s" and "\<And>s r. P s \<Longrightarrow> body s = Some r \<Longrightarrow> \<exists>s'. r = Inr s' \<and> P s' \<and> m s' < (m s :: nat)"
  shows "\<exists>s'. loop_while body s = Some (Inr s')"
  using assms(1)
proof (induction "m s" arbitrary: s rule: less_induct)
  case less
  show ?case
  proof (cases "body s")
    case None
    then show ?thesis by (subst loop_while.simps) simp
  next
    case (Some r)
    then obtain s' where "r = Inr s'" "P s'" "m s' < m s" using assms(2) less.prems by blast
    then show ?thesis using less.hyps [of s'] Some by (subst loop_while.simps) simp
  qed
qed

lemma loop_while_diverges:
  assumes "P s" and "\<And>s. P s \<Longrightarrow> \<exists>s'. body s = Some (Inr s') \<and> P s'"
  shows "loop_while body s = None"
proof (rule ccontr)
  assume "loop_while body s \<noteq> None"
  then obtain y where "loop_while body s = Some y" by blast
  then have "\<not> P s"
  proof (induction rule: loop_while_induct)
    case (stop s)
    then show ?case using assms(2) [of s] by auto
  next
    case (throw s e)
    then show ?case using assms(2) [of s] by auto
  next
    case (step s s1 y)
    then show ?case using assms(2) [of s] by auto
  qed
  then show False using assms(1) by simp
qed

section \<open>Lists\<close>

lemma sorted_wrt_fst_unique:
  fixes xs ys :: "('k::linorder \<times> 'v) list"
  assumes "sorted_wrt (\<lambda>p q. fst p < fst q) xs" "sorted_wrt (\<lambda>p q. fst p < fst q) ys"
    and "set xs = set ys"
  shows "xs = ys"
  using assms
proof (induction xs arbitrary: ys)
  case Nil
  then show ?case by simp
next
  case (Cons x xs)
  then obtain y ys' where ys: "ys = y # ys'" by (cases ys) auto
  have "x = y"
    using Cons.prems unfolding ys by (metis list.set_intros(1) order_less_asym set_ConsD sorted_wrt.simps(2))
  moreover have "x \<notin> set xs" "y \<notin> set ys'"
    using Cons.prems unfolding ys by auto
  ultimately have "set xs = set ys'"
    using Cons.prems(3) unfolding ys by (metis insert_ident list.simps(15))
  then have "xs = ys'"
    using Cons.IH [of ys'] Cons.prems unfolding ys by simp
  then show ?case
    using ys \<open>x = y\<close> by simp
qed

section \<open>Ordered maps\<close>

type_synonym ('k, 'v) omap = "('k \<times> 'v) list"

definition omap_empty :: "('k, 'v) omap" where
  "omap_empty = []"

definition omap_find :: "('k, 'v) omap \<Rightarrow> 'k \<Rightarrow> 'v option" where
  "omap_find m k = map_of m k"

fun omap_upd :: "'k::linorder \<Rightarrow> 'v \<Rightarrow> ('k, 'v) omap \<Rightarrow> ('k, 'v) omap" where
  "omap_upd k v [] = [(k, v)]"
| "omap_upd k v ((k', v') # m) =
     (if k < k' then (k, v) # (k', v') # m
      else if k = k' then (k, v) # m
      else (k', v') # omap_upd k v m)"

definition omap_erase :: "'k \<Rightarrow> ('k, 'v) omap \<Rightarrow> ('k, 'v) omap" where
  "omap_erase k m = filter (\<lambda>p. fst p \<noteq> k) m"

definition omap_has :: "('k, 'v) omap \<Rightarrow> 'k \<Rightarrow> bool" where
  "omap_has m k \<longleftrightarrow> omap_find m k \<noteq> None"

definition omap_at :: "('k, 'v) omap \<Rightarrow> 'k \<Rightarrow> 'v result" where
  "omap_at m k = (case omap_find m k of None \<Rightarrow> Inl Out_of_range | Some v \<Rightarrow> Inr v)"

definition omap_ok :: "('k::linorder, 'v) omap \<Rightarrow> bool" where
  "omap_ok m \<longleftrightarrow> sorted_wrt (<) (map fst m)"

text \<open>The contract of a key-ordered map, as its clients rely on it.\<close>

locale ordered_map =
  fixes emp :: "'m"
    and upd :: "'k::linorder \<Rightarrow> 'v \<Rightarrow> 'm \<Rightarrow> 'm"
    and del :: "'k \<Rightarrow> 'm \<Rightarrow> 'm"
    and find :: "'m \<Rightarrow> 'k \<Rightarrow> 'v option"
    and items :: "'m \<Rightarrow> ('k \<times> 'v) list"
    and ok :: "'m \<Rightarrow> bool"
  assumes ok_emp: "ok emp"
    and ok_upd: "ok m \<Longrightarrow> ok (upd k v m)"
    and ok_del: "ok m \<Longrightarrow> ok (del k m)"
    and find_emp: "find emp k = None"
    and find_upd: "find (upd k v m) k' = (if k' = k then Some v else find m k')"
    and find_del: "find (del k m) k' = (if k' = k then None else find m k')"
    and items_find: "ok m \<Longrightarrow> (k, v) \<in> set (items m) \<longleftrightarrow> find m k = Some v"
    and items_sorted: "ok m \<Longrightarrow> sorted_wrt (<) (map fst (items m))"
begin

lemma find_upd_same: "find (upd k v m) k = Some v"
  by (simp add: find_upd)

lemma find_del_same: "find (del k m) k = None"
  by (simp add: find_del)

lemma items_distinct: "ok m \<Longrightarrow> distinct (map fst (items m))"
  using items_sorted strict_sorted_iff by blast

text \<open>Two maps with the same lookups are iterated in the same order.\<close>

lemma items_det:
  assumes ok: "ok m" "ok m'" and eq: "find m = find m'"
  shows "items m = items m'"
proof -
  have s: "sorted_wrt (\<lambda>p q. fst p < fst q) (items m)" "sorted_wrt (\<lambda>p q. fst p < fst q) (items m')"
    using items_sorted [OF ok(1)] items_sorted [OF ok(2)] by (simp_all add: sorted_wrt_map)
  have "set (items m) = set (items m')"
    using items_find [OF ok(1)] items_find [OF ok(2)] eq by auto
  then show ?thesis
    using s by (rule sorted_wrt_fst_unique [rotated 2])
qed

end

lemma omap_find_empty [simp]: "omap_find omap_empty k = None"
  by (simp add: omap_find_def omap_empty_def)

lemma omap_find_Nil [simp]: "omap_find [] k = None"
  by (simp add: omap_find_def)

lemma omap_find_upd [simp]:
  "omap_find (omap_upd k v m) k' = (if k' = k then Some v else omap_find m k')"
  by (induction m) (auto simp: omap_find_def)

lemma omap_find_erase [simp]:
  "omap_find (omap_erase k m) k' = (if k' = k then None else omap_find m k')"
  by (induction m) (auto simp: omap_find_def omap_erase_def)

lemma omap_has_upd [simp]: "omap_has (omap_upd k v m) k' \<longleftrightarrow> k' = k \<or> omap_has m k'"
  by (simp add: omap_has_def)

lemma omap_has_erase [simp]: "omap_has (omap_erase k m) k' \<longleftrightarrow> k' \<noteq> k \<and> omap_has m k'"
  by (simp add: omap_has_def)

lemma set_omap_upd_keys: "fst ` set (omap_upd k v m) = insert k (fst ` set m)"
proof (induction m)
  case Nil
  then show ?case by simp
next
  case (Cons p m)
  then show ?case by (cases p) (simp add: insert_commute)
qed

lemma omap_ok_Nil [simp]: "omap_ok []"
  by (simp add: omap_ok_def)

lemma omap_ok_Cons: "omap_ok (p # m) \<longleftrightarrow> (\<forall>q\<in>set m. fst p < fst q) \<and> omap_ok m"
  by (simp add: omap_ok_def)

lemma omap_ok_upd [simp, intro]: "omap_ok m \<Longrightarrow> omap_ok (omap_upd k v m)"
proof (induction m)
  case Nil
  then show ?case by (simp add: omap_ok_def)
next
  case (Cons p m)
  have "\<forall>q\<in>set (omap_upd k v m). fst q = k \<or> fst q \<in> fst ` set m"
    using set_omap_upd_keys [of k v m] by blast
  with Cons show ?case
    by (cases p) (fastforce simp: omap_ok_Cons)
qed

lemma omap_ok_erase [simp, intro]: "omap_ok m \<Longrightarrow> omap_ok (omap_erase k m)"
  by (induction m) (auto simp: omap_ok_Cons omap_erase_def)

lemma omap_ok_distinct: "omap_ok m \<Longrightarrow> distinct (map fst m)"
  by (simp add: omap_ok_def strict_sorted_iff)

lemma in_omap_iff: "omap_ok m \<Longrightarrow> (k, v) \<in> set m \<longleftrightarrow> omap_find m k = Some v"
  by (simp add: omap_ok_distinct omap_find_def)

lemma omap_length_upd:
  "omap_ok m \<Longrightarrow> length (omap_upd k v m) = (if omap_has m k then length m else Suc (length m))"
proof (induction m)
  case Nil
  then show ?case by (simp add: omap_has_def)
next
  case (Cons p m)
  obtain k' v' where p: "p = (k', v')" by (cases p)
  have "k < k' \<Longrightarrow> map_of m k = None"
    using Cons.prems unfolding p by (auto simp: omap_ok_Cons map_of_eq_None_iff)
  then show ?case using Cons unfolding p by (auto simp: omap_has_def omap_find_def omap_ok_Cons)
qed

lemma omap_length_erase: "omap_has m k \<Longrightarrow> length (omap_erase k m) < length m"
proof -
  assume "omap_has m k"
  then obtain v where "(k, v) \<in> set m" by (auto simp: omap_has_def omap_find_def dest: map_of_SomeD)
  then show ?thesis unfolding omap_erase_def by (intro length_filter_less) auto
qed

interpretation std_map: ordered_map omap_empty omap_upd omap_erase omap_find "\<lambda>m. m" omap_ok
proof unfold_locales
  show "omap_ok omap_empty" by (simp add: omap_empty_def)
qed (auto simp: in_omap_iff omap_ok_def [symmetric])

section \<open>Sums over the values of a map\<close>

definition omap_sum :: "('k, 'v::comm_monoid_add) omap \<Rightarrow> 'v" where
  "omap_sum m = sum_list (map snd m)"

lemma omap_sum_upd:
  fixes m :: "('k::linorder, 'v::ab_group_add) omap"
  assumes "omap_ok m"
  shows "omap_sum (omap_upd k v m) =
    omap_sum m + v - (case omap_find m k of None \<Rightarrow> 0 | Some w \<Rightarrow> w)"
  using assms
proof (induction m)
  case Nil
  then show ?case by (simp add: omap_sum_def)
next
  case (Cons p m)
  obtain k' v' where p: "p = (k', v')" by (cases p)
  have "k < k' \<Longrightarrow> omap_find (p # m) k = None"
    using Cons.prems unfolding p by (auto simp: omap_find_def omap_ok_Cons map_of_eq_None_iff)
  with Cons show ?case
    unfolding p by (auto simp: omap_sum_def omap_find_def omap_ok_Cons split: option.splits)
qed

lemma omap_sum_erase:
  fixes m :: "('k::linorder, 'v::ab_group_add) omap"
  assumes "omap_ok m"
  shows "omap_sum (omap_erase k m) =
    omap_sum m - (case omap_find m k of None \<Rightarrow> 0 | Some w \<Rightarrow> w)"
  using assms
proof (induction m)
  case Nil
  then show ?case by (simp add: omap_sum_def omap_erase_def)
next
  case (Cons p m)
  obtain k' v' where p: "p = (k', v')" by (cases p)
  have "k = k' \<Longrightarrow> omap_find m k = None"
    using Cons.prems unfolding p by (auto simp: omap_find_def omap_ok_Cons map_of_eq_None_iff)
  with Cons show ?case
    unfolding p by (auto simp: omap_sum_def omap_find_def omap_erase_def omap_ok_Cons split: option.splits)
qed

end
