(* ===== verification/Float64.thy ===== *)
theory Float64
  imports Prelude
begin

text \<open>
  The C++ type \<^verbatim>\<open>double\<close>: IEEE 754 binary64 with round to nearest, ties to even.

  A finite double is its exact rational value (\<open>Fin\<close>); every arithmetic operation computes
  the exact result and rounds it once with \<open>f64_of_rat\<close>, which keeps 53 significant bits,
  honours gradual underflow (least exponent -1074) and overflows to an infinity.  The two
  zeroes are one value: no divisor in the modelled code can be a negative zero (every divisor
  that can be zero is converted from an integer or is an absolute value), and
  comparisons do not tell the zeroes apart.  \<open>NaN\<close> compares false with everything.
\<close>

section \<open>Rounding\<close>

function ilog2 :: "int \<Rightarrow> int" where
  "ilog2 n = (if n \<le> 1 then 0 else 1 + ilog2 (n div 2))"
  by pat_completeness auto
termination
  by (relation "measure nat") auto

declare ilog2.simps [simp del]

definition pow2 :: "int \<Rightarrow> rat" where
  "pow2 e = (if 0 \<le> e then 2 ^ nat e else 1 / 2 ^ nat (- e))"

text \<open>The exponent of the power of two at or below a positive rational.\<close>

definition binade :: "rat \<Rightarrow> int" where
  "binade x = (if 1 \<le> x then ilog2 \<lfloor>x\<rfloor> else - (1 + ilog2 (\<lceil>1 / x\<rceil> - 1)))"

text \<open>The integer nearest to a rational, the even one of two that are equally near.\<close>

definition rne :: "rat \<Rightarrow> int" where
  "rne y =
     (let n = \<lfloor>y\<rfloor>; d = y - of_int n in
      if d < 1 / 2 then n else if 1 / 2 < d then n + 1 else if even n then n else n + 1)"

text \<open>The spacing of the doubles around a non-zero rational.\<close>

definition quantum :: "rat \<Rightarrow> rat" where
  "quantum x = pow2 (max (binade \<bar>x\<bar>) (-1022) - 52)"

definition rnd_rat :: "rat \<Rightarrow> rat" where
  "rnd_rat x = (if x = 0 then 0 else of_int (rne (x / quantum x)) * quantum x)"

section \<open>The type\<close>

datatype f64 = NaN | PInf | NInf | Fin rat

definition f64_of_rat :: "rat \<Rightarrow> f64" where
  "f64_of_rat x =
     (let r = rnd_rat x in
      if r \<noteq> 0 \<and> 1023 < binade \<bar>r\<bar> then (if 0 < r then PInf else NInf) else Fin r)"

definition f64_of_int :: "int \<Rightarrow> f64" where
  "f64_of_int i = f64_of_rat (of_int i)"

fun f64_neg :: "f64 \<Rightarrow> f64" where
  "f64_neg NaN = NaN"
| "f64_neg PInf = NInf"
| "f64_neg NInf = PInf"
| "f64_neg (Fin x) = Fin (- x)"

fun f64_add :: "f64 \<Rightarrow> f64 \<Rightarrow> f64" where
  "f64_add (Fin x) (Fin y) = f64_of_rat (x + y)"
| "f64_add NaN b = NaN"
| "f64_add a NaN = NaN"
| "f64_add PInf b = (if b = NInf then NaN else PInf)"
| "f64_add NInf b = (if b = PInf then NaN else NInf)"
| "f64_add (Fin x) b = b"

fun f64_sgn :: "f64 \<Rightarrow> rat" where
  "f64_sgn NaN = 0"
| "f64_sgn PInf = 1"
| "f64_sgn NInf = -1"
| "f64_sgn (Fin x) = sgn x"

definition f64_inf :: "rat \<Rightarrow> f64" where
  "f64_inf s = (if 0 < s then PInf else if s < 0 then NInf else NaN)"

fun f64_mul :: "f64 \<Rightarrow> f64 \<Rightarrow> f64" where
  "f64_mul (Fin x) (Fin y) = f64_of_rat (x * y)"
| "f64_mul NaN b = NaN"
| "f64_mul a NaN = NaN"
| "f64_mul a b = f64_inf (f64_sgn a * f64_sgn b)"

fun f64_div :: "f64 \<Rightarrow> f64 \<Rightarrow> f64" where
  "f64_div (Fin x) (Fin y) = (if y = 0 then f64_inf (sgn x) else f64_of_rat (x / y))"
| "f64_div NaN b = NaN"
| "f64_div a NaN = NaN"
| "f64_div (Fin x) b = Fin 0"
| "f64_div a (Fin y) = (if y < 0 then f64_neg a else a)"
| "f64_div a b = NaN"

fun f64_less :: "f64 \<Rightarrow> f64 \<Rightarrow> bool" where
  "f64_less (Fin x) (Fin y) \<longleftrightarrow> x < y"
| "f64_less NaN b \<longleftrightarrow> False"
| "f64_less a NaN \<longleftrightarrow> False"
| "f64_less a b \<longleftrightarrow> a \<noteq> b \<and> (a = NInf \<or> b = PInf)"

fun f64_le :: "f64 \<Rightarrow> f64 \<Rightarrow> bool" where
  "f64_le (Fin x) (Fin y) \<longleftrightarrow> x \<le> y"
| "f64_le NaN b \<longleftrightarrow> False"
| "f64_le a NaN \<longleftrightarrow> False"
| "f64_le a b \<longleftrightarrow> a = b \<or> a = NInf \<or> b = PInf"

instantiation f64 :: "{zero, one, plus, minus, uminus, times, inverse, ord}"
begin

definition zero_f64 :: f64 where "0 = Fin 0"
definition one_f64 :: f64 where "1 = Fin 1"
definition uminus_f64 :: "f64 \<Rightarrow> f64" where "- a = f64_neg a"
definition plus_f64 :: "f64 \<Rightarrow> f64 \<Rightarrow> f64" where "a + b = f64_add a b"
definition minus_f64 :: "f64 \<Rightarrow> f64 \<Rightarrow> f64" where "a - b = f64_add a (f64_neg b)"
definition times_f64 :: "f64 \<Rightarrow> f64 \<Rightarrow> f64" where "a * b = f64_mul a b"
definition divide_f64 :: "f64 \<Rightarrow> f64 \<Rightarrow> f64" where "a div b = f64_div a b"
definition inverse_f64 :: "f64 \<Rightarrow> f64" where "inverse a = f64_div (Fin 1) a"
definition less_f64 :: "f64 \<Rightarrow> f64 \<Rightarrow> bool" where "a < b \<longleftrightarrow> f64_less a b"
definition less_eq_f64 :: "f64 \<Rightarrow> f64 \<Rightarrow> bool" where "a \<le> b \<longleftrightarrow> f64_le a b"

instance ..

end

lemmas f64_ops = zero_f64_def one_f64_def uminus_f64_def plus_f64_def minus_f64_def
  times_f64_def divide_f64_def less_f64_def less_eq_f64_def

text \<open>\<^verbatim>\<open>operator==\<close>, \<^verbatim>\<open>std::min\<close>, \<^verbatim>\<open>std::max\<close>, \<^verbatim>\<open>std::abs\<close>, \<^verbatim>\<open>std::floor\<close>, \<^verbatim>\<open>std::round\<close>.\<close>

definition f64_eq :: "f64 \<Rightarrow> f64 \<Rightarrow> bool" where
  "f64_eq a b \<longleftrightarrow> a \<noteq> NaN \<and> a = b"

definition f64_min :: "f64 \<Rightarrow> f64 \<Rightarrow> f64" where
  "f64_min a b = (if b < a then b else a)"

definition f64_max :: "f64 \<Rightarrow> f64 \<Rightarrow> f64" where
  "f64_max a b = (if a < b then b else a)"

fun f64_abs :: "f64 \<Rightarrow> f64" where
  "f64_abs NaN = NaN"
| "f64_abs PInf = PInf"
| "f64_abs NInf = PInf"
| "f64_abs (Fin x) = Fin \<bar>x\<bar>"

fun f64_floor :: "f64 \<Rightarrow> f64" where
  "f64_floor (Fin x) = Fin (of_int \<lfloor>x\<rfloor>)"
| "f64_floor a = a"

text \<open>Halves away from zero.\<close>

definition round_half_away :: "rat \<Rightarrow> int" where
  "round_half_away x = (if 0 \<le> x then \<lfloor>x + 1 / 2\<rfloor> else - \<lfloor>- x + 1 / 2\<rfloor>)"

fun f64_round :: "f64 \<Rightarrow> f64" where
  "f64_round (Fin x) = Fin (of_int (round_half_away x))"
| "f64_round a = a"

section \<open>Rounding facts\<close>

lemma ilog2_bounds: "1 \<le> n \<Longrightarrow> 0 \<le> ilog2 n \<and> 2 ^ nat (ilog2 n) \<le> n \<and> n < 2 ^ (nat (ilog2 n) + 1)"
proof (induction n rule: ilog2.induct)
  case (1 n)
  show ?case
  proof (cases "n \<le> 1")
    case True
    with "1.prems" have "n = 1" by simp
    then show ?thesis by (simp add: ilog2.simps [of 1])
  next
    case False
    then have IH: "0 \<le> ilog2 (n div 2)" "2 ^ nat (ilog2 (n div 2)) \<le> n div 2"
      "n div 2 < 2 ^ (nat (ilog2 (n div 2)) + 1)"
      using "1.IH" by auto
    have eq: "ilog2 n = 1 + ilog2 (n div 2)" using False by (simp add: ilog2.simps [of n])
    have "nat (ilog2 n) = Suc (nat (ilog2 (n div 2)))" using IH(1) eq by simp
    moreover define K :: int where "K = 2 ^ nat (ilog2 (n div 2))"
    moreover have "2 * K \<le> n" "n < 4 * K" using IH(2,3) unfolding K_def by auto
    ultimately show ?thesis using IH(1) eq by simp
  qed
qed

lemma pow2_powi: "pow2 e = 2 powi e"
  by (simp add: pow2_def power_int_def inverse_eq_divide power_one_over)

lemma pow2_pos [simp]: "0 < pow2 e"
  by (simp add: pow2_def)

lemma pow2_nonzero [simp]: "pow2 e \<noteq> 0"
  by (simp add: pow2_def)

lemma pow2_nonneg [simp]: "0 \<le> pow2 e"
  by (rule less_imp_le) simp

lemma abs_pow2 [simp]: "\<bar>pow2 e\<bar> = pow2 e"
  by (simp add: abs_of_nonneg)

lemma pow2_add: "pow2 (a + b) = pow2 a * pow2 b"
  by (simp add: pow2_powi power_int_add)

lemma pow2_diff: "pow2 (a - b) = pow2 a / pow2 b"
  by (simp add: pow2_powi power_int_diff)

lemma pow2_le: "a \<le> b \<Longrightarrow> pow2 a \<le> pow2 b"
  by (simp add: pow2_powi power_int_increasing)

lemma pow2_less: "a < b \<Longrightarrow> pow2 a < pow2 b"
  by (simp add: pow2_powi power_int_strict_increasing)

lemma pow2_of_int: "0 \<le> e \<Longrightarrow> pow2 e = of_int (2 ^ nat e)"
  by (simp add: pow2_def)

lemma binade_bounds:
  assumes "0 < x"
  shows "pow2 (binade x) \<le> x" "x < pow2 (binade x + 1)"
proof -
  have "pow2 (binade x) \<le> x \<and> x < pow2 (binade x + 1)"
  proof (cases "1 \<le> x")
    case True
    define e where "e = nat (ilog2 \<lfloor>x\<rfloor>)"
    have f: "1 \<le> \<lfloor>x\<rfloor>" using True by simp
    have b: "binade x = int e" using True ilog2_bounds [OF f] by (simp add: binade_def e_def)
    have "of_int (2 ^ e) \<le> (of_int \<lfloor>x\<rfloor> :: rat)" "(of_int (\<lfloor>x\<rfloor> + 1) :: rat) \<le> of_int (2 ^ (e + 1))"
      using ilog2_bounds [OF f] unfolding e_def by (simp_all del: of_int_power of_int_add)
    then have "2 ^ e \<le> x" "x < 2 ^ (e + 1)"
      using floor_correct [of x] by (simp_all only: of_int_power of_int_numeral) linarith+
    then show ?thesis by (simp add: b pow2_def nat_add_distrib)
  next
    case False
    define y where "y = 1 / x"
    have y: "1 < y" using False assms by (simp add: y_def)
    define e where "e = nat (ilog2 (\<lceil>y\<rceil> - 1))"
    have f: "1 \<le> \<lceil>y\<rceil> - 1" using y by linarith
    have b: "binade x = - (1 + int e)"
      using False ilog2_bounds [OF f] by (simp add: binade_def e_def y_def)
    have "of_int (2 ^ e) \<le> (of_int (\<lceil>y\<rceil> - 1) :: rat)" "(of_int \<lceil>y\<rceil> :: rat) \<le> of_int (2 ^ (e + 1))"
      using ilog2_bounds [OF f] unfolding e_def by (simp_all del: of_int_power of_int_diff)
    then have "2 ^ e < y" "y \<le> 2 ^ (e + 1)"
      using ceiling_correct [of y]
      by (simp_all only: of_int_power of_int_numeral of_int_diff of_int_1) linarith+
    moreover have p: "pow2 (binade x) = 1 / 2 ^ (e + 1)" "pow2 (binade x + 1) = 1 / 2 ^ e"
      by (simp_all add: b pow2_def nat_add_distrib)
    ultimately show ?thesis using assms unfolding p by (simp add: y_def field_simps)
  qed
  then show "pow2 (binade x) \<le> x" "x < pow2 (binade x + 1)" by auto
qed

lemma binade_unique:
  assumes "0 < x" "pow2 e \<le> x" "x < pow2 (e + 1)"
  shows "binade x = e"
proof (rule antisym)
  show "binade x \<le> e"
    using binade_bounds [OF assms(1)] assms(3) pow2_le [of "e + 1" "binade x"] by linarith
  show "e \<le> binade x"
    using binade_bounds [OF assms(1)] assms(2) pow2_le [of "binade x + 1" e] by linarith
qed

lemma binade_mono: "0 < x \<Longrightarrow> x \<le> y \<Longrightarrow> binade x \<le> binade y"
  using binade_bounds [of x] binade_bounds [of y] pow2_le [of "binade y + 1" "binade x"] by linarith

lemma rne_of_int [simp]: "rne (of_int n) = n"
  by (simp add: rne_def)

lemma rne_ge: "of_int n \<le> y \<Longrightarrow> n \<le> rne y"
  using le_floor_iff [of n y] unfolding rne_def Let_def by auto

lemma rne_le: "y \<le> of_int n \<Longrightarrow> rne y \<le> n"
proof -
  assume y: "y \<le> of_int n"
  show "rne y \<le> n"
  proof (cases "y = of_int n")
    case True
    then show ?thesis by simp
  next
    case False
    with y have "\<lfloor>y\<rfloor> < n" by (simp add: floor_less_iff)
    then show ?thesis unfolding rne_def Let_def by auto
  qed
qed

lemma rne_mono: "x \<le> y \<Longrightarrow> rne x \<le> rne y"
proof -
  assume xy: "x \<le> y"
  consider "\<lfloor>x\<rfloor> = \<lfloor>y\<rfloor>" | "\<lfloor>x\<rfloor> + 1 \<le> \<lfloor>y\<rfloor>"
    using floor_mono [OF xy] by linarith
  then show ?thesis
  proof cases
    case 1
    then show ?thesis using xy unfolding rne_def Let_def by auto
  next
    case 2
    have "rne x \<le> \<lfloor>x\<rfloor> + 1" unfolding rne_def Let_def by auto
    moreover have "\<lfloor>y\<rfloor> \<le> rne y" unfolding rne_def Let_def by auto
    ultimately show ?thesis using 2 by linarith
  qed
qed

lemma rne_uminus: "rne (- y) = - rne y"
proof (cases "y = of_int \<lfloor>y\<rfloor>")
  case True
  then show ?thesis by (metis of_int_minus rne_of_int)
next
  case False
  then have "\<lfloor>- y\<rfloor> = - \<lfloor>y\<rfloor> - 1"
    by (simp add: floor_minus ceiling_altdef)
  then show ?thesis unfolding rne_def Let_def by auto
qed

lemma quantum_pos [simp]: "0 < quantum x"
  by (simp add: quantum_def)

lemma quantum_nonzero [simp]: "quantum x \<noteq> 0"
  using quantum_pos [of x] by linarith

lemma quantum_nonneg [simp]: "0 \<le> quantum x"
  by (rule less_imp_le) simp

lemma quantum_uminus [simp]: "quantum (- x) = quantum x"
  by (simp add: quantum_def)

lemma rnd_rat_0 [simp]: "rnd_rat 0 = 0"
  by (simp add: rnd_rat_def)

lemma rnd_rat_uminus: "rnd_rat (- x) = - rnd_rat x"
  by (simp add: rnd_rat_def rne_uminus)

lemma rnd_rat_nonneg: "0 \<le> x \<Longrightarrow> 0 \<le> rnd_rat x"
  using rne_ge [of 0 "x / quantum x"] by (simp add: rnd_rat_def)

lemma rnd_rat_nonpos: "x \<le> 0 \<Longrightarrow> rnd_rat x \<le> 0"
  using rnd_rat_nonneg [of "- x"] by (simp add: rnd_rat_uminus)

text \<open>A multiple of the spacing is not moved.\<close>

lemma rnd_rat_multiple: "x = of_int m * quantum x \<Longrightarrow> rnd_rat x = x"
  unfolding rnd_rat_def
  by (metis nonzero_mult_div_cancel_right quantum_nonzero rne_of_int)

lemma pow2_multiple: "a \<le> b \<Longrightarrow> pow2 b = of_int (2 ^ nat (b - a)) * pow2 a"
  using pow2_add [of "b - a" a] by (simp add: pow2_of_int)

text \<open>Every \<open>m * 2 ^ e\<close> with at most 53 bits in \<open>m\<close> and an exponent in range is a double.\<close>

lemma rnd_rat_representable:
  assumes x: "x = of_int m * pow2 e" and m: "\<bar>m\<bar> < 2 ^ 53" and e: "-1074 \<le> e"
  shows "rnd_rat x = x"
proof (cases "m = 0")
  case True
  then show ?thesis by (simp add: x)
next
  case False
  have ax: "\<bar>x\<bar> = of_int \<bar>m\<bar> * pow2 e" by (simp add: x abs_mult)
  have pos: "0 < \<bar>x\<bar>" using False by (simp add: x)
  have "\<bar>x\<bar> < pow2 (53 + e)"
  proof -
    have "(of_int \<bar>m\<bar> :: rat) < of_int (2 ^ 53)" using m by (simp only: of_int_less_iff)
    then have "of_int \<bar>m\<bar> < pow2 53" by (simp add: pow2_def)
    then show ?thesis unfolding ax pow2_add by (rule mult_strict_right_mono) simp
  qed
  then have "binade \<bar>x\<bar> < 53 + e"
    using binade_bounds [OF pos] pow2_le [of "53 + e" "binade \<bar>x\<bar>"] by linarith
  then have "max (binade \<bar>x\<bar>) (-1022) - 52 \<le> e" using e by simp
  then have "pow2 e = of_int (2 ^ nat (e - (max (binade \<bar>x\<bar>) (-1022) - 52))) * quantum x"
    unfolding quantum_def by (rule pow2_multiple)
  then have "x = of_int (m * 2 ^ nat (e - (max (binade \<bar>x\<bar>) (-1022) - 52))) * quantum x"
    by (subst x) simp
  then show ?thesis by (rule rnd_rat_multiple)
qed

lemma rnd_rat_of_int: "\<bar>n\<bar> < 2 ^ 53 \<Longrightarrow> rnd_rat (of_int n) = of_int n"
  using rnd_rat_representable [of "of_int n" n 0] by (simp add: pow2_def)

lemma rnd_rat_le_pow2:
  assumes "0 < x" "x \<le> pow2 e" "-1022 \<le> e"
  shows "rnd_rat x \<le> pow2 e"
proof -
  have "binade x \<le> e"
    using binade_bounds [OF assms(1)] assms(2) pow2_less [of e "binade x"] by linarith
  then have "max (binade \<bar>x\<bar>) (-1022) - 52 \<le> e" using assms(1,3) by simp
  then obtain k where k: "pow2 e = of_int k * quantum x"
    unfolding quantum_def using pow2_multiple by blast
  have "x / quantum x \<le> of_int k" using assms(2) by (simp add: k divide_le_eq)
  then have "rne (x / quantum x) \<le> k" by (rule rne_le)
  then show ?thesis using assms(1) by (simp add: rnd_rat_def k)
qed

lemma rnd_rat_ge_pow2:
  assumes "pow2 e \<le> x" "e = binade x" "-1022 \<le> e"
  shows "pow2 e \<le> rnd_rat x"
proof -
  have x: "0 < x" using assms(1) pow2_pos [of e] by linarith
  then have "max (binade \<bar>x\<bar>) (-1022) - 52 \<le> e" using assms(2,3) by simp
  then obtain k where k: "pow2 e = of_int k * quantum x"
    unfolding quantum_def using pow2_multiple by blast
  have "of_int k \<le> x / quantum x" using assms(1) by (simp add: k le_divide_eq)
  then have "k \<le> rne (x / quantum x)" by (rule rne_ge)
  then show ?thesis using x by (simp add: rnd_rat_def k)
qed

lemma rnd_rat_mono_pos:
  assumes "0 < x" "x \<le> y"
  shows "rnd_rat x \<le> rnd_rat y"
proof (cases "quantum x = quantum y")
  case True
  have "x / quantum y \<le> y / quantum y" using assms by (simp add: divide_right_mono)
  then show ?thesis
    using assms rne_mono [of "x / quantum y" "y / quantum y"] True by (simp add: rnd_rat_def)
next
  case False
  have y: "0 < y" using assms by simp
  have le: "binade x \<le> binade y" using assms by (rule binade_mono)
  with False have lt: "binade x < binade y" "-1022 < binade y"
    using assms by (auto simp: quantum_def max_def order_le_less split: if_splits)
  have "x \<le> pow2 (binade y)"
    using binade_bounds [OF assms(1)] pow2_le [of "binade x + 1" "binade y"] lt by linarith
  then have "rnd_rat x \<le> pow2 (binade y)"
    using assms(1) lt by (intro rnd_rat_le_pow2) simp_all
  also have "\<dots> \<le> rnd_rat y"
    using binade_bounds [OF y] lt by (intro rnd_rat_ge_pow2) simp_all
  finally show ?thesis .
qed

lemma rnd_rat_mono: "x \<le> y \<Longrightarrow> rnd_rat x \<le> rnd_rat y"
proof -
  assume xy: "x \<le> y"
  consider "0 < x" | "x \<le> 0" "0 \<le> y" | "y < 0" by linarith
  then show ?thesis
  proof cases
    case 1
    then show ?thesis using xy by (rule rnd_rat_mono_pos)
  next
    case 2
    then show ?thesis using rnd_rat_nonpos [of x] rnd_rat_nonneg [of y] by linarith
  next
    case 3
    then show ?thesis using rnd_rat_mono_pos [of "- y" "- x"] xy by (simp add: rnd_rat_uminus)
  qed
qed

lemma rne_error: "\<bar>of_int (rne y) - y\<bar> \<le> 1 / 2"
  using floor_correct [of y] unfolding rne_def Let_def by auto

lemma rnd_rat_error:
  assumes "pow2 (-1022) \<le> \<bar>x\<bar>"
  shows "\<bar>rnd_rat x - x\<bar> \<le> \<bar>x\<bar> / 2 ^ 53"
proof -
  have pos: "0 < \<bar>x\<bar>" using assms pow2_pos [of "-1022"] by linarith
  then have x: "x \<noteq> 0" by simp
  have b: "-1022 \<le> binade \<bar>x\<bar>"
    using binade_bounds [OF pos] assms pow2_le [of "binade \<bar>x\<bar> + 1" "-1022"] by linarith
  then have q: "quantum x = pow2 (binade \<bar>x\<bar>) / 2 ^ 52"
    by (simp add: quantum_def pow2_diff) (simp add: pow2_def)
  have "rnd_rat x - x = (of_int (rne (x / quantum x)) - x / quantum x) * quantum x"
    using x by (simp add: rnd_rat_def left_diff_distrib)
  then have "\<bar>rnd_rat x - x\<bar> \<le> 1 / 2 * quantum x"
    using rne_error [of "x / quantum x"] by (simp add: abs_mult)
  also have "\<dots> \<le> \<bar>x\<bar> / 2 ^ 53"
    using binade_bounds(1) [OF pos] unfolding q by simp
  finally show ?thesis .
qed

lemma rnd_rat_pow2: "-1022 \<le> e \<Longrightarrow> rnd_rat (pow2 e) = pow2 e"
  using rnd_rat_representable [of "pow2 e" 1 e] by simp

lemma f64_of_rat_finite:
  assumes "\<bar>x\<bar> \<le> pow2 1000"
  shows "f64_of_rat x = Fin (rnd_rat x)"
proof -
  have "x \<le> pow2 1000" "- x \<le> pow2 1000" using assms by linarith+
  then have "rnd_rat x \<le> pow2 1000" "- rnd_rat x \<le> pow2 1000"
    using rnd_rat_mono [of x "pow2 1000"] rnd_rat_mono [of "- x" "pow2 1000"]
    by (simp_all add: rnd_rat_pow2 rnd_rat_uminus)
  then have "\<bar>rnd_rat x\<bar> \<le> pow2 1000" by linarith
  then have "rnd_rat x \<noteq> 0 \<Longrightarrow> binade \<bar>rnd_rat x\<bar> \<le> 1023"
    using binade_bounds(1) [of "\<bar>rnd_rat x\<bar>"] pow2_less [of 1000 "binade \<bar>rnd_rat x\<bar>"] by fastforce
  then show ?thesis by (auto simp: f64_of_rat_def Let_def)
qed

lemma pow2_1000_ge: "(of_int (2 ^ 64) :: rat) \<le> pow2 1000"
  using pow2_le [of 64 1000] by (simp add: pow2_def)

section \<open>Arithmetic facts\<close>

lemma f64_of_rat_cases:
  obtains "f64_of_rat x = PInf" "0 < x" | "f64_of_rat x = NInf" "x < 0" | "f64_of_rat x = Fin (rnd_rat x)"
  using rnd_rat_nonneg [of x] rnd_rat_nonpos [of x] unfolding f64_of_rat_def Let_def
  by (metis linorder_not_le linorder_less_linear order_less_le rnd_rat_0)

lemma f64_of_rat_0 [simp]: "f64_of_rat 0 = 0"
  by (simp add: f64_of_rat_def zero_f64_def)

lemma f64_of_rat_int: "\<bar>n\<bar> < 2 ^ 53 \<Longrightarrow> f64_of_rat (of_int n) = Fin (of_int n)"
proof -
  assume n: "\<bar>n\<bar> < 2 ^ 53"
  have "n \<noteq> 0 \<Longrightarrow> binade \<bar>of_int n\<bar> \<le> 1023"
  proof -
    assume nz: "n \<noteq> 0"
    have "(of_int \<bar>n\<bar> :: rat) < of_int (2 ^ 53)" using n by (simp only: of_int_less_iff)
    then have "\<bar>of_int n\<bar> < pow2 53" by (simp add: pow2_def)
    then have "binade \<bar>of_int n\<bar> < 53"
      using nz binade_bounds [of "\<bar>of_int n\<bar>"] pow2_le [of 53 "binade \<bar>of_int n\<bar>"] by fastforce
    then show ?thesis by simp
  qed
  then show ?thesis using n by (auto simp: f64_of_rat_def Let_def rnd_rat_of_int)
qed

lemma f64_diff_self [simp]: "Fin x - Fin x = 0"
  by (simp add: minus_f64_def)

lemma f64_ratio_self: "x \<noteq> 0 \<Longrightarrow> Fin x / Fin x = 1"
  using f64_of_rat_int [of 1] by (simp add: divide_f64_def one_f64_def)

lemma f64_less_Fin [simp]: "Fin x < Fin y \<longleftrightarrow> x < y"
  by (simp add: less_f64_def)

lemma f64_le_Fin [simp]: "Fin x \<le> Fin y \<longleftrightarrow> x \<le> y"
  by (simp add: less_eq_f64_def)

lemma f64_NaN_less [simp]: "\<not> NaN < b" "\<not> a < NaN" "\<not> NaN \<le> b" "\<not> a \<le> NaN"
  by (cases a; cases b; simp add: less_f64_def less_eq_f64_def)+

lemma f64_less_le: "(a::f64) < b \<longleftrightarrow> a \<le> b \<and> a \<noteq> b"
  by (cases a; cases b) (auto simp: less_f64_def less_eq_f64_def)

lemma f64_le_trans [trans]: "(a::f64) \<le> b \<Longrightarrow> b \<le> c \<Longrightarrow> a \<le> c"
  by (cases a; cases b; cases c) (auto simp: less_eq_f64_def)

lemma f64_not_less: "a \<noteq> NaN \<Longrightarrow> b \<noteq> NaN \<Longrightarrow> \<not> (a::f64) < b \<longleftrightarrow> b \<le> a"
  by (cases a; cases b) (auto simp: less_f64_def less_eq_f64_def)

lemma f64_not_le: "a \<noteq> NaN \<Longrightarrow> b \<noteq> NaN \<Longrightarrow> \<not> (a::f64) \<le> b \<longleftrightarrow> b < a"
  by (cases a; cases b) (auto simp: less_f64_def less_eq_f64_def)

lemma f64_less_trans: "(a::f64) < b \<Longrightarrow> b < c \<Longrightarrow> a < c"
  by (cases a; cases b; cases c) (auto simp: less_f64_def)

lemma f64_less_imp_le: "(a::f64) < b \<Longrightarrow> a \<le> b"
  by (simp add: f64_less_le)

lemma f64_le_less_trans: "(a::f64) \<le> b \<Longrightarrow> b < c \<Longrightarrow> a < c"
  by (cases a; cases b; cases c) (auto simp: less_f64_def less_eq_f64_def)

lemma f64_less_le_trans: "(a::f64) < b \<Longrightarrow> b \<le> c \<Longrightarrow> a < c"
  by (cases a; cases b; cases c) (auto simp: less_f64_def less_eq_f64_def)

lemma f64_less_irrefl [simp]: "\<not> (a::f64) < a"
  by (cases a) (auto simp: less_f64_def)

lemma f64_le_notNaN: "(a::f64) \<le> b \<Longrightarrow> a \<noteq> NaN \<and> b \<noteq> NaN"
  by auto

lemma f64_less_notNaN: "(a::f64) < b \<Longrightarrow> a \<noteq> NaN \<and> b \<noteq> NaN"
  by auto

text \<open>Sums of non-negative values, differences and quotients keep their sign under rounding.\<close>

lemma f64_of_rat_nonneg: "0 \<le> x \<Longrightarrow> 0 \<le> f64_of_rat x"
  by (rule f64_of_rat_cases [of x])
    (auto simp: zero_f64_def less_eq_f64_def intro: rnd_rat_nonneg)

lemma f64_of_rat_nonpos: "x \<le> 0 \<Longrightarrow> f64_of_rat x \<le> 0"
  by (rule f64_of_rat_cases [of x])
    (auto simp: zero_f64_def less_eq_f64_def intro: rnd_rat_nonpos)

lemma f64_zero_less_neg: "0 < - a \<longleftrightarrow> a < (0::f64)"
  by (cases a) (auto simp: zero_f64_def less_f64_def uminus_f64_def)

lemma f64_le_asym: "a \<le> b \<Longrightarrow> \<not> b < (a :: f64)"
  using f64_le_less_trans [of a b a] by auto

lemma f64_le_refl: "a \<noteq> NaN \<Longrightarrow> a \<le> (a :: f64)"
  by (cases a) (simp_all add: less_eq_f64_def)

lemma f64_add_nonneg: "(0::f64) \<le> a \<Longrightarrow> 0 \<le> b \<Longrightarrow> 0 \<le> a + b"
  by (cases a; cases b)
    (auto simp: plus_f64_def zero_f64_def less_eq_f64_def
      intro!: f64_of_rat_nonneg [unfolded less_eq_f64_def zero_f64_def])

lemma f64_diff_nonneg: "(b::f64) \<le> a \<Longrightarrow> b \<noteq> NInf \<Longrightarrow> a \<noteq> PInf \<Longrightarrow> 0 \<le> a - b"
  by (cases a; cases b)
    (auto simp: minus_f64_def zero_f64_def less_eq_f64_def
      intro!: f64_of_rat_nonneg [unfolded less_eq_f64_def zero_f64_def])

lemma f64_mul_nonneg: "(0::f64) \<le> a \<Longrightarrow> 0 \<le> b \<Longrightarrow> a * b = NaN \<or> 0 \<le> a * b"
  by (cases a; cases b)
    (auto simp: times_f64_def zero_f64_def less_eq_f64_def f64_inf_def sgn_if
      intro!: f64_of_rat_nonneg [unfolded less_eq_f64_def zero_f64_def])

lemma f64_min_le: "f64_min a b \<le> b \<or> a = NaN \<or> b = NaN"
  by (cases a; cases b) (auto simp: f64_min_def less_f64_def less_eq_f64_def)

lemma f64_min_either: "f64_min a b = a \<or> f64_min a b = b"
  by (simp add: f64_min_def)

lemma f64_max_either: "f64_max a b = a \<or> f64_max a b = b"
  by (simp add: f64_max_def)

section \<open>Rounding on integers\<close>

text \<open>
  An equation for evaluation: the numerator and the denominator are rounded with integer
  division, and the result is a literal, so that the terms of a long computation stay small.
\<close>

lemma rne_frac:
  assumes "0 < b"
  shows "rne (of_int a / of_int b) =
    (let n = a div b; d = 2 * (a mod b) in if d < b then n else if b < d then n + 1 else if even n then n else n + 1)"
proof -
  have b: "(0::rat) < of_int b" using assms by simp
  have n: "\<lfloor>of_int a / of_int b :: rat\<rfloor> = a div b" by (rule floor_divide_of_int_eq)
  have "(of_int a :: rat) = of_int (a div b) * of_int b + of_int (a mod b)"
    by (simp only: of_int_mult [symmetric] of_int_add [symmetric] div_mult_mod_eq)
  then have d: "of_int a / of_int b - of_int (a div b) = (of_int (a mod b) / of_int b :: rat)"
    using b by (simp add: add_divide_distrib)
  have 1: "(of_int (a mod b) / of_int b < (1 / 2 :: rat)) = (2 * (a mod b) < b)"
  proof -
    have "(of_int (a mod b) / of_int b < (1 / 2 :: rat)) = (of_int (2 * (a mod b)) < (of_int b :: rat))"
      using b by (simp only: divide_less_eq of_int_mult of_int_numeral) (simp add: algebra_simps)
    then show ?thesis by (simp only: of_int_less_iff)
  qed
  have 2: "((1 / 2 :: rat) < of_int (a mod b) / of_int b) = (b < 2 * (a mod b))"
  proof -
    have "((1 / 2 :: rat) < of_int (a mod b) / of_int b) = ((of_int b :: rat) < of_int (2 * (a mod b)))"
      using b by (simp only: less_divide_eq of_int_mult of_int_numeral) (simp add: algebra_simps)
    then show ?thesis by (simp only: of_int_less_iff)
  qed
  show ?thesis unfolding rne_def Let_def n d 1 2 ..
qed

lemma ceiling_frac: "0 < a \<Longrightarrow> \<lceil>of_int b / of_int a :: rat\<rceil> = - ((- b) div a)"
  using ceiling_divide_eq_div [of b a] by simp

definition binade_frac :: "int \<Rightarrow> int \<Rightarrow> int" where
  "binade_frac a b = (if b \<le> a then ilog2 (a div b) else - (1 + ilog2 (- ((- b) div a) - 1)))"

lemma binade_frac: "0 < a \<Longrightarrow> 0 < b \<Longrightarrow> binade (of_int a / of_int b) = binade_frac a b"
  using floor_divide_of_int_eq [of a b, where 'a = rat] ceiling_frac [of a b]
  by (simp add: binade_def binade_frac_def le_divide_eq)

text \<open>A literal: a quotient of two coprime numerals.\<close>

definition rat_literal :: "rat \<Rightarrow> rat" where
  "rat_literal x = (case quotient_of x of (a, b) \<Rightarrow> if b = 1 then of_int a else of_int a / of_int b)"

lemma rat_literal: "rat_literal x = x"
proof -
  obtain a b where q: "quotient_of x = (a, b)" by (cases "quotient_of x")
  then have "x = of_int a / of_int b" by (rule quotient_of_div)
  then show ?thesis using q by (simp add: rat_literal_def)
qed

definition round_frac :: "int \<Rightarrow> int \<Rightarrow> int" where
  "round_frac a b = (let n = a div b; d = 2 * (a mod b) in if d < b then n else if b < d then n + 1 else if even n then n else n + 1)"

lemma quantum_frac:
  assumes "a \<noteq> 0" "0 < b"
  shows "quantum (of_int a / of_int b) = pow2 (max (binade_frac \<bar>a\<bar> b) (-1022) - 52)"
  using assms binade_frac [of "\<bar>a\<bar>" b] by (simp add: quantum_def)

lemma rnd_rat_code [code]:
  "rnd_rat x =
     (case quotient_of x of (a, b) \<Rightarrow>
        if a = 0 then 0
        else let k = max (binade_frac \<bar>a\<bar> b) (-1022) - 52 in
             if 0 \<le> k then of_int (round_frac a (b * 2 ^ nat k) * 2 ^ nat k)
             else rat_literal (of_int (round_frac (a * 2 ^ nat (- k)) b) / of_int (2 ^ nat (- k))))"
proof -
  obtain a b where q: "quotient_of x = (a, b)" by (cases "quotient_of x")
  then have x: "x = of_int a / of_int b" and b: "0 < b" by (auto intro: quotient_of_div quotient_of_denom_pos)
  show ?thesis
  proof (cases "a = 0")
    case False
    define k where "k = max (binade_frac \<bar>a\<bar> b) (-1022) - 52"
    have qx: "quantum x = pow2 k" using False b by (simp add: x quantum_frac k_def)
    have x0: "x \<noteq> 0" using False b by (simp add: x)
    show ?thesis
    proof (cases "0 \<le> k")
      case True
      then have "x / quantum x = of_int a / of_int (b * 2 ^ nat k)" unfolding qx by (simp add: x pow2_def)
      moreover have "0 < b * 2 ^ nat k" using b by simp
      ultimately have "rne (x / quantum x) = round_frac a (b * 2 ^ nat k)"
        using rne_frac unfolding round_frac_def by metis
      then show ?thesis unfolding q prod.case Let_def k_def [symmetric]
        using False True x0 by (simp add: rnd_rat_def) (simp add: qx pow2_def)
    next
      case neg: False
      then have "x / quantum x = of_int (a * 2 ^ nat (- k)) / of_int b" unfolding qx by (simp add: x pow2_def)
      then have "rne (x / quantum x) = round_frac (a * 2 ^ nat (- k)) b"
        using rne_frac [OF b] unfolding round_frac_def by metis
      then show ?thesis unfolding q prod.case Let_def k_def [symmetric]
        using False neg x0 by (simp add: rnd_rat_def rat_literal) (simp add: qx pow2_def)
    qed
  qed (simp add: q x rnd_rat_def)
qed

end
