(* ===== verification/Money_Utils.thy ===== *)
theory Money_Utils
  imports Float64 "HOL-Library.Word"
begin

text \<open>
  \<^verbatim>\<open>src/utils/constants.hpp\<close> and \<^verbatim>\<open>src/utils/money_utils\<close>: the constants, the 64-bit signed
  integers the program stores, and the class \<^verbatim>\<open>Money\<close>, a count of microdollars.

  \<open>int64\<close> is a 64-bit word read as two's complement: its ring operations wrap, its order is
  the signed one.  C++ leaves signed overflow and an out-of-range conversion from
  \<^verbatim>\<open>double\<close> undefined; the model takes what x86-64 does (wrap-around, and \<^verbatim>\<open>INT64_MIN\<close> for the
  conversion), and the theorems that need exact values carry the range as a hypothesis.
\<close>

section \<open>Signed 64-bit integers\<close>

datatype int64 = I64 (word_of_int64: "64 word")

definition int64_of_int :: "int \<Rightarrow> int64" where
  "int64_of_int i = I64 (word_of_int i)"

definition int_of_int64 :: "int64 \<Rightarrow> int" where
  "int_of_int64 x = sint (word_of_int64 x)"

definition INT64_MIN :: int64 where
  "INT64_MIN = int64_of_int (- (2 ^ 63))"

instantiation int64 :: "{comm_ring_1, linorder}"
begin

definition zero_int64 :: int64 where "0 = I64 0"
definition one_int64 :: int64 where "1 = I64 1"
definition plus_int64 :: "int64 \<Rightarrow> int64 \<Rightarrow> int64" where
  "a + b = I64 (word_of_int64 a + word_of_int64 b)"
definition minus_int64 :: "int64 \<Rightarrow> int64 \<Rightarrow> int64" where
  "a - b = I64 (word_of_int64 a - word_of_int64 b)"
definition uminus_int64 :: "int64 \<Rightarrow> int64" where
  "- a = I64 (- word_of_int64 a)"
definition times_int64 :: "int64 \<Rightarrow> int64 \<Rightarrow> int64" where
  "a * b = I64 (word_of_int64 a * word_of_int64 b)"
definition less_int64 :: "int64 \<Rightarrow> int64 \<Rightarrow> bool" where
  "a < b \<longleftrightarrow> int_of_int64 a < int_of_int64 b"
definition less_eq_int64 :: "int64 \<Rightarrow> int64 \<Rightarrow> bool" where
  "a \<le> b \<longleftrightarrow> int_of_int64 a \<le> int_of_int64 b"

instance
proof
  fix a b :: int64
  show "a \<le> b \<Longrightarrow> b \<le> a \<Longrightarrow> a = b"
    by (cases a; cases b) (auto simp: less_eq_int64_def int_of_int64_def dest: signed_word_eqI)
qed (auto simp: zero_int64_def one_int64_def plus_int64_def minus_int64_def uminus_int64_def
    times_int64_def less_int64_def less_eq_int64_def algebra_simps int64.expand)

end

section \<open>Conversions between integers and doubles\<close>

definition int64_to_f64 :: "int64 \<Rightarrow> f64" where
  "int64_to_f64 x = f64_of_int (int_of_int64 x)"

definition trunc_rat :: "rat \<Rightarrow> int" where
  "trunc_rat x = (if 0 \<le> x then \<lfloor>x\<rfloor> else \<lceil>x\<rceil>)"

fun f64_to_int64 :: "f64 \<Rightarrow> int64" where
  "f64_to_int64 (Fin x) =
     (let t = trunc_rat x in
      if - (2 ^ 63) \<le> t \<and> t < 2 ^ 63 then int64_of_int t else INT64_MIN)"
| "f64_to_int64 _ = INT64_MIN"

section \<open>Constants\<close>

definition MONEY_SCALE :: nat where "MONEY_SCALE = 6"
definition MONEY_BASE :: int where "MONEY_BASE = 10"
definition MONEY_SCALED_BASE :: int64 where "MONEY_SCALED_BASE = int64_of_int 1000000"
definition NANOSECONDS_PER_MILLISECOND :: int where "NANOSECONDS_PER_MILLISECOND = 1000000"
definition NANOSECONDS_PER_SECOND :: int where "NANOSECONDS_PER_SECOND = 1000000000"
definition LIMIT :: string where "LIMIT = ''limit''"
definition MARKET :: string where "MARKET = ''market''"
definition BUY :: string where "BUY = ''buy''"
definition SELL :: string where "SELL = ''sell''"
definition DEFAULT_POSITION_SIZE_VALUE :: f64 where
  "DEFAULT_POSITION_SIZE_VALUE = f64_of_rat (1 / 100)"
definition EPSILON :: f64 where "EPSILON = f64_of_rat (1 / 10000)"

section \<open>Money\<close>

datatype money = Money (to_microdollars: int64)

definition money_add :: "money \<Rightarrow> money \<Rightarrow> money" where
  "money_add a b = Money (to_microdollars a + to_microdollars b)"

definition money_sub :: "money \<Rightarrow> money \<Rightarrow> money" where
  "money_sub a b = Money (to_microdollars a - to_microdollars b)"

definition money_less :: "money \<Rightarrow> money \<Rightarrow> bool" where
  "money_less a b \<longleftrightarrow> to_microdollars a < to_microdollars b"

definition money_le :: "money \<Rightarrow> money \<Rightarrow> bool" where
  "money_le a b \<longleftrightarrow> to_microdollars a \<le> to_microdollars b"

lemmas money_operator_defs = money_add_def money_sub_def money_less_def money_le_def

text \<open>The operators of \<open>Money\<close> are the ones of the ordered group of HOL's classes, so
  that the library's algebra and order automation applies to them.\<close>

instantiation money :: "{ab_group_add, linorder}"
begin

definition zero_money :: money where "0 = Money 0"
definition plus_money :: "money \<Rightarrow> money \<Rightarrow> money" where "a + b = money_add a b"
definition minus_money :: "money \<Rightarrow> money \<Rightarrow> money" where "a - b = money_sub a b"
definition uminus_money :: "money \<Rightarrow> money" where "- a = Money (- to_microdollars a)"
definition less_money :: "money \<Rightarrow> money \<Rightarrow> bool" where "a < b \<longleftrightarrow> money_less a b"
definition less_eq_money :: "money \<Rightarrow> money \<Rightarrow> bool" where "a \<le> b \<longleftrightarrow> money_le a b"

instance
  by standard
    (auto simp: zero_money_def plus_money_def minus_money_def uminus_money_def less_money_def
      less_eq_money_def money_operator_defs algebra_simps money.expand)

end

definition from_dollars :: "f64 \<Rightarrow> money" where
  "from_dollars dollars =
     Money (f64_to_int64 (f64_round (dollars * int64_to_f64 MONEY_SCALED_BASE)))"

definition to_dollars :: "money \<Rightarrow> f64" where
  "to_dollars m = int64_to_f64 (to_microdollars m) / int64_to_f64 MONEY_SCALED_BASE"

definition to_abi_int64 :: "money \<Rightarrow> int64" where
  "to_abi_int64 m = to_microdollars m"

definition to_abi_double :: "money \<Rightarrow> f64" where
  "to_abi_double m = to_dollars m"

definition money_mul :: "money \<Rightarrow> f64 \<Rightarrow> money" where
  "money_mul m scalar =
     Money (f64_to_int64 (f64_round (int64_to_f64 (to_microdollars m) * scalar)))"

definition money_div :: "money \<Rightarrow> f64 \<Rightarrow> money" where
  "money_div m scalar =
     Money (f64_to_int64 (f64_round (int64_to_f64 (to_microdollars m) / scalar)))"

section \<open>Parsing\<close>

text \<open>\<^verbatim>\<open>std::stoll\<close> in base 10: leading blanks, an optional sign, then digits; the rest is ignored.\<close>

definition is_space :: "char \<Rightarrow> bool" where
  "is_space c \<longleftrightarrow> c = CHR '' '' \<or> (9 \<le> (of_char c :: nat) \<and> (of_char c :: nat) \<le> 13)"

definition is_digit :: "char \<Rightarrow> bool" where
  "is_digit c \<longleftrightarrow> 48 \<le> (of_char c :: nat) \<and> (of_char c :: nat) \<le> 57"

definition digit_val :: "char \<Rightarrow> int" where
  "digit_val c = int (of_char c) - 48"

definition digits_val :: "string \<Rightarrow> int" where
  "digits_val ds = foldl (\<lambda>acc c. acc * 10 + digit_val c) 0 ds"

definition stoll :: "string \<Rightarrow> int64 result" where
  "stoll s =
     (let s1 = dropWhile is_space s;
          neg = (s1 \<noteq> [] \<and> hd s1 = CHR ''-'');
          s2 = (if s1 \<noteq> [] \<and> (hd s1 = CHR ''-'' \<or> hd s1 = CHR ''+'') then tl s1 else s1);
          ds = takeWhile is_digit s2;
          v = (if neg then - digits_val ds else digits_val ds)
      in if ds = [] then Inl Invalid_argument
         else if - (2 ^ 63) \<le> v \<and> v < 2 ^ 63 then Inr (int64_of_int v)
         else Inl Out_of_range)"

text \<open>
  \<^verbatim>\<open>std::string::append(n, c)\<close>: \<open>n\<close> is a \<^verbatim>\<open>size_t\<close>; a string longer than \<^verbatim>\<open>max_size()\<close> is a
  \<^verbatim>\<open>std::length_error\<close>.
\<close>

definition string_max_size :: int where
  "string_max_size = 2 ^ 63 - 1"

definition string_append_fill :: "string \<Rightarrow> 64 word \<Rightarrow> char \<Rightarrow> string result" where
  "string_append_fill s n c =
     (if string_max_size < int (length s) + uint n then Inl Length_error
      else Inr (s @ replicate (unat n) c))"

definition parse_microdollars :: "string \<Rightarrow> money result" where
  "parse_microdollars money_string =
     (let scaled_base = int64_of_int (MONEY_BASE ^ MONEY_SCALE) in
      if CHR ''.'' \<notin> set money_string
      then bindR (stoll money_string) (\<lambda>w. Inr (Money (w * scaled_base)))
      else
        let whole_part = takeWhile (\<lambda>c. c \<noteq> CHR ''.'') money_string;
            fractional_part = tl (dropWhile (\<lambda>c. c \<noteq> CHR ''.'') money_string)
        in bindR
             (if length fractional_part < MONEY_SCALE
              then string_append_fill fractional_part
                     (of_nat (length fractional_part) - of_nat MONEY_SCALE) (CHR ''0'')
              else if length fractional_part > MONEY_SCALE
              then Inr (take MONEY_SCALE fractional_part)
              else Inr fractional_part)
             (\<lambda>fractional_part. bindR (stoll whole_part) (\<lambda>w.
                bindR (stoll fractional_part) (\<lambda>f. Inr (Money (w * scaled_base + f))))))"

section \<open>Facts\<close>

lemma int_of_int64_range: "- (2 ^ 63) \<le> int_of_int64 x" "int_of_int64 x < 2 ^ 63"
  using sint_greater_eq [of "word_of_int64 x"] sint_less [of "word_of_int64 x"]
  by (simp_all add: int_of_int64_def)

lemma int_of_int64_of_int: "- (2 ^ 63) \<le> i \<Longrightarrow> i < 2 ^ 63 \<Longrightarrow> int_of_int64 (int64_of_int i) = i"
  by (simp add: int_of_int64_def int64_of_int_def sint_sbintrunc' signed_take_bit_int_eq_self)

lemma int64_of_int_of_int64 [simp]: "int64_of_int (int_of_int64 x) = x"
  by (simp add: int_of_int64_def int64_of_int_def)

lemma int64_of_int_hom:
  "int64_of_int (a + b) = int64_of_int a + int64_of_int b"
  "int64_of_int (a - b) = int64_of_int a - int64_of_int b"
  "int64_of_int (a * b) = int64_of_int a * int64_of_int b"
  "int64_of_int 0 = 0" "int64_of_int 1 = 1" "int64_of_int (- a) = - int64_of_int a"
  by (simp_all add: int64_of_int_def plus_int64_def minus_int64_def times_int64_def
      zero_int64_def one_int64_def uminus_int64_def)

lemma int_of_int64_0 [simp]: "int_of_int64 0 = 0"
  by (simp add: int_of_int64_def zero_int64_def)

lemma int64_to_f64_0 [simp]: "int64_to_f64 0 = 0"
  by (simp add: int64_to_f64_def f64_of_int_def)

lemma int64_to_f64_exact: "\<bar>int_of_int64 x\<bar> < 2 ^ 53 \<Longrightarrow> int64_to_f64 x = Fin (of_int (int_of_int64 x))"
  by (simp add: int64_to_f64_def f64_of_int_def f64_of_rat_int)

lemma round_half_away_of_int [simp]: "round_half_away (of_int n) = n"
proof -
  have "\<lfloor>of_int n + (1 / 2 :: rat)\<rfloor> = n" for n :: int
    by (simp add: floor_unique)
  from this [of n] this [of "- n"] show ?thesis by (simp add: round_half_away_def)
qed

lemma round_half_away_near: "\<bar>x - of_int n\<bar> < 1 / 2 \<Longrightarrow> round_half_away x = n"
proof -
  assume a: "\<bar>x - of_int n\<bar> < 1 / 2"
  then have h: "x - of_int n < 1 / 2" "of_int n - x < 1 / 2" by linarith+
  then have "\<lfloor>x + 1 / 2\<rfloor> = n" by (intro floor_unique) linarith+
  moreover have "\<lfloor>- x + 1 / 2\<rfloor> = - n" using h by (intro floor_unique) (simp_all add: algebra_simps)
  ultimately show ?thesis by (simp add: round_half_away_def)
qed

lemma trunc_rat_of_int [simp]: "trunc_rat (of_int n) = n"
  by (simp add: trunc_rat_def)

lemma f64_to_int64_of_int [simp]:
  "- (2 ^ 63) \<le> n \<Longrightarrow> n < 2 ^ 63 \<Longrightarrow> f64_to_int64 (Fin (of_int n)) = int64_of_int n"
  by (simp add: Let_def)

lemma Money_eq_0_iff [simp]: "Money x = 0 \<longleftrightarrow> x = 0"
  by (simp add: zero_money_def)

lemma to_microdollars_0 [simp]: "to_microdollars 0 = 0"
  by (simp add: zero_money_def)

text \<open>Scaling by 1.0 and by 0.0.\<close>

lemma money_mul_1: "\<bar>int_of_int64 (to_microdollars m)\<bar> < 2 ^ 53 \<Longrightarrow> money_mul m 1 = m"
  by (cases m)
    (use int_of_int64_range [of "to_microdollars m"] in
      \<open>simp add: money_mul_def int64_to_f64_exact one_f64_def times_f64_def f64_of_rat_int\<close>)

lemma f64_round_0 [simp]: "f64_round 0 = 0"
  using round_half_away_of_int [of 0] by (simp add: zero_f64_def)

lemma f64_to_int64_0 [simp]: "f64_to_int64 0 = 0"
  using f64_to_int64_of_int [of 0] by (simp add: zero_f64_def int64_of_int_hom)

lemma f64_of_int_Fin: "\<bar>i\<bar> \<le> 2 ^ 64 \<Longrightarrow> f64_of_int i = Fin (rnd_rat (of_int i))"
proof -
  assume "\<bar>i\<bar> \<le> 2 ^ 64"
  then have "(of_int \<bar>i\<bar> :: rat) \<le> of_int (2 ^ 64)" by (simp only: of_int_le_iff)
  then have "\<bar>of_int i\<bar> \<le> pow2 1000" using pow2_1000_ge by simp
  then show ?thesis unfolding f64_of_int_def by (rule f64_of_rat_finite)
qed

lemma int64_to_f64_Fin: "int64_to_f64 x = Fin (rnd_rat (of_int (int_of_int64 x)))"
  using int_of_int64_range [of x] unfolding int64_to_f64_def by (intro f64_of_int_Fin) simp

lemma f64_mul_0_right: "a \<noteq> NaN \<Longrightarrow> a \<noteq> PInf \<Longrightarrow> a \<noteq> NInf \<Longrightarrow> a * 0 = 0"
  by (cases a) (simp_all add: times_f64_def zero_f64_def f64_of_rat_0 [unfolded zero_f64_def])

lemma f64_mul_0_left: "a \<noteq> NaN \<Longrightarrow> a \<noteq> PInf \<Longrightarrow> a \<noteq> NInf \<Longrightarrow> 0 * a = 0"
  by (cases a) (simp_all add: times_f64_def zero_f64_def f64_of_rat_0 [unfolded zero_f64_def])

lemma money_mul_0: "money_mul m 0 = 0"
  by (simp add: money_mul_def f64_mul_0_right int64_to_f64_Fin)

lemma zero_money_mul: "s \<noteq> NaN \<Longrightarrow> s \<noteq> PInf \<Longrightarrow> s \<noteq> NInf \<Longrightarrow> money_mul 0 s = 0"
  by (simp add: money_mul_def f64_mul_0_left)

lemma scaled_base_f64: "int64_to_f64 MONEY_SCALED_BASE = Fin 1000000"
  using int64_to_f64_exact [of MONEY_SCALED_BASE]
  by (simp add: MONEY_SCALED_BASE_def int_of_int64_of_int)

lemma from_dollars_to_dollars_aux:
  fixes n :: int
  assumes "\<bar>n\<bar> \<le> 2 ^ 50"
  shows "\<bar>rnd_rat (rnd_rat (of_int n / 1000000) * 1000000) - of_int n\<bar> < 1 / 2"
proof (cases "n = 0")
  case True
  then show ?thesis by simp
next
  case False
  define N :: rat where "N = \<bar>of_int n\<bar>"
  define x where "x = (of_int n / 1000000 :: rat)"
  define y where "y = rnd_rat x * 1000000"
  have N: "1 \<le> N" "N \<le> 2 ^ 50"
    using False assms of_int_le_iff [of "\<bar>n\<bar>" "2 ^ 50", where 'a = rat] by (simp_all add: N_def)
  have small: "pow2 (-1022) \<le> 1 / 2 ^ 30" using pow2_le [of "-1022" "-30"] by (simp add: pow2_def)
  define u where "u = N / 2 ^ 53"
  have u: "0 \<le> u" "u \<le> 1 / 8" "u / 2 ^ 53 \<le> u" "u \<le> N / 2"
    using N by (simp_all add: u_def)
  have ax: "\<bar>x\<bar> = N / 1000000" by (simp add: x_def N_def)
  moreover have "1 / 2 ^ 30 \<le> N / 1000000" using N(1) by simp
  ultimately have "pow2 (-1022) \<le> \<bar>x\<bar>" using small by linarith
  then have e1: "\<bar>rnd_rat x - x\<bar> \<le> u / 1000000"
    using rnd_rat_error [of x] unfolding ax u_def by simp
  have xn: "x * 1000000 = of_int n" by (simp add: x_def)
  have e2: "\<bar>y - of_int n\<bar> \<le> u"
  proof -
    have "y - of_int n = (rnd_rat x - x) * 1000000"
      unfolding y_def xn [symmetric] by (simp only: left_diff_distrib)
    then have "\<bar>y - of_int n\<bar> = \<bar>rnd_rat x - x\<bar> * \<bar>1000000\<bar>" by (simp only: abs_mult)
    then show ?thesis using e1 by simp
  qed
  have ay: "N - u \<le> \<bar>y\<bar>" "\<bar>y\<bar> \<le> N + u"
    using e2 unfolding N_def by linarith+
  have "(1::rat) / 2 ^ 30 \<le> 1 / 2" by simp
  then have "pow2 (-1022) \<le> \<bar>y\<bar>" using ay(1) u(4) N(1) small by linarith
  then have "\<bar>rnd_rat y - y\<bar> \<le> \<bar>y\<bar> / 2 ^ 53" by (rule rnd_rat_error)
  also have "\<dots> \<le> (N + u) / 2 ^ 53" using ay(2) by (rule divide_right_mono) simp
  also have "\<dots> = u + u / 2 ^ 53" by (simp only: u_def add_divide_distrib)
  finally have "\<bar>rnd_rat y - of_int n\<bar> \<le> 3 * u" using e2 u(3) by linarith
  also have "\<dots> < 1 / 2" using u(2) by linarith
  finally show ?thesis unfolding y_def x_def .
qed

lemma from_dollars_to_dollars:
  assumes "\<bar>int_of_int64 (to_microdollars m)\<bar> \<le> 2 ^ 50"
  shows "from_dollars (to_dollars m) = m"
proof -
  define n where "n = int_of_int64 (to_microdollars m)"
  have n: "\<bar>n\<bar> \<le> 2 ^ 50" using assms by (simp add: n_def)
  define r where "r = rnd_rat (of_int n / 1000000)"
  have N: "\<bar>of_int n :: rat\<bar> \<le> 2 ^ 50"
    using n of_int_le_iff [of "\<bar>n\<bar>" "2 ^ 50", where 'a = rat] by simp
  have big: "(2 ^ 80 :: rat) \<le> pow2 1000" using pow2_le [of 80 1000] by (simp add: pow2_def)
  have "\<bar>of_int n / 1000000 :: rat\<bar> \<le> pow2 1000" using N big by simp
  then have d: "to_dollars m = Fin r"
    using int64_to_f64_exact [of "to_microdollars m"] n
    by (simp add: to_dollars_def scaled_base_f64 divide_f64_def n_def [symmetric] f64_of_rat_finite r_def)
  have near: "\<bar>rnd_rat (r * 1000000) - of_int n\<bar> < 1 / 2"
    unfolding r_def using n by (rule from_dollars_to_dollars_aux)
  have r1: "\<bar>r\<bar> \<le> 2 ^ 50"
  proof -
    have "of_int n / 1000000 \<le> pow2 50" "- (of_int n / 1000000) \<le> pow2 50"
      using N by (simp_all add: pow2_def)
    then have "r \<le> pow2 50" "- r \<le> pow2 50"
      unfolding r_def rnd_rat_uminus [symmetric]
      using rnd_rat_mono [of _ "pow2 50"] rnd_rat_pow2 [of 50] by simp_all
    then show ?thesis by (simp add: pow2_def abs_le_iff)
  qed
  then have "\<bar>r * 1000000\<bar> \<le> pow2 1000" using big by (simp add: abs_mult)
  then have "Fin r * Fin 1000000 = Fin (rnd_rat (r * 1000000))"
    by (simp add: times_f64_def f64_of_rat_finite)
  moreover have "- (2 ^ 63) \<le> n" "n < 2 ^ 63" using n by auto
  ultimately have "f64_to_int64 (f64_round (Fin r * Fin 1000000)) = int64_of_int n"
    using near by (simp add: round_half_away_near)
  then show ?thesis by (simp add: from_dollars_def d scaled_base_f64 n_def)
qed

text \<open>Reading digits.\<close>

lemma digits_val_append:
  "digits_val (ds @ es) = digits_val ds * 10 ^ length es + digits_val es"
proof (induction es rule: rev_induct)
  case Nil
  then show ?case by (simp add: digits_val_def)
next
  case (snoc e es)
  have "digits_val (ds @ es @ [e]) = digits_val (ds @ es) * 10 + digit_val e" for ds
    by (simp add: digits_val_def)
  from this [of ds] this [of "[]"] snoc show ?case by (simp add: algebra_simps)
qed

lemma digit_val_bounds: "is_digit c \<Longrightarrow> 0 \<le> digit_val c \<and> digit_val c \<le> 9"
proof -
  assume "is_digit c"
  then show ?thesis unfolding is_digit_def digit_val_def by linarith
qed

lemma digits_val_nonneg: "\<forall>c\<in>set ds. is_digit c \<Longrightarrow> 0 \<le> digits_val ds"
proof (induction ds rule: rev_induct)
  case Nil
  then show ?case by (simp add: digits_val_def)
next
  case (snoc d ds)
  then show ?case using digit_val_bounds [of d] digits_val_append [of ds "[d]"]
    by (simp add: digits_val_def)
qed

lemma stoll_digits:
  assumes "ds \<noteq> []" "\<forall>c\<in>set ds. is_digit c" "digits_val ds < 2 ^ 63"
  shows "stoll ds = Inr (int64_of_int (digits_val ds))"
proof -
  obtain d ds' where ds: "ds = d # ds'" using assms(1) by (cases ds) auto
  have d: "is_digit d" using assms(2) ds by simp
  have "dropWhile is_space ds = ds" using d by (auto simp: ds is_digit_def is_space_def)
  moreover have "hd ds \<noteq> CHR ''-''" "hd ds \<noteq> CHR ''+''" using d by (auto simp: ds is_digit_def)
  moreover have tw: "takeWhile is_digit ds = ds" using assms(2) by (simp add: takeWhile_eq_all_conv)
  moreover have "- (2 ^ 63) \<le> digits_val ds" using digits_val_nonneg [OF assms(2)] by simp
  ultimately show ?thesis using assms by (simp add: stoll_def Let_def tw)
qed

lemma split_at_dot:
  assumes "CHR ''.'' \<notin> set w"
  shows "takeWhile (\<lambda>c. c \<noteq> CHR ''.'') (w @ CHR ''.'' # f) = w"
    "dropWhile (\<lambda>c. c \<noteq> CHR ''.'') (w @ CHR ''.'' # f) = CHR ''.'' # f"
  using assms by (induction w) auto

text \<open>
  C21: \<^verbatim>\<open>Money::parse_microdollars\<close> rejects every amount whose fractional part has fewer than six
  digits, \<^verbatim>\<open>"100000.50"\<close> of the example manifest among them: the padding length is computed as
  \<^verbatim>\<open>length - 6\<close> on unsigned numbers, so the append throws \<^verbatim>\<open>std::length_error\<close>.
\<close>

theorem parse_microdollars_short_fraction:
  assumes "CHR ''.'' \<notin> set w" and "length f < 6"
  shows "parse_microdollars (w @ CHR ''.'' # f) = Inl Length_error"
proof -
  have "string_max_size < int (length f) + uint (of_nat (length f) - 6 :: 64 word)"
  proof -
    have "length f = 0 \<or> length f = 1 \<or> length f = 2 \<or> length f = 3 \<or> length f = 4 \<or> length f = 5"
      using assms(2) by presburger
    then show ?thesis by (auto simp: string_max_size_def unsigned_minus_1_eq_mask mask_eq_exp_minus_1)
  qed
  then show ?thesis
    using assms by (simp add: parse_microdollars_def Let_def split_at_dot MONEY_SCALE_def string_append_fill_def)
qed

theorem parse_microdollars_short_fraction_witness:
  "parse_microdollars ''100000.50'' = Inl Length_error"
  using parse_microdollars_short_fraction [of "''100000''" "''50''"] by simp

text \<open>
  C20: an amount without a sign, digits followed by at least six fractional digits, is parsed to exactly that many
  microdollars, the digits after the sixth cut off, whenever the value fits 64 bits.
\<close>

theorem parse_microdollars_exact:
  assumes "w \<noteq> []" "\<forall>c\<in>set w. is_digit c" "\<forall>c\<in>set f. is_digit c" "6 \<le> length f"
    and "digits_val w * 1000000 + digits_val (take 6 f) < 2 ^ 63"
  shows "parse_microdollars (w @ CHR ''.'' # f) =
    Inr (Money (int64_of_int (digits_val w * 1000000 + digits_val (take 6 f))))"
proof -
  have dot: "CHR ''.'' \<notin> set w" using assms(2) by (auto simp: is_digit_def)
  have dw: "0 \<le> digits_val w" using digits_val_nonneg [OF assms(2)] .
  have tf: "\<forall>c\<in>set (take 6 f). is_digit c" using assms(3) by (auto dest: in_set_takeD)
  have df: "0 \<le> digits_val (take 6 f)" using digits_val_nonneg [OF tf] .
  have "stoll w = Inr (int64_of_int (digits_val w))"
    using assms(1,2,5) dw df by (intro stoll_digits) auto
  moreover have "stoll (take 6 f) = Inr (int64_of_int (digits_val (take 6 f)))"
    using assms(4,5) tf dw df by (intro stoll_digits) auto
  moreover have "6 < length f \<or> take 6 f = f" using assms(4) by (cases "length f = 6") auto
  ultimately show ?thesis
    using assms(4) dot
    by (auto simp: parse_microdollars_def Let_def split_at_dot MONEY_SCALE_def MONEY_BASE_def
        int64_of_int_hom)
qed

theorem parse_microdollars_exact_witness:
  "parse_microdollars ''12.3456789'' = Inr (Money (int64_of_int 12345678))"
  using parse_microdollars_exact [of "''12''" "''3456789''"]
  by (simp add: is_digit_def digits_val_def digit_val_def)

text \<open>
  C22: converting an amount to dollars and back loses nothing: for amounts up to \<open>2 ^ 50\<close>
  microdollars (about 1.1 thousand million dollars) the two roundings never move it.
\<close>

theorem money_dollars_roundtrip:
  assumes "\<bar>int_of_int64 (to_microdollars m)\<bar> \<le> 2 ^ 50"
  shows "from_dollars (to_dollars m) = m"
  using assms by (rule from_dollars_to_dollars)

theorem money_dollars_roundtrip_witness:
  "from_dollars (to_dollars (Money (int64_of_int (-123456789)))) = Money (int64_of_int (-123456789))"
  by (rule money_dollars_roundtrip) (simp add: int_of_int64_of_int)

end
