(* ===== verification/Heaps.thy ===== *)
theory Heaps
  imports Prelude
begin

text \<open>
  \<^verbatim>\<open>src/utils/min_heap.hpp\<close> and \<^verbatim>\<open>src/utils/max_heap.hpp\<close>: binary heaps in a vector.

  The two class templates are the same code over \<^verbatim>\<open>operator<\<close> and \<^verbatim>\<open>operator>\<close> of the element
  type; the operations take that operator as \<open>bef\<close> (\<open>bef a b\<close>: \<open>a\<close> comes out before \<open>b\<close>).
  The interface \<open>pqueue\<close> is what the order books rely on; \<open>heap_order\<close>, a strict weak order,
  is what the heap needs of the operator.
\<close>

section \<open>Operations\<close>

definition swap_at :: "'a list \<Rightarrow> nat \<Rightarrow> nat \<Rightarrow> 'a list" where
  "swap_at xs i j = xs[i := xs ! j, j := xs ! i]"

lemma length_swap_at [simp]: "length (swap_at xs i j) = length xs"
  by (simp add: swap_at_def)

fun bubble_up :: "('a \<Rightarrow> 'a \<Rightarrow> bool) \<Rightarrow> 'a list \<Rightarrow> nat \<Rightarrow> 'a list" where
  "bubble_up bef data idx =
     (if 0 < idx then
        let parent_idx = (idx - 1) div 2 in
        if bef (data ! idx) (data ! parent_idx)
        then bubble_up bef (swap_at data idx parent_idx) parent_idx
        else data
      else data)"

definition first_of_three :: "('a \<Rightarrow> 'a \<Rightarrow> bool) \<Rightarrow> 'a list \<Rightarrow> nat \<Rightarrow> nat" where
  "first_of_three bef data idx =
     (let left_child_idx = 2 * idx + 1;
          right_child_idx = 2 * idx + 2;
          i1 = (if left_child_idx < length data \<and> bef (data ! left_child_idx) (data ! idx)
                then left_child_idx else idx)
      in if right_child_idx < length data \<and> bef (data ! right_child_idx) (data ! i1)
         then right_child_idx else i1)"

lemma first_of_three_cases:
  "first_of_three bef data idx = idx \<or>
   (first_of_three bef data idx < length data \<and>
    (first_of_three bef data idx = 2 * idx + 1 \<or> first_of_three bef data idx = 2 * idx + 2))"
  by (auto simp: first_of_three_def Let_def)

function bubble_down :: "('a \<Rightarrow> 'a \<Rightarrow> bool) \<Rightarrow> 'a list \<Rightarrow> nat \<Rightarrow> 'a list" where
  "bubble_down bef data idx =
     (let smallest_idx = first_of_three bef data idx in
      if smallest_idx = idx then data
      else bubble_down bef (swap_at data idx smallest_idx) smallest_idx)"
  by pat_completeness auto
termination
proof (relation "measure (\<lambda>(bef, data, idx). length data - idx)", goal_cases)
  case 1
  show ?case by simp
next
  case (2 bef data idx x)
  then show ?case using first_of_three_cases [of bef data idx] by auto
qed

declare bubble_up.simps [simp del] bubble_down.simps [simp del]

definition heap_push :: "('a \<Rightarrow> 'a \<Rightarrow> bool) \<Rightarrow> 'a \<Rightarrow> 'a list \<Rightarrow> 'a list" where
  "heap_push bef value data = bubble_up bef (data @ [value]) (length data)"

definition heap_pop :: "('a \<Rightarrow> 'a \<Rightarrow> bool) \<Rightarrow> 'a list \<Rightarrow> 'a list" where
  "heap_pop bef data =
     (if data = [] then data
      else let data' = butlast (data[0 := last data]) in
           if data' \<noteq> [] then bubble_down bef data' 0 else data')"

definition heap_top :: "'a list \<Rightarrow> 'a option" where
  "heap_top data = (if data \<noteq> [] then Some (hd data) else None)"

definition heap_empty :: "'a list \<Rightarrow> bool" where
  "heap_empty data \<longleftrightarrow> data = []"

definition heap_size :: "'a list \<Rightarrow> nat" where
  "heap_size data = length data"

text \<open>The class \<^verbatim>\<open>MaxHeap\<close>: the same loops over \<^verbatim>\<open>operator>\<close>.\<close>

definition max_bubble_up :: "('a \<Rightarrow> 'a \<Rightarrow> bool) \<Rightarrow> 'a list \<Rightarrow> nat \<Rightarrow> 'a list" where
  "max_bubble_up gt data idx = bubble_up gt data idx"

definition max_bubble_down :: "('a \<Rightarrow> 'a \<Rightarrow> bool) \<Rightarrow> 'a list \<Rightarrow> nat \<Rightarrow> 'a list" where
  "max_bubble_down gt data idx = bubble_down gt data idx"

definition max_push :: "('a \<Rightarrow> 'a \<Rightarrow> bool) \<Rightarrow> 'a \<Rightarrow> 'a list \<Rightarrow> 'a list" where
  "max_push gt value data = max_bubble_up gt (data @ [value]) (length data)"

definition max_pop :: "('a \<Rightarrow> 'a \<Rightarrow> bool) \<Rightarrow> 'a list \<Rightarrow> 'a list" where
  "max_pop gt data =
     (if data = [] then data
      else let data' = butlast (data[0 := last data]) in
           if data' \<noteq> [] then max_bubble_down gt data' 0 else data')"

definition max_top :: "'a list \<Rightarrow> 'a option" where
  "max_top data = (if data \<noteq> [] then Some (hd data) else None)"

lemma max_heap_eqs [simp]:
  "max_push = heap_push" "max_pop = heap_pop" "max_top = heap_top"
  by (simp_all add: fun_eq_iff max_push_def heap_push_def max_pop_def heap_pop_def max_top_def
      heap_top_def max_bubble_up_def max_bubble_down_def Let_def)

section \<open>The interface of a priority queue\<close>

locale pqueue =
  fixes bef :: "'a \<Rightarrow> 'a \<Rightarrow> bool"
    and push :: "'a \<Rightarrow> 'q \<Rightarrow> 'q"
    and pop :: "'q \<Rightarrow> 'q"
    and top :: "'q \<Rightarrow> 'a option"
    and elems :: "'q \<Rightarrow> 'a multiset"
    and inv :: "'q \<Rightarrow> bool"
  assumes inv_push: "inv q \<Longrightarrow> inv (push x q)"
    and inv_pop: "inv q \<Longrightarrow> inv (pop q)"
    and elems_push: "elems (push x q) = add_mset x (elems q)"
    and elems_pop: "top q = Some x \<Longrightarrow> elems (pop q) = elems q - {#x#}"
    and top_in: "top q = Some x \<Longrightarrow> x \<in># elems q"
    and top_None: "top q = None \<longleftrightarrow> elems q = {#}"
    and top_first: "inv q \<Longrightarrow> top q = Some x \<Longrightarrow> y \<in># elems q \<Longrightarrow> \<not> bef y x"
begin

lemma elems_pop_add: "top q = Some x \<Longrightarrow> elems q = add_mset x (elems (pop q))"
  by (simp add: elems_pop top_in)

lemma size_pop: "top q = Some x \<Longrightarrow> size (elems (pop q)) < size (elems q)"
  using elems_pop_add [of q x] by simp

text \<open>Putting a list of elements back, as the books do after draining a heap.\<close>

lemma elems_push_all: "elems (fold push xs q) = mset xs + elems q"
  by (induction xs arbitrary: q) (simp_all add: elems_push)

lemma inv_push_all: "inv q \<Longrightarrow> inv (fold push xs q)"
  by (induction xs arbitrary: q) (simp_all add: inv_push)

end

section \<open>The heap implements it\<close>

definition is_heap :: "('a \<Rightarrow> 'a \<Rightarrow> bool) \<Rightarrow> 'a list \<Rightarrow> bool" where
  "is_heap bef data \<longleftrightarrow>
     (\<forall>i<length data. 0 < i \<longrightarrow> \<not> bef (data ! i) (data ! ((i - 1) div 2)))"

definition heap_except_up :: "('a \<Rightarrow> 'a \<Rightarrow> bool) \<Rightarrow> 'a list \<Rightarrow> nat \<Rightarrow> bool" where
  "heap_except_up bef data i \<longleftrightarrow>
     (\<forall>j<length data. 0 < j \<longrightarrow> j \<noteq> i \<longrightarrow> \<not> bef (data ! j) (data ! ((j - 1) div 2))) \<and>
     (\<forall>j<length data. 0 < j \<longrightarrow> 0 < i \<longrightarrow> (j - 1) div 2 = i \<longrightarrow>
        \<not> bef (data ! j) (data ! ((i - 1) div 2)))"

definition heap_except_down :: "('a \<Rightarrow> 'a \<Rightarrow> bool) \<Rightarrow> 'a list \<Rightarrow> nat \<Rightarrow> bool" where
  "heap_except_down bef data i \<longleftrightarrow>
     (\<forall>j<length data. 0 < j \<longrightarrow> (j - 1) div 2 \<noteq> i \<longrightarrow> \<not> bef (data ! j) (data ! ((j - 1) div 2))) \<and>
     (\<forall>j<length data. 0 < j \<longrightarrow> 0 < i \<longrightarrow> (j - 1) div 2 = i \<longrightarrow>
        \<not> bef (data ! j) (data ! ((i - 1) div 2)))"

lemma mset_swap_at: "i < length xs \<Longrightarrow> j < length xs \<Longrightarrow> mset (swap_at xs i j) = mset xs"
  by (simp add: swap_at_def mset_swap)

lemma nth_swap_at:
  "i < length xs \<Longrightarrow> j < length xs \<Longrightarrow> k < length xs \<Longrightarrow>
   swap_at xs i j ! k = (if k = j then xs ! i else if k = i then xs ! j else xs ! k)"
  by (simp add: swap_at_def nth_list_update)

lemma length_bubble_up [simp]: "length (bubble_up bef data idx) = length data"
proof (induction bef data idx rule: bubble_up.induct)
  case (1 bef data idx)
  then show ?case by (subst bubble_up.simps) (simp add: Let_def)
qed

lemma mset_bubble_up: "idx < length data \<Longrightarrow> mset (bubble_up bef data idx) = mset data"
proof (induction bef data idx rule: bubble_up.induct)
  case (1 bef data idx)
  then show ?case by (subst bubble_up.simps) (simp add: Let_def mset_swap_at)
qed

lemma mset_bubble_down: "idx < length data \<Longrightarrow> mset (bubble_down bef data idx) = mset data"
proof (induction bef data idx rule: bubble_down.induct)
  case (1 bef data idx)
  then show ?case
    using first_of_three_cases [of bef data idx]
    by (subst bubble_down.simps) (auto simp: Let_def mset_swap_at)
qed

lemma mset_heap_push [simp]: "mset (heap_push bef x data) = add_mset x (mset data)"
  by (simp add: heap_push_def mset_bubble_up)

lemma heap_size_push: "heap_size (heap_push bef x data) = Suc (heap_size data)"
  unfolding heap_size_def by (metis mset_heap_push size_add_mset size_mset)

lemma heap_empty_top: "heap_empty data \<longleftrightarrow> heap_top data = None" "heap_empty data \<longleftrightarrow> heap_size data = 0"
  by (simp_all add: heap_empty_def heap_top_def heap_size_def)

lemma heap_push_not_Nil [simp]: "heap_push bef x data \<noteq> []"
  by (metis mset_heap_push add_mset_eq_singleton_iff add_mset_not_empty mset.simps(1))

lemma replace_head:
  "data \<noteq> [] \<Longrightarrow> butlast (data[0 := last data]) =
     (if tl data = [] then [] else last data # butlast (tl data))"
  by (cases data) auto

lemma mset_replace_head:
  "data \<noteq> [] \<Longrightarrow> mset (butlast (data[0 := last data])) = mset data - {#hd data#}"
proof (cases data)
  case (Cons a zs)
  have "zs \<noteq> [] \<Longrightarrow> mset zs = add_mset (last zs) (mset (butlast zs))"
    by (metis append_butlast_last_id mset.simps(2) mset_append union_mset_add_mset_right
        add.right_neutral mset.simps(1))
  then show ?thesis by (simp add: replace_head Cons)
qed simp

lemma mset_heap_pop:
  assumes "data \<noteq> []"
  shows "mset (heap_pop bef data) = mset data - {#hd data#}"
proof (cases "butlast (data[0 := last data]) = []")
  case True
  then show ?thesis
    using assms mset_replace_head [OF assms] by (simp add: heap_pop_def)
next
  case False
  then have "mset (bubble_down bef (butlast (data[0 := last data])) 0) = mset (butlast (data[0 := last data]))"
    by (intro mset_bubble_down) (simp only: length_greater_0_conv not_False_eq_True)
  then show ?thesis
    using assms False mset_replace_head [OF assms] by (simp add: heap_pop_def Let_def)
qed

lemma size_heap_pop: "data \<noteq> [] \<Longrightarrow> length (heap_pop bef data) < length data"
proof -
  assume ne: "data \<noteq> []"
  then have "size (mset (heap_pop bef data)) < size (mset data)"
    unfolding mset_heap_pop [OF ne] by (intro size_Diff1_less) simp
  then show ?thesis by simp
qed

text \<open>Taking the top of a heap until it is empty.\<close>

function drain :: "('a \<Rightarrow> 'a \<Rightarrow> bool) \<Rightarrow> 'a list \<Rightarrow> 'a list" where
  "drain bef heap = (case heap_top heap of None \<Rightarrow> [] | Some x \<Rightarrow> x # drain bef (heap_pop bef heap))"
  by pat_completeness auto
termination
  by (relation "measure (\<lambda>(bef, heap). length heap)") (auto simp: heap_top_def intro: size_heap_pop split: if_splits)

declare drain.simps [simp del]

locale heap_order =
  fixes bef :: "'a \<Rightarrow> 'a \<Rightarrow> bool"
  assumes asym: "bef a b \<Longrightarrow> \<not> bef b a"
    and neg_trans: "\<not> bef a b \<Longrightarrow> \<not> bef b c \<Longrightarrow> \<not> bef a c"
begin

lemma except_up_step:
  assumes h: "heap_except_up bef xs i" and i: "i < length xs" "0 < i"
    and b: "bef (xs ! i) (xs ! ((i - 1) div 2))"
  shows "heap_except_up bef (swap_at xs i ((i - 1) div 2)) ((i - 1) div 2)"
proof -
  define p where "p = (i - 1) div 2"
  have p: "p < i" "p < length xs" using i by (auto simp: p_def)
  have h1: "\<And>j. j < length xs \<Longrightarrow> 0 < j \<Longrightarrow> j \<noteq> i \<Longrightarrow> \<not> bef (xs ! j) (xs ! ((j - 1) div 2))"
    and h2: "\<And>j. j < length xs \<Longrightarrow> 0 < j \<Longrightarrow> (j - 1) div 2 = i \<Longrightarrow> \<not> bef (xs ! j) (xs ! p)"
    using h i by (auto simp: heap_except_up_def p_def)
  have yx: "\<not> bef (xs ! p) (xs ! i)" using b asym by (simp add: p_def)
  have s: "\<And>k. k < length xs \<Longrightarrow>
      swap_at xs i p ! k = (if k = p then xs ! i else if k = i then xs ! p else xs ! k)"
    using i p by (simp add: nth_swap_at)
  have "\<not> bef (swap_at xs i p ! j) (swap_at xs i p ! ((j - 1) div 2))"
    if j: "j < length xs" "0 < j" "j \<noteq> p" for j
  proof -
    have q: "(j - 1) div 2 < length xs" using j by auto
    consider "j = i" | "j \<noteq> i" "(j - 1) div 2 = i" | "j \<noteq> i" "(j - 1) div 2 = p"
      | "j \<noteq> i" "(j - 1) div 2 \<noteq> i" "(j - 1) div 2 \<noteq> p" by blast
    then show ?thesis
    proof cases
      case 1
      then have "(j - 1) div 2 = p" by (simp add: p_def)
      then show ?thesis using 1 yx s p i by simp
    next
      case 2
      then show ?thesis using h2 [of j] j s i p by simp
    next
      case 3
      then show ?thesis using neg_trans [OF h1 [of j], of "xs ! i"] j yx s p by simp
    next
      case 4
      then show ?thesis using h1 [of j] j s q by simp
    qed
  qed
  moreover have "\<not> bef (swap_at xs i p ! j) (swap_at xs i p ! ((p - 1) div 2))"
    if j: "j < length xs" "0 < j" "0 < p" "(j - 1) div 2 = p" for j
  proof -
    have pp: "(p - 1) div 2 < p" using j by auto
    have hp: "\<not> bef (xs ! p) (xs ! ((p - 1) div 2))" using h1 [of p] p j by simp
    have jp: "j \<noteq> p" using j by auto
    show ?thesis
    proof (cases "j = i")
      case True
      then show ?thesis using hp s pp p i by simp
    next
      case False
      then have "\<not> bef (xs ! j) (xs ! p)" using h1 [of j] j by simp
      then show ?thesis using neg_trans [OF _ hp, of "xs ! j"] s False jp pp p j by simp
    qed
  qed
  ultimately show ?thesis unfolding heap_except_up_def p_def [symmetric] by simp
qed

lemma bubble_up_heap:
  "idx < length xs \<Longrightarrow> heap_except_up bef xs idx \<Longrightarrow> is_heap bef (bubble_up bef xs idx)"
proof (induction idx arbitrary: xs rule: less_induct)
  case (less idx)
  show ?case
  proof (cases "0 < idx \<and> bef (xs ! idx) (xs ! ((idx - 1) div 2))")
    case True
    then have "heap_except_up bef (swap_at xs idx ((idx - 1) div 2)) ((idx - 1) div 2)"
      using except_up_step less.prems by blast
    moreover have "(idx - 1) div 2 < idx" using True by auto
    ultimately have "is_heap bef (bubble_up bef (swap_at xs idx ((idx - 1) div 2)) ((idx - 1) div 2))"
      using less.prems by (intro less.IH) simp_all
    then show ?thesis using True by (subst bubble_up.simps) (simp add: Let_def)
  next
    case False
    then have "bubble_up bef xs idx = xs" by (subst bubble_up.simps) (auto simp: Let_def)
    then show ?thesis
      using less.prems False unfolding heap_except_up_def is_heap_def by metis
  qed
qed

lemma irrefl: "\<not> bef a a"
  using asym by blast

lemma first_child:
  assumes m: "m = first_of_three bef xs idx"
  shows "\<not> bef (xs ! idx) (xs ! m)"
    and "c < length xs \<Longrightarrow> 0 < c \<Longrightarrow> (c - 1) div 2 = idx \<Longrightarrow> \<not> bef (xs ! c) (xs ! m)"
proof -
  define i1 where "i1 = (if 2 * idx + 1 < length xs \<and> bef (xs ! (2 * idx + 1)) (xs ! idx)
    then 2 * idx + 1 else idx)"
  have m': "m = (if 2 * idx + 2 < length xs \<and> bef (xs ! (2 * idx + 2)) (xs ! i1)
    then 2 * idx + 2 else i1)"
    by (simp add: m first_of_three_def i1_def Let_def)
  have a: "\<not> bef (xs ! idx) (xs ! i1)" using asym irrefl by (auto simp: i1_def)
  have l: "2 * idx + 1 < length xs \<Longrightarrow> \<not> bef (xs ! (2 * idx + 1)) (xs ! i1)"
    using irrefl by (auto simp: i1_def)
  have i1m: "\<not> bef (xs ! i1) (xs ! m)" using asym irrefl by (auto simp: m')
  have r: "2 * idx + 2 < length xs \<Longrightarrow> \<not> bef (xs ! (2 * idx + 2)) (xs ! m)"
    using irrefl by (auto simp: m')
  show "\<not> bef (xs ! idx) (xs ! m)" using neg_trans [OF a i1m] .
  assume c: "c < length xs" "0 < c" "(c - 1) div 2 = idx"
  then have "c = 2 * idx + 1 \<or> c = 2 * idx + 2" by presburger
  then show "\<not> bef (xs ! c) (xs ! m)" using c(1) r neg_trans [OF l i1m] by auto
qed

lemma except_down_step:
  assumes h: "heap_except_down bef xs i" and i: "i < length xs"
    and m: "m = first_of_three bef xs i" "m \<noteq> i"
  shows "heap_except_down bef (swap_at xs i m) m"
proof -
  have mi: "m < length xs" "0 < m" "(m - 1) div 2 = i"
    using first_of_three_cases [of bef xs i] m by auto
  have h1: "\<And>j. j < length xs \<Longrightarrow> 0 < j \<Longrightarrow> (j - 1) div 2 \<noteq> i \<Longrightarrow> \<not> bef (xs ! j) (xs ! ((j - 1) div 2))"
    and h2: "\<And>j. j < length xs \<Longrightarrow> 0 < j \<Longrightarrow> 0 < i \<Longrightarrow> (j - 1) div 2 = i \<Longrightarrow>
      \<not> bef (xs ! j) (xs ! ((i - 1) div 2))"
    using h by (auto simp: heap_except_down_def)
  have im: "\<not> bef (xs ! i) (xs ! m)" using first_child(1) [OF m(1)] .
  have s: "\<And>k. k < length xs \<Longrightarrow>
      swap_at xs i m ! k = (if k = m then xs ! i else if k = i then xs ! m else xs ! k)"
    using i mi by (simp add: nth_swap_at)
  have "\<not> bef (swap_at xs i m ! j) (swap_at xs i m ! ((j - 1) div 2))"
    if j: "j < length xs" "0 < j" "(j - 1) div 2 \<noteq> m" for j
  proof -
    have q: "(j - 1) div 2 < length xs" using j by auto
    consider "j = m" | "j \<noteq> m" "(j - 1) div 2 = i" | "j = i" | "j \<noteq> m" "j \<noteq> i" "(j - 1) div 2 \<noteq> i" by blast
    then show ?thesis
    proof cases
      case 1
      then show ?thesis using im s mi i m(2) by simp
    next
      case 2
      then have "j \<noteq> i" using j by auto
      then show ?thesis using first_child(2) [OF m(1), of j] 2 j s i m(2) by simp
    next
      case 3
      then have ne: "(j - 1) div 2 \<noteq> i" using j by auto
      have "\<not> bef (xs ! m) (xs ! ((i - 1) div 2))" using h2 [of m] mi 3 j by simp
      then show ?thesis using s 3 j q m(2) ne by simp
    next
      case 4
      then show ?thesis using h1 [of j] j s q by simp
    qed
  qed
  moreover have "\<not> bef (swap_at xs i m ! j) (swap_at xs i m ! ((m - 1) div 2))"
    if j: "j < length xs" "0 < j" "(j - 1) div 2 = m" for j
  proof -
    have ji: "j \<noteq> i" "j \<noteq> m" "m \<noteq> i" using j mi m by auto
    have "\<not> bef (xs ! j) (xs ! m)" using h1 [of j] j ji by simp
    then show ?thesis using s j ji mi i by simp
  qed
  ultimately show ?thesis unfolding heap_except_down_def by simp
qed

lemma bubble_down_heap:
  "idx < length xs \<Longrightarrow> heap_except_down bef xs idx \<Longrightarrow> is_heap bef (bubble_down bef xs idx)"
proof (induction "length xs - idx" arbitrary: xs idx rule: less_induct)
  case less
  define m where "m = first_of_three bef xs idx"
  show ?case
  proof (cases "m = idx")
    case True
    have "\<not> bef (xs ! j) (xs ! ((j - 1) div 2))" if "j < length xs" "0 < j" for j
      using that less.prems first_child(2) [OF m_def, of j] True
      unfolding heap_except_down_def by metis
    moreover have "bubble_down bef xs idx = xs"
      using True by (subst bubble_down.simps) (simp add: m_def Let_def)
    ultimately show ?thesis by (simp add: is_heap_def)
  next
    case False
    have m: "m < length xs" "idx < m" using first_of_three_cases [of bef xs idx] False by (auto simp: m_def)
    have "heap_except_down bef (swap_at xs idx m) m"
      using except_down_step less.prems m_def False by blast
    then have "is_heap bef (bubble_down bef (swap_at xs idx m) m)"
      using m by (intro less.hyps) auto
    then show ?thesis using False by (subst bubble_down.simps) (simp add: m_def Let_def)
  qed
qed

lemma heap_push_heap: "is_heap bef xs \<Longrightarrow> is_heap bef (heap_push bef x xs)"
proof -
  assume h: "is_heap bef xs"
  have "heap_except_up bef (xs @ [x]) (length xs)"
    using h unfolding heap_except_up_def is_heap_def by (auto simp: nth_append)
  then show ?thesis unfolding heap_push_def by (intro bubble_up_heap) simp_all
qed

lemma heap_pop_heap: "is_heap bef xs \<Longrightarrow> is_heap bef (heap_pop bef xs)"
proof -
  assume h: "is_heap bef xs"
  define ys where "ys = butlast (xs[0 := last xs])"
  have "heap_except_down bef ys 0"
    unfolding heap_except_down_def
  proof (intro conjI allI impI)
    fix j assume j: "j < length ys" "0 < j" "(j - 1) div 2 \<noteq> 0"
    have "ys ! k = xs ! k" if "0 < k" "k < length ys" for k
      using that by (auto simp: ys_def nth_butlast nth_list_update)
    moreover have "(j - 1) div 2 < length ys" using j by auto
    moreover have "\<not> bef (xs ! j) (xs ! ((j - 1) div 2))"
      using h j by (auto simp: is_heap_def ys_def)
    ultimately show "\<not> bef (ys ! j) (ys ! ((j - 1) div 2))" using j by simp
  qed simp
  then have "ys \<noteq> [] \<Longrightarrow> is_heap bef (bubble_down bef ys 0)"
    by (intro bubble_down_heap) simp_all
  then show ?thesis by (auto simp: heap_pop_def Let_def ys_def is_heap_def)
qed

lemma heap_root_first:
  assumes h: "is_heap bef xs" and i: "i < length xs"
  shows "\<not> bef (xs ! i) (xs ! 0)"
  using i
proof (induction i rule: less_induct)
  case (less i)
  show ?case
  proof (cases "i = 0")
    case True
    then show ?thesis using irrefl by simp
  next
    case False
    then have "\<not> bef (xs ! ((i - 1) div 2)) (xs ! 0)" using less by (intro less.IH) auto
    moreover have "\<not> bef (xs ! i) (xs ! ((i - 1) div 2))" using h less.prems False by (simp add: is_heap_def)
    ultimately show ?thesis using neg_trans by blast
  qed
qed

lemma heap_top_first:
  "is_heap bef xs \<Longrightarrow> heap_top xs = Some x \<Longrightarrow> y \<in> set xs \<Longrightarrow> \<not> bef y x"
  using heap_root_first by (auto simp: heap_top_def hd_conv_nth in_set_conv_nth split: if_splits)

sublocale pq: pqueue bef "heap_push bef" "heap_pop bef" heap_top mset "is_heap bef"
proof unfold_locales
  show "is_heap bef q \<Longrightarrow> is_heap bef (heap_push bef x q)" for q x by (rule heap_push_heap)
  show "is_heap bef q \<Longrightarrow> is_heap bef (heap_pop bef q)" for q by (rule heap_pop_heap)
  show "is_heap bef q \<Longrightarrow> heap_top q = Some x \<Longrightarrow> y \<in># mset q \<Longrightarrow> \<not> bef y x" for q x y
    using heap_top_first by simp
qed (auto simp: heap_top_def mset_heap_pop split: if_splits)

lemma drain_sorted:
  "is_heap bef heap \<Longrightarrow> mset (drain bef heap) = mset heap \<and> sorted_wrt (\<lambda>x y. \<not> bef y x) (drain bef heap)"
proof (induction "length heap" arbitrary: heap rule: less_induct)
  case less
  show ?case
  proof (cases "heap_top heap")
    case None
    then have "heap = []" by (simp add: pq.top_None)
    then show ?thesis using None by (subst (1 2) drain.simps) simp
  next
    case (Some x)
    let ?rest = "heap_pop bef heap"
    have IH: "mset (drain bef ?rest) = mset ?rest \<and> sorted_wrt (\<lambda>x y. \<not> bef y x) (drain bef ?rest)"
      using less.hyps [of ?rest] pq.size_pop [OF Some] pq.inv_pop [OF less.prems] by simp
    have "set (drain bef ?rest) \<subseteq> set heap"
      using IH pq.elems_pop_add [OF Some] by (metis set_mset_mset set_mset_add_mset_insert subset_insertI)
    then have "\<forall>y\<in>set (drain bef ?rest). \<not> bef y x"
      using pq.top_first [OF less.prems Some] by auto
    then show ?thesis
      using Some IH pq.elems_pop_add [OF Some] by (subst (1 2) drain.simps) simp
  qed
qed

end

end
