(* ===== verification/Models.thy ===== *)
theory Models
  imports Money_Utils Heaps
begin

text \<open>
  The data of the back test: \<^verbatim>\<open>simulators/back_test/models.hpp\<close>, the host parameters of
  \<^verbatim>\<open>plugins/manifest/manifest.hpp\<close>, the bar of \<^verbatim>\<open>http/api/stock_api.hpp\<close> and the C structures of
  \<^verbatim>\<open>plugins/abi/abi.h\<close>.

  A C++ struct is a record whose fields carry a prefix for the struct and otherwise the C++
  name without its trailing underscore; a \<^verbatim>\<open>std::variant\<close> is a datatype; a C string is a
  \<open>string\<close>; a pointer with a count is a list.  Constructors that read the clock or
  draw a random uuid take the value as an argument.
\<close>

section \<open>Host parameters and bars\<close>

record host_symbol =
  sym_primary :: bool
  sym_timespan :: int
  sym_symbol :: string
  sym_timespan_unit :: string

record host_params =
  hp_market_hours_only :: "bool option"
  hp_allow_fractional_shares :: "bool option"
  hp_monte_carlo_runs :: int
  hp_monte_carlo_seed :: int
  hp_commission :: "f64 option"
  hp_slippage :: "f64 option"
  hp_initial_capital :: int64
  hp_commission_type :: "string option"
  hp_slippage_model :: "string option"
  hp_default_currency :: "string option"
  hp_timezone :: "string option"
  hp_optimization_mode :: "string option"
  hp_backtest_start_datetime :: string
  hp_backtest_end_datetime :: string
  hp_symbols :: "host_symbol list"
  hp_position_sizing_method :: "string option"
  hp_position_size_value :: "f64 option"
  hp_max_position_size :: "f64 option"
  hp_use_stop_loss :: "bool option"
  hp_stop_loss_pct :: "f64 option"
  hp_use_take_profit :: "bool option"
  hp_take_profit_pct :: "f64 option"
  hp_fill_max_pct_of_volume :: "f64 option"
  hp_risk_free_rate :: "f64 option"
  hp_allow_short_selling :: "bool option"
  hp_initial_margin_pct :: "f64 option"
  hp_max_leverage :: "f64 option"

record bar =
  bar_symbol :: string
  bar_is_otc :: bool
  bar_tx_count :: int
  bar_volume :: f64
  bar_volume_weighted_price :: f64
  bar_open :: f64
  bar_close :: f64
  bar_high :: f64
  bar_low :: f64
  bar_unix_ts_ns :: int64

text \<open>\<^verbatim>\<open>std::optional::value_or\<close>.\<close>

definition value_or :: "'a option \<Rightarrow> 'a \<Rightarrow> 'a" where
  "value_or opt d = (case opt of None \<Rightarrow> d | Some x \<Rightarrow> x)"

lemma value_or_simps [simp]: "value_or None d = d" "value_or (Some x) d = x"
  by (simp_all add: value_or_def)

section \<open>The plugin ABI\<close>

record csignal =
  csig_symbol :: string
  csig_action :: string

record corder =
  cord_symbol :: string
  cord_action :: string
  cord_quantity :: f64
  cord_leverage :: f64
  cord_limit_price :: int64
  cord_stop_loss_price :: int64
  cord_take_profit_price :: int64
  cord_order_type :: string

text \<open>A tagged union; \<open>CInstr_other\<close> is a tag that names neither member.\<close>

datatype cinstruction = CInstr_signal csignal | CInstr_order corder | CInstr_other int

record plugin_result =
  pr_code :: int
  pr_message :: "string option"
  pr_instructions :: "cinstruction list"

section \<open>Signals and orders\<close>

record signal =
  signal_created_at_ns :: int64
  signal_symbol :: string
  signal_action :: string

definition signal_is_buy :: "signal \<Rightarrow> bool" where
  "signal_is_buy s \<longleftrightarrow> signal_action s = BUY"

definition signal_is_sell :: "signal \<Rightarrow> bool" where
  "signal_is_sell s \<longleftrightarrow> signal_action s = SELL"

definition signal_of_csignal :: "int64 \<Rightarrow> csignal \<Rightarrow> signal" where
  "signal_of_csignal now c =
     \<lparr>signal_created_at_ns = now, signal_symbol = csig_symbol c, signal_action = csig_action c\<rparr>"

definition mk_signal :: "int64 \<Rightarrow> string \<Rightarrow> string \<Rightarrow> signal" where
  "mk_signal now symbol action = \<lparr>signal_created_at_ns = now, signal_symbol = symbol, signal_action = action\<rparr>"

record order =
  order_is_exit_order :: bool
  order_quantity :: f64
  order_created_at_ns :: int64
  order_symbol :: string
  order_action :: string
  order_order_type :: string
  order_source_fill_uuid :: "string option"
  order_limit_price :: "money option"
  order_stop_loss_price :: "money option"
  order_take_profit_price :: "money option"
  order_leverage :: "f64 option"

definition order_is_buy :: "order \<Rightarrow> bool" where
  "order_is_buy ord \<longleftrightarrow> order_action ord = BUY"

definition order_is_sell :: "order \<Rightarrow> bool" where
  "order_is_sell ord \<longleftrightarrow> order_action ord = SELL"

definition is_limit_order :: "order \<Rightarrow> bool" where
  "is_limit_order ord \<longleftrightarrow> order_order_type ord = LIMIT \<and> order_limit_price ord \<noteq> None"

definition is_market_order :: "order \<Rightarrow> bool" where
  "is_market_order ord \<longleftrightarrow> order_order_type ord = MARKET \<or> order_limit_price ord = None"

definition NULL_MARKET_TRIGGER_PRICE :: int64 where
  "NULL_MARKET_TRIGGER_PRICE = INT64_MIN"

definition trigger_price :: "int64 \<Rightarrow> money option" where
  "trigger_price p = (if p = NULL_MARKET_TRIGGER_PRICE then None else Some (Money p))"

definition order_of_corder :: "int64 \<Rightarrow> corder \<Rightarrow> order" where
  "order_of_corder now c =
     \<lparr>order_is_exit_order = False,
      order_quantity = cord_quantity c,
      order_created_at_ns = now,
      order_symbol = cord_symbol c,
      order_action = cord_action c,
      order_order_type = cord_order_type c,
      order_source_fill_uuid = None,
      order_limit_price = trigger_price (cord_limit_price c),
      order_stop_loss_price = trigger_price (cord_stop_loss_price c),
      order_take_profit_price = trigger_price (cord_take_profit_price c),
      order_leverage = (if cord_leverage c \<le> 0 then None else Some (cord_leverage c))\<rparr>"

definition mk_order ::
  "f64 \<Rightarrow> int64 \<Rightarrow> string \<Rightarrow> string \<Rightarrow> string \<Rightarrow> money option \<Rightarrow> money option \<Rightarrow> money option \<Rightarrow> order" where
  "mk_order quantity created_at_ns symbol action order_type limit_price stop_loss_price take_profit_price =
     \<lparr>order_is_exit_order = False,
      order_quantity = quantity,
      order_created_at_ns = created_at_ns,
      order_symbol = symbol,
      order_action = action,
      order_order_type = order_type,
      order_source_fill_uuid = None,
      order_limit_price = limit_price,
      order_stop_loss_price = stop_loss_price,
      order_take_profit_price = take_profit_price,
      order_leverage = None\<rparr>"

datatype instruction = Instr_signal signal | Instr_order order

section \<open>Fills and positions\<close>

record fill =
  fill_quantity :: f64
  fill_leverage :: f64
  fill_created_at_ns :: int64
  fill_price :: money
  fill_margin_used :: money
  fill_symbol :: string
  fill_uuid :: string
  fill_action :: string

definition fill_is_buy :: "fill \<Rightarrow> bool" where
  "fill_is_buy f \<longleftrightarrow> fill_action f = BUY"

definition fill_is_sell :: "fill \<Rightarrow> bool" where
  "fill_is_sell f \<longleftrightarrow> fill_action f = SELL"

definition mk_fill ::
  "string \<Rightarrow> string \<Rightarrow> string \<Rightarrow> f64 \<Rightarrow> money \<Rightarrow> int64 \<Rightarrow> f64 \<Rightarrow> money \<Rightarrow> fill" where
  "mk_fill uuid symbol action quantity price created_at_ns leverage margin_used =
     \<lparr>fill_quantity = quantity,
      fill_leverage = leverage,
      fill_created_at_ns = created_at_ns,
      fill_price = price,
      fill_margin_used = margin_used,
      fill_symbol = symbol,
      fill_uuid = uuid,
      fill_action = action\<rparr>"

record position =
  pos_symbol :: string
  pos_quantity :: f64
  pos_average_price :: money

definition mk_position :: "string \<Rightarrow> f64 \<Rightarrow> money \<Rightarrow> position" where
  "mk_position symbol quantity average_price =
     \<lparr>pos_symbol = symbol, pos_quantity = quantity, pos_average_price = average_price\<rparr>"

section \<open>Exit orders\<close>

record stop_loss_exit_order =
  sl_is_triggered :: bool
  sl_is_short_position :: bool
  sl_trigger_quantity :: f64
  sl_stop_loss_price :: money
  sl_price :: money
  sl_created_at_ns :: int64
  sl_symbol :: string
  sl_fill_uuid :: string

definition mk_stop_loss ::
  "string \<Rightarrow> f64 \<Rightarrow> money \<Rightarrow> money \<Rightarrow> int64 \<Rightarrow> string \<Rightarrow> bool \<Rightarrow> stop_loss_exit_order" where
  "mk_stop_loss symbol quantity stop_loss_price price created_at_ns uuid is_short_position =
     \<lparr>sl_is_triggered = False,
      sl_is_short_position = is_short_position,
      sl_trigger_quantity = quantity,
      sl_stop_loss_price = Money (to_abi_int64 stop_loss_price),
      sl_price = Money (to_abi_int64 price),
      sl_created_at_ns = created_at_ns,
      sl_symbol = symbol,
      sl_fill_uuid = uuid\<rparr>"

definition sl_greater :: "stop_loss_exit_order \<Rightarrow> stop_loss_exit_order \<Rightarrow> bool" where
  "sl_greater a b \<longleftrightarrow> sl_stop_loss_price a > sl_stop_loss_price b"

definition sl_less :: "stop_loss_exit_order \<Rightarrow> stop_loss_exit_order \<Rightarrow> bool" where
  "sl_less a b \<longleftrightarrow> sl_stop_loss_price a < sl_stop_loss_price b"

definition sl_to_close_instruction :: "stop_loss_exit_order \<Rightarrow> order" where
  "sl_to_close_instruction e =
     (let action = (if sl_is_short_position e then BUY else SELL) in
      (mk_order (sl_trigger_quantity e) (sl_created_at_ns e) (sl_symbol e) action ''market'' None None None)
        \<lparr>order_is_exit_order := True, order_source_fill_uuid := Some (sl_fill_uuid e)\<rparr>)"

record take_profit_exit_order =
  tp_is_triggered :: bool
  tp_is_short_position :: bool
  tp_trigger_quantity :: f64
  tp_take_profit_price :: money
  tp_price :: money
  tp_created_at_ns :: int64
  tp_symbol :: string
  tp_fill_uuid :: string

definition mk_take_profit ::
  "string \<Rightarrow> f64 \<Rightarrow> money \<Rightarrow> money \<Rightarrow> int64 \<Rightarrow> string \<Rightarrow> bool \<Rightarrow> take_profit_exit_order" where
  "mk_take_profit symbol quantity take_profit_price price created_at_ns uuid is_short_position =
     \<lparr>tp_is_triggered = False,
      tp_is_short_position = is_short_position,
      tp_trigger_quantity = quantity,
      tp_take_profit_price = Money (to_abi_int64 take_profit_price),
      tp_price = Money (to_abi_int64 price),
      tp_created_at_ns = created_at_ns,
      tp_symbol = symbol,
      tp_fill_uuid = uuid\<rparr>"

text \<open>\<^verbatim>\<open>TakeProfitExitOrder::operator>\<close>, which compares the prices with \<open><\<close>.\<close>

definition tp_less :: "take_profit_exit_order \<Rightarrow> take_profit_exit_order \<Rightarrow> bool" where
  "tp_less a b \<longleftrightarrow> tp_take_profit_price a > tp_take_profit_price b"

definition tp_greater :: "take_profit_exit_order \<Rightarrow> take_profit_exit_order \<Rightarrow> bool" where
  "tp_greater a b \<longleftrightarrow> tp_take_profit_price a < tp_take_profit_price b"

definition tp_to_close_instruction :: "take_profit_exit_order \<Rightarrow> order" where
  "tp_to_close_instruction e =
     (let action = (if tp_is_short_position e then BUY else SELL) in
      (mk_order (tp_trigger_quantity e) (tp_created_at_ns e) (tp_symbol e) action ''market'' None None None)
        \<lparr>order_is_exit_order := True, order_source_fill_uuid := Some (tp_fill_uuid e)\<rparr>)"

datatype exit_order = Exit_stop_loss stop_loss_exit_order | Exit_take_profit take_profit_exit_order

section \<open>Equity snapshots\<close>

record equity_snapshot =
  eq_timestamp_ns :: int64
  eq_equity :: money
  eq_return :: f64
  eq_max_drawdown :: f64
  eq_sharpe_ratio :: f64
  eq_sharpe_ratio_rolling :: f64
  eq_sortino_ratio :: f64
  eq_sortino_ratio_rolling :: f64
  eq_calmar_ratio :: f64
  eq_calmar_ratio_rolling :: f64
  eq_tail_ratio :: f64
  eq_tail_ratio_rolling :: f64
  eq_value_at_risk :: f64
  eq_value_at_risk_rolling :: f64
  eq_conditional_value_at_risk :: f64
  eq_conditional_value_at_risk_rolling :: f64

section \<open>Execution results\<close>

record execution_success =
  res_message :: string
  res_cash_delta :: money
  res_margin_used :: money
  res_leverage :: f64
  res_position :: position
  res_fill :: fill
  res_exit_orders :: "exit_order list"
  res_partial_order :: "order option"

definition mk_success ::
  "money \<Rightarrow> money \<Rightarrow> f64 \<Rightarrow> order option \<Rightarrow> position \<Rightarrow> fill \<Rightarrow> exit_order list \<Rightarrow> execution_success" where
  "mk_success cash_delta margin_used leverage partial_order position fill exit_orders =
     \<lparr>res_message = (if partial_order \<noteq> None then ''Partial fill'' else ''Complete fill''),
      res_cash_delta = cash_delta,
      res_margin_used = margin_used,
      res_leverage = leverage,
      res_position = position,
      res_fill = fill,
      res_exit_orders = exit_orders,
      res_partial_order = partial_order\<rparr>"

definition is_partial_fill :: "execution_success \<Rightarrow> bool" where
  "is_partial_fill r \<longleftrightarrow> res_partial_order r \<noteq> None"

definition has_exit_strategy :: "execution_success \<Rightarrow> bool" where
  "has_exit_strategy r \<longleftrightarrow> res_exit_orders r \<noteq> []"

datatype execution_result = Exec_success execution_success | Exec_error string

section \<open>Scheduled orders\<close>

record scheduled_order =
  sched_order :: order
  sched_fill_at_ns :: int64

definition sched_less :: "scheduled_order \<Rightarrow> scheduled_order \<Rightarrow> bool" where
  "sched_less a b \<longleftrightarrow> sched_fill_at_ns a < sched_fill_at_ns b"

record limit_buy_order =
  lb_order :: order
  lb_limit_price :: money

definition lb_less :: "limit_buy_order \<Rightarrow> limit_buy_order \<Rightarrow> bool" where
  "lb_less a b \<longleftrightarrow> lb_limit_price a < lb_limit_price b"

definition lb_greater :: "limit_buy_order \<Rightarrow> limit_buy_order \<Rightarrow> bool" where
  "lb_greater a b \<longleftrightarrow> lb_limit_price a > lb_limit_price b"

record limit_sell_order =
  ls_order :: order
  ls_limit_price :: money

definition ls_greater :: "limit_sell_order \<Rightarrow> limit_sell_order \<Rightarrow> bool" where
  "ls_greater a b \<longleftrightarrow> ls_limit_price a > ls_limit_price b"

definition ls_less :: "limit_sell_order \<Rightarrow> limit_sell_order \<Rightarrow> bool" where
  "ls_less a b \<longleftrightarrow> ls_limit_price a < ls_limit_price b"

datatype scheduled_limit_order = Sched_limit_buy limit_buy_order | Sched_limit_sell limit_sell_order

section \<open>The orders of the heaps\<close>

text \<open>Each pair of operators is a pair of converses, also where both are turned around.\<close>

lemma order_operators_converse:
  "sl_greater a b \<longleftrightarrow> sl_less b a" "tp_less c d \<longleftrightarrow> tp_greater d c" "lb_less e f \<longleftrightarrow> lb_greater f e" "ls_greater g h \<longleftrightarrow> ls_less h g"
  by (simp_all add: sl_greater_def sl_less_def tp_less_def tp_greater_def lb_less_def lb_greater_def ls_greater_def ls_less_def)

lemmas model_order_defs = sl_less_def tp_greater_def sched_less_def lb_greater_def ls_less_def

text \<open>\<^verbatim>\<open>MinHeap<ScheduledOrder>\<close>: the order that fills first.\<close>

interpretation sched_heap: heap_order sched_less
  by unfold_locales (auto simp: model_order_defs)

text \<open>\<^verbatim>\<open>MinHeap<StopLossExitOrder>\<close>: the lowest stop price first.\<close>

interpretation sl_heap: heap_order sl_less
  by unfold_locales (auto simp: model_order_defs)

text \<open>\<^verbatim>\<open>MaxHeap<TakeProfitExitOrder>\<close>: the lowest target price first.\<close>

interpretation tp_heap: heap_order tp_greater
  by unfold_locales (auto simp: model_order_defs)

text \<open>\<^verbatim>\<open>MaxHeap<LimitBuyOrder>\<close>: the highest bid first.\<close>

interpretation lb_heap: heap_order lb_greater
  by unfold_locales (auto simp: model_order_defs)

text \<open>\<^verbatim>\<open>MinHeap<LimitSellOrder>\<close>: the lowest ask first.\<close>

interpretation ls_heap: heap_order ls_less
  by unfold_locales (auto simp: model_order_defs)

end
