(* ===== verification/State.thy ===== *)
theory State
  imports Models
begin

text \<open>
  \<^verbatim>\<open>simulators/back_test/state.hpp\<close>, \<^verbatim>\<open>state.cpp\<close> and \<^verbatim>\<open>equity_calculator.cpp\<close>: the account of a
  running back test and the operations that change it.

  The two functions \<^verbatim>\<open>reduce_active_buy_fills_fifo\<close> and \<^verbatim>\<open>reduce_active_sell_fills_fifo\<close> are one
  loop over the fills, on the map of active buy or sell fills; \<open>fifo_loop\<close> is that loop, and
  \<open>margin_ledger\<close> the three fields it changes beside the map.
\<close>

section \<open>The state\<close>

record bar_prices =
  bp_close :: money
  bp_open :: money
  bp_high :: money
  bp_low :: money

record margin_ledger =
  margin_in_use :: money
  active_margin_for_fills :: "(string, money) omap"
  active_leverage_for_fills :: "(string, f64) omap"

record state =
  cash :: money
  ledger :: margin_ledger
  current_timestamp_ns :: int64
  positions :: "(string, position) omap"
  current_bar_prices :: "(string, bar_prices) omap"
  current_bar_volumes :: "(string, int64) omap"
  fills :: "fill list"
  exit_orders :: "exit_order list"
  equity_curve :: "equity_snapshot list"
  new_fills :: "fill list"
  new_exit_orders :: "exit_order list"
  active_buy_fills :: "(string, f64) omap"
  active_sell_fills :: "(string, f64) omap"
  peak_equity :: money
  max_drawdown :: f64

text \<open>The state a \<^verbatim>\<open>BackTestEngine\<close> is created with.\<close>

definition empty_ledger :: margin_ledger where
  "empty_ledger =
     \<lparr>margin_in_use = Money 0, active_margin_for_fills = omap_empty,
      active_leverage_for_fills = omap_empty\<rparr>"

definition empty_state :: state where
  "empty_state =
     \<lparr>cash = Money 0,
      ledger = empty_ledger,
      current_timestamp_ns = 0,
      positions = omap_empty,
      current_bar_prices = omap_empty,
      current_bar_volumes = omap_empty,
      fills = [],
      exit_orders = [],
      equity_curve = [],
      new_fills = [],
      new_exit_orders = [],
      active_buy_fills = omap_empty,
      active_sell_fills = omap_empty,
      peak_equity = Money 0,
      max_drawdown = 0\<rparr>"

definition get_symbol_close :: "state \<Rightarrow> string \<Rightarrow> money result" where
  "get_symbol_close st symbol = bindR (omap_at (current_bar_prices st) symbol) (\<lambda>p. Inr (bp_close p))"

definition get_symbol_open :: "state \<Rightarrow> string \<Rightarrow> money result" where
  "get_symbol_open st symbol = bindR (omap_at (current_bar_prices st) symbol) (\<lambda>p. Inr (bp_open p))"

definition get_symbol_high :: "state \<Rightarrow> string \<Rightarrow> money result" where
  "get_symbol_high st symbol = bindR (omap_at (current_bar_prices st) symbol) (\<lambda>p. Inr (bp_high p))"

definition get_symbol_low :: "state \<Rightarrow> string \<Rightarrow> money result" where
  "get_symbol_low st symbol = bindR (omap_at (current_bar_prices st) symbol) (\<lambda>p. Inr (bp_low p))"

definition has_symbol_prices :: "state \<Rightarrow> string \<Rightarrow> bool" where
  "has_symbol_prices st symbol = omap_has (current_bar_prices st) symbol"

definition get_symbol_volume :: "state \<Rightarrow> string \<Rightarrow> int64 result" where
  "get_symbol_volume st symbol = omap_at (current_bar_volumes st) symbol"

definition has_symbol_volume :: "state \<Rightarrow> string \<Rightarrow> bool" where
  "has_symbol_volume st symbol = omap_has (current_bar_volumes st) symbol"

definition get_symbol_position :: "state \<Rightarrow> string \<Rightarrow> position result" where
  "get_symbol_position st symbol = omap_at (positions st) symbol"

definition get_symbol_position_or :: "state \<Rightarrow> string \<Rightarrow> position \<Rightarrow> position" where
  "get_symbol_position_or st symbol default_position =
     value_or (omap_find (positions st) symbol) default_position"

definition has_symbol_position :: "state \<Rightarrow> string \<Rightarrow> bool" where
  "has_symbol_position st symbol = omap_has (positions st) symbol"

definition prepare_initial_state :: "host_params \<Rightarrow> state \<Rightarrow> state" where
  "prepare_initial_state hp st =
     st\<lparr>cash := Money (hp_initial_capital hp),
        ledger := (ledger st)\<lparr>margin_in_use := Money 0\<rparr>,
        peak_equity := Money (hp_initial_capital hp),
        max_drawdown := 0\<rparr>"

section \<open>Closing active fills first in, first out\<close>

text \<open>
  The margin of a fill, of which the share \<open>to_close / available\<close> is released.  A rest of at
  most \<^verbatim>\<open>EPSILON\<close> dollars is dropped together with the leverage of the fill.
\<close>

definition release_margin :: "string \<Rightarrow> f64 \<Rightarrow> f64 \<Rightarrow> margin_ledger \<Rightarrow> margin_ledger" where
  "release_margin uuid available to_close led =
     (case omap_find (active_margin_for_fills led) uuid of
        None \<Rightarrow> led
      | Some total_margin_for_fill \<Rightarrow>
          let proportion_closed = to_close / available;
              margin_to_free = money_mul total_margin_for_fill proportion_closed;
              left = total_margin_for_fill - margin_to_free
          in if to_dollars left \<le> EPSILON
             then led\<lparr>margin_in_use := margin_in_use led - margin_to_free,
                      active_margin_for_fills := omap_erase uuid (active_margin_for_fills led),
                      active_leverage_for_fills := omap_erase uuid (active_leverage_for_fills led)\<rparr>
             else led\<lparr>margin_in_use := margin_in_use led - margin_to_free,
                      active_margin_for_fills := omap_upd uuid left (active_margin_for_fills led)\<rparr>)"

definition close_active :: "string \<Rightarrow> f64 \<Rightarrow> (string, f64) omap \<Rightarrow> (string, f64) omap" where
  "close_active uuid left active =
     (if left \<le> EPSILON then omap_erase uuid active else omap_upd uuid left active)"

fun fifo_loop ::
  "(fill \<Rightarrow> bool) \<Rightarrow> string \<Rightarrow> fill list \<Rightarrow> f64 \<Rightarrow> (string, f64) omap \<times> margin_ledger \<Rightarrow>
   (string, f64) omap \<times> margin_ledger" where
  "fifo_loop side symbol [] remaining (active, led) = (active, led)"
| "fifo_loop side symbol (f # fs) remaining (active, led) =
     (if remaining \<le> EPSILON then (active, led)
      else if fill_symbol f = symbol \<and> side f then
        (case omap_find active (fill_uuid f) of
           None \<Rightarrow> fifo_loop side symbol fs remaining (active, led)
         | Some available \<Rightarrow>
             let to_close = f64_min available remaining in
             fifo_loop side symbol fs (remaining - to_close)
               (close_active (fill_uuid f) (available - to_close) active,
                release_margin (fill_uuid f) available to_close led))
      else fifo_loop side symbol fs remaining (active, led))"

definition reduce_active_buy_fills_fifo :: "string \<Rightarrow> f64 \<Rightarrow> state \<Rightarrow> state" where
  "reduce_active_buy_fills_fifo symbol quantity st =
     (case fifo_loop fill_is_buy symbol (fills st) quantity (active_buy_fills st, ledger st) of
        (active, led) \<Rightarrow> st\<lparr>active_buy_fills := active, ledger := led\<rparr>)"

definition reduce_active_sell_fills_fifo :: "string \<Rightarrow> f64 \<Rightarrow> state \<Rightarrow> state" where
  "reduce_active_sell_fills_fifo symbol quantity st =
     (case fifo_loop fill_is_sell symbol (fills st) quantity (active_sell_fills st, ledger st) of
        (active, led) \<Rightarrow> st\<lparr>active_sell_fills := active, ledger := led\<rparr>)"

definition populate_active_fills :: "fill \<Rightarrow> f64 \<Rightarrow> bool \<Rightarrow> state \<Rightarrow> (string \<times> f64) option \<times> state" where
  "populate_active_fills f current_qty comparison st =
     (if \<not> comparison then (Some (fill_uuid f, fill_quantity f), st)
      else
        let diff_qty = f64_min (fill_quantity f) (f64_abs current_qty);
            st' = (if 0 < diff_qty then
                     (if fill_is_buy f then reduce_active_sell_fills_fifo (fill_symbol f) diff_qty st
                      else reduce_active_buy_fills_fifo (fill_symbol f) diff_qty st)
                   else st);
            open_qty = fill_quantity f - diff_qty
        in if EPSILON < open_qty then (Some (fill_uuid f, open_qty), st') else (None, st'))"

definition recalculate_margin_in_use :: "state \<Rightarrow> money" where
  "recalculate_margin_in_use st =
     foldl (\<lambda>acc arg. acc + snd arg) (Money 0) (active_margin_for_fills (ledger st))"

section \<open>Recording an execution\<close>

text \<open>The part of \<^verbatim>\<open>update_state\<close> for the quantity that a fill opens.\<close>

definition open_fill :: "execution_success \<Rightarrow> string \<times> f64 \<Rightarrow> state \<Rightarrow> state" where
  "open_fill r act st =
     (let (uuid, quantity) = act;
          f = res_fill r;
          st1 = (if fill_is_buy f then st\<lparr>active_buy_fills := omap_upd uuid quantity (active_buy_fills st)\<rparr>
                 else if fill_is_sell f then st\<lparr>active_sell_fills := omap_upd uuid quantity (active_sell_fills st)\<rparr>
                 else st);
          proportion = quantity / fill_quantity f;
          proportional_margin = money_mul (res_margin_used r) proportion;
          led = ledger st1
      in st1\<lparr>ledger := led\<lparr>active_margin_for_fills := omap_upd uuid proportional_margin (active_margin_for_fills led),
                           active_leverage_for_fills := omap_upd uuid (res_leverage r) (active_leverage_for_fills led),
                           margin_in_use := margin_in_use led + proportional_margin\<rparr>\<rparr>)"

text \<open>The part of \<^verbatim>\<open>update_state\<close> that moves quantities and margin between the fills.\<close>

definition held_quantity :: "string \<Rightarrow> state \<Rightarrow> f64" where
  "held_quantity symbol st = (case omap_find (positions st) symbol of None \<Rightarrow> 0 | Some p \<Rightarrow> pos_quantity p)"

definition book_fill :: "execution_success \<Rightarrow> state \<Rightarrow> state" where
  "book_fill r st =
     (let f = res_fill r;
          current_qty = held_quantity (fill_symbol f) st;
          comparison = (if fill_is_buy f then current_qty < 0 else 0 < current_qty);
          (active, st2) = populate_active_fills f current_qty comparison st
      in case active of None \<Rightarrow> st2 | Some act \<Rightarrow> open_fill r act st2)"

definition update_state :: "execution_success \<Rightarrow> state \<Rightarrow> state" where
  "update_state r st =
     (let f = res_fill r;
          st1 = book_fill r
                  (st\<lparr>cash := cash st + res_cash_delta r,
                      fills := fills st @ [f],
                      new_fills := new_fills st @ [f]\<rparr>);
          st2 = st1\<lparr>exit_orders := exit_orders st1 @ res_exit_orders r,
                    new_exit_orders := new_exit_orders st1 @ res_exit_orders r\<rparr>;
          pos = res_position r
      in if f64_eq (pos_quantity pos) 0
         then st2\<lparr>positions := omap_erase (pos_symbol pos) (positions st2)\<rparr>
         else st2\<lparr>positions := omap_upd (pos_symbol pos) pos (positions st2)\<rparr>)"

section \<open>Equity\<close>

definition unrealized_step :: "state \<Rightarrow> money \<Rightarrow> string \<times> position \<Rightarrow> money" where
  "unrealized_step st acc sp =
     (case omap_find (current_bar_prices st) (fst sp) of
        None \<Rightarrow> acc
      | Some p \<Rightarrow> acc + money_mul (bp_close p - pos_average_price (snd sp)) (pos_quantity (snd sp)))"

definition unrealized_pnl :: "state \<Rightarrow> money" where
  "unrealized_pnl st = foldl (unrealized_step st) (Money 0) (positions st)"

definition calculate_equity :: "state \<Rightarrow> money" where
  "calculate_equity st = cash st + margin_in_use (ledger st) + unrealized_pnl st"

definition calculate_return :: "host_params \<Rightarrow> money \<Rightarrow> f64" where
  "calculate_return hp equity =
     (let initial_capital_money = Money (hp_initial_capital hp);
          net_return = equity - initial_capital_money
      in to_dollars net_return / to_dollars initial_capital_money)"

definition calculate_max_drawdown :: "state \<Rightarrow> money \<Rightarrow> f64" where
  "calculate_max_drawdown st current_equity =
     (let current_drawdown =
            (if EPSILON < to_dollars (peak_equity st)
             then to_dollars (peak_equity st - current_equity) / to_dollars (peak_equity st)
             else 0)
      in f64_max current_drawdown (max_drawdown st))"

definition calculate_available_margin :: "state \<Rightarrow> money" where
  "calculate_available_margin st = calculate_equity st - margin_in_use (ledger st)"

definition new_snapshot :: "int64 \<Rightarrow> money \<Rightarrow> f64 \<Rightarrow> f64 \<Rightarrow> equity_snapshot" where
  "new_snapshot ts equity ret dd =
     \<lparr>eq_timestamp_ns = ts, eq_equity = equity, eq_return = ret, eq_max_drawdown = dd,
      eq_sharpe_ratio = 0, eq_sharpe_ratio_rolling = 0, eq_sortino_ratio = 0,
      eq_sortino_ratio_rolling = 0, eq_calmar_ratio = 0, eq_calmar_ratio_rolling = 0,
      eq_tail_ratio = 0, eq_tail_ratio_rolling = 0, eq_value_at_risk = 0,
      eq_value_at_risk_rolling = 0, eq_conditional_value_at_risk = 0,
      eq_conditional_value_at_risk_rolling = 0\<rparr>"

definition record_bar_equity_snapshot :: "host_params \<Rightarrow> state \<Rightarrow> state" where
  "record_bar_equity_snapshot hp st =
     (let equity = calculate_equity st;
          st1 = (if peak_equity st < equity then st\<lparr>peak_equity := equity\<rparr> else st);
          current_drawdown = calculate_max_drawdown st1 equity;
          st2 = (if max_drawdown st1 < current_drawdown
                 then st1\<lparr>max_drawdown := current_drawdown\<rparr> else st1);
          curve = equity_curve st2
      in if curve = [] \<or> eq_timestamp_ns (last curve) \<noteq> current_timestamp_ns st2
         then st2\<lparr>equity_curve := curve @
                [new_snapshot (current_timestamp_ns st2) equity (calculate_return hp equity) (max_drawdown st2)]\<rparr>
         else st2\<lparr>equity_curve := butlast curve @
                [(last curve)\<lparr>eq_equity := equity, eq_return := calculate_return hp equity,
                              eq_max_drawdown := max_drawdown st2\<rparr>]\<rparr>)"

section \<open>Bars\<close>

definition clear_previous_bar_state :: "state \<Rightarrow> state" where
  "clear_previous_bar_state st = st\<lparr>new_fills := [], new_exit_orders := []\<rparr>"

definition prepare_next_bar_state :: "bar \<Rightarrow> state \<Rightarrow> state" where
  "prepare_next_bar_state b st =
     st\<lparr>current_timestamp_ns := bar_unix_ts_ns b,
        current_bar_prices := omap_upd (bar_symbol b)
          \<lparr>bp_close = from_dollars (bar_close b), bp_open = from_dollars (bar_open b),
           bp_high = from_dollars (bar_high b), bp_low = from_dollars (bar_low b)\<rparr>
          (current_bar_prices st),
        current_bar_volumes := omap_upd (bar_symbol b) (f64_to_int64 (bar_volume b))
          (current_bar_volumes st)\<rparr>"

section \<open>What recording an execution leaves alone\<close>

lemma reduce_active_fills_frame:
  "reduce_active_buy_fills_fifo k d st = st\<lparr>active_buy_fills := active_buy_fills (reduce_active_buy_fills_fifo k d st),
     active_sell_fills := active_sell_fills (reduce_active_buy_fills_fifo k d st),
     ledger := ledger (reduce_active_buy_fills_fifo k d st)\<rparr>"
  "reduce_active_sell_fills_fifo k d st = st\<lparr>active_buy_fills := active_buy_fills (reduce_active_sell_fills_fifo k d st),
     active_sell_fills := active_sell_fills (reduce_active_sell_fills_fifo k d st),
     ledger := ledger (reduce_active_sell_fills_fifo k d st)\<rparr>"
  by (simp_all add: reduce_active_buy_fills_fifo_def reduce_active_sell_fills_fifo_def split: prod.split)

lemma populate_active_fills_frame:
  "snd (populate_active_fills f q c st) =
     st\<lparr>active_buy_fills := active_buy_fills (snd (populate_active_fills f q c st)),
        active_sell_fills := active_sell_fills (snd (populate_active_fills f q c st)),
        ledger := ledger (snd (populate_active_fills f q c st))\<rparr>"
  using reduce_active_fills_frame [where st = st] by (simp add: populate_active_fills_def Let_def)

lemma open_fill_frame:
  "open_fill r act st =
     st\<lparr>active_buy_fills := active_buy_fills (open_fill r act st),
        active_sell_fills := active_sell_fills (open_fill r act st),
        ledger := ledger (open_fill r act st)\<rparr>"
  by (cases act) (simp add: open_fill_def Let_def)

lemma state_eqI:
  fixes s t :: state
  assumes "cash s = cash t" "ledger s = ledger t" "current_timestamp_ns s = current_timestamp_ns t"
    "positions s = positions t" "current_bar_prices s = current_bar_prices t"
    "current_bar_volumes s = current_bar_volumes t" "fills s = fills t" "exit_orders s = exit_orders t"
    "equity_curve s = equity_curve t" "new_fills s = new_fills t" "new_exit_orders s = new_exit_orders t"
    "active_buy_fills s = active_buy_fills t" "active_sell_fills s = active_sell_fills t"
    "peak_equity s = peak_equity t" "max_drawdown s = max_drawdown t"
  shows "s = t"
  using assms by (cases s; cases t) simp

lemma book_fill_frame:
  "\<exists>ab as led. book_fill r st = st\<lparr>active_buy_fills := ab, active_sell_fills := as, ledger := led\<rparr>"
proof -
  let ?q = "held_quantity (fill_symbol (res_fill r)) st"
  let ?c = "if fill_is_buy (res_fill r) then ?q < 0 else 0 < ?q"
  obtain act st2 where p: "populate_active_fills (res_fill r) ?q ?c st = (act, st2)" by fastforce
  obtain ab as led where 2: "st2 = st\<lparr>active_buy_fills := ab, active_sell_fills := as, ledger := led\<rparr>"
    using populate_active_fills_frame [of "res_fill r" ?q ?c st] unfolding p by auto
  have "book_fill r st = (case act of None \<Rightarrow> st2 | Some a \<Rightarrow> open_fill r a st2)"
    unfolding book_fill_def Let_def p by simp
  moreover have "\<exists>ab as led. open_fill r a st2 = st\<lparr>active_buy_fills := ab, active_sell_fills := as, ledger := led\<rparr>" for a
  proof -
    obtain x y z where "open_fill r a st2 = st2\<lparr>active_buy_fills := x, active_sell_fills := y, ledger := z\<rparr>"
      using open_fill_frame [of r a st2] by blast
    then show ?thesis unfolding 2 by auto
  qed
  ultimately show ?thesis using 2 by (cases act) auto
qed

lemma update_state_simps [simp]:
  "cash (update_state r st) = cash st + res_cash_delta r"
  "fills (update_state r st) = fills st @ [res_fill r]"
  "new_fills (update_state r st) = new_fills st @ [res_fill r]"
  "exit_orders (update_state r st) = exit_orders st @ res_exit_orders r"
  "new_exit_orders (update_state r st) = new_exit_orders st @ res_exit_orders r"
  "current_timestamp_ns (update_state r st) = current_timestamp_ns st"
  "current_bar_prices (update_state r st) = current_bar_prices st"
  "current_bar_volumes (update_state r st) = current_bar_volumes st"
  "equity_curve (update_state r st) = equity_curve st"
  "peak_equity (update_state r st) = peak_equity st"
  "max_drawdown (update_state r st) = max_drawdown st"
  "positions (update_state r st) =
     (if f64_eq (pos_quantity (res_position r)) 0
      then omap_erase (pos_symbol (res_position r)) (positions st)
      else omap_upd (pos_symbol (res_position r)) (res_position r) (positions st))"
  using book_fill_frame [of r "st\<lparr>cash := cash st + res_cash_delta r, fills := fills st @ [res_fill r],
    new_fills := new_fills st @ [res_fill r]\<rparr>"]
  by (auto simp: update_state_def Let_def)

lemma update_state_active [simp]:
  "active_buy_fills (update_state r st) = active_buy_fills (book_fill r (st\<lparr>cash := cash st + res_cash_delta r,
     fills := fills st @ [res_fill r], new_fills := new_fills st @ [res_fill r]\<rparr>))"
  "active_sell_fills (update_state r st) = active_sell_fills (book_fill r (st\<lparr>cash := cash st + res_cash_delta r,
     fills := fills st @ [res_fill r], new_fills := new_fills st @ [res_fill r]\<rparr>))"
  "ledger (update_state r st) = ledger (book_fill r (st\<lparr>cash := cash st + res_cash_delta r,
     fills := fills st @ [res_fill r], new_fills := new_fills st @ [res_fill r]\<rparr>))"
  by (simp_all add: update_state_def Let_def)

lemma record_bar_equity_snapshot_simps [simp]:
  "cash (record_bar_equity_snapshot hp st) = cash st"
  "ledger (record_bar_equity_snapshot hp st) = ledger st"
  "positions (record_bar_equity_snapshot hp st) = positions st"
  "current_timestamp_ns (record_bar_equity_snapshot hp st) = current_timestamp_ns st"
  "current_bar_prices (record_bar_equity_snapshot hp st) = current_bar_prices st"
  "current_bar_volumes (record_bar_equity_snapshot hp st) = current_bar_volumes st"
  "fills (record_bar_equity_snapshot hp st) = fills st"
  "new_fills (record_bar_equity_snapshot hp st) = new_fills st"
  "active_buy_fills (record_bar_equity_snapshot hp st) = active_buy_fills st"
  "active_sell_fills (record_bar_equity_snapshot hp st) = active_sell_fills st"
  by (simp_all add: record_bar_equity_snapshot_def Let_def)

lemma prepare_next_bar_state_simps [simp]:
  "cash (prepare_next_bar_state b st) = cash st"
  "ledger (prepare_next_bar_state b st) = ledger st"
  "positions (prepare_next_bar_state b st) = positions st"
  "fills (prepare_next_bar_state b st) = fills st"
  "active_buy_fills (prepare_next_bar_state b st) = active_buy_fills st"
  "active_sell_fills (prepare_next_bar_state b st) = active_sell_fills st"
  "equity_curve (prepare_next_bar_state b st) = equity_curve st"
  "peak_equity (prepare_next_bar_state b st) = peak_equity st"
  "max_drawdown (prepare_next_bar_state b st) = max_drawdown st"
  "current_timestamp_ns (prepare_next_bar_state b st) = bar_unix_ts_ns b"
  by (simp_all add: prepare_next_bar_state_def)

lemma clear_previous_bar_state_simps [simp]:
  "cash (clear_previous_bar_state st) = cash st"
  "ledger (clear_previous_bar_state st) = ledger st"
  "positions (clear_previous_bar_state st) = positions st"
  "fills (clear_previous_bar_state st) = fills st"
  "active_buy_fills (clear_previous_bar_state st) = active_buy_fills st"
  "active_sell_fills (clear_previous_bar_state st) = active_sell_fills st"
  "equity_curve (clear_previous_bar_state st) = equity_curve st"
  "peak_equity (clear_previous_bar_state st) = peak_equity st"
  "max_drawdown (clear_previous_bar_state st) = max_drawdown st"
  "current_timestamp_ns (clear_previous_bar_state st) = current_timestamp_ns st"
  by (simp_all add: clear_previous_bar_state_def)

end
