(* ===== verification/Calculators.thy ===== *)
theory Calculators
  imports State
begin

text \<open>
  The functions the executor computes with: \<^verbatim>\<open>utils/time_utils.cpp\<close>, \<^verbatim>\<open>exchange.cpp\<close>,
  \<^verbatim>\<open>slippage_calculator.cpp\<close> and \<^verbatim>\<open>position_calculator.cpp\<close> of \<^verbatim>\<open>simulators/back_test\<close>.
\<close>

section \<open>Market hours\<close>

definition NS_PER_HOUR :: int where "NS_PER_HOUR = 3600 * 1000000000"
definition NS_PER_DAY :: int where "NS_PER_DAY = 24 * NS_PER_HOUR"
definition MARK_OPEN_HOUR :: int where "MARK_OPEN_HOUR = 9"
definition MARKET_CLOSE_HOUR :: int where "MARKET_CLOSE_HOUR = 16"

text \<open>
  \<^verbatim>\<open>std::chrono\<close> counts nanoseconds since Thursday 1970-01-01 00:00 UTC; weekdays run from
  Sunday, 0, to Saturday, 6.
\<close>

definition weekday_of_day :: "int \<Rightarrow> int" where
  "weekday_of_day d = (d + 4) mod 7"

definition is_within_market_hours :: "int64 \<Rightarrow> bool" where
  "is_within_market_hours timestamp_ns =
     (let tp = int_of_int64 timestamp_ns;
          dp = tp div NS_PER_DAY;
          wd = weekday_of_day dp;
          hour = (tp - dp * NS_PER_DAY) div NS_PER_HOUR
      in if wd = 0 \<or> wd = 6 then False
         else if hour < MARK_OPEN_HOUR \<or> MARKET_CLOSE_HOUR \<le> hour then False
         else True)"

section \<open>Exchange\<close>

definition is_within_market_hour_restrictions :: "int64 \<Rightarrow> host_params \<Rightarrow> bool" where
  "is_within_market_hour_restrictions timestamp_ns hp =
     (if hp_market_hours_only hp \<noteq> Some True then True else is_within_market_hours timestamp_ns)"

definition calculate_commision :: "fill \<Rightarrow> host_params \<Rightarrow> money" where
  "calculate_commision f hp =
     (let commission_type = value_or (hp_commission_type hp) '''';
          commission_value = value_or (hp_commission hp) 0
      in if commission_type = [] \<or> f64_eq commission_value 0 then Money 0
         else if commission_type = ''per_share'' then money_mul (from_dollars commission_value) (fill_quantity f)
         else if commission_type = ''percentage''
           then money_mul (money_mul (fill_price f) (fill_quantity f)) commission_value
         else if commission_type = ''flat'' then from_dollars commission_value
         else Money 0)"

section \<open>Slippage\<close>

definition calculate_slippage_time_ns :: "order \<Rightarrow> host_params \<Rightarrow> state \<Rightarrow> int64" where
  "calculate_slippage_time_ns ord hp st =
     (if hp_slippage_model hp = None \<or> hp_slippage_model hp = Some ''none'' then current_timestamp_ns st
      else if hp_slippage_model hp = Some ''time_based'' then
        let base_delay_ns = f64_to_int64 (value_or (hp_slippage hp) 0 * f64_of_int NANOSECONDS_PER_MILLISECOND)
        in current_timestamp_ns st + base_delay_ns
      else if hp_slippage_model hp = Some ''time_volume_based'' then
        (case omap_find (current_bar_volumes st) (order_symbol ord) of
           None \<Rightarrow> current_timestamp_ns st
         | Some vol \<Rightarrow>
             let volume = int64_to_f64 vol;
                 size_ratio = order_quantity ord / volume;
                 delay_seconds = value_or (hp_slippage hp) 1 * size_ratio;
                 delay_ns = f64_to_int64 (delay_seconds * f64_of_int NANOSECONDS_PER_SECOND)
             in current_timestamp_ns st + delay_ns)
      else current_timestamp_ns st)"

section \<open>Position sizes and prices of signals\<close>

definition calculate_signal_position_size :: "signal \<Rightarrow> host_params \<Rightarrow> state \<Rightarrow> f64 result" where
  "calculate_signal_position_size sig hp st =
     bindR (get_symbol_close st (signal_symbol sig)) (\<lambda>current_price.
       let equity = calculate_equity st;
           sizing_method = value_or (hp_position_sizing_method hp) ''fixed_percentage'';
           position_size_value = value_or (hp_position_size_value hp) DEFAULT_POSITION_SIZE_VALUE;
           symbol_count = length (hp_symbols hp)
       in if sizing_method = ''equal_weight'' \<and> symbol_count = 0 then Inr 0
          else
            let quantity =
                  (if sizing_method = ''fixed_percentage''
                     then to_dollars (money_mul equity position_size_value) / to_dollars current_price
                   else if sizing_method = ''fixed_dollar''
                     then position_size_value / to_dollars current_price
                   else if sizing_method = ''equal_weight''
                     then to_dollars (money_div equity (f64_of_int (int symbol_count))) / to_dollars current_price
                   else 0)
            in Inr (case hp_max_position_size hp of
                      Some m \<Rightarrow> if m < quantity then m else quantity
                    | None \<Rightarrow> quantity))"

definition calculate_signal_stop_loss_price :: "signal \<Rightarrow> host_params \<Rightarrow> state \<Rightarrow> money option result" where
  "calculate_signal_stop_loss_price sig hp st =
     (if \<not> value_or (hp_use_stop_loss hp) False then Inr None
      else bindR (get_symbol_close st (signal_symbol sig)) (\<lambda>current_price.
        case hp_stop_loss_pct hp of
          None \<Rightarrow> Inr None
        | Some pct \<Rightarrow>
            if signal_is_buy sig then Inr (Some (money_mul current_price (1 - pct)))
            else if signal_is_sell sig then Inr (Some (money_mul current_price (1 + pct)))
            else Inr None))"

definition calculate_signal_take_profit_price :: "signal \<Rightarrow> host_params \<Rightarrow> state \<Rightarrow> money option result" where
  "calculate_signal_take_profit_price sig hp st =
     (if \<not> value_or (hp_use_take_profit hp) False then Inr None
      else bindR (get_symbol_close st (signal_symbol sig)) (\<lambda>current_price.
        case hp_take_profit_pct hp of
          None \<Rightarrow> Inr None
        | Some pct \<Rightarrow>
            if signal_is_buy sig then Inr (Some (money_mul current_price (1 + pct)))
            else if signal_is_sell sig then Inr (Some (money_mul current_price (1 - pct)))
            else Inr None))"

section \<open>Positions\<close>

definition calculate_position :: "order \<Rightarrow> f64 \<Rightarrow> money \<Rightarrow> state \<Rightarrow> position" where
  "calculate_position ord fillable_quantity price st =
     (let pos = value_or (omap_find (positions st) (order_symbol ord)) (mk_position (order_symbol ord) 0 (Money 0));
          old_quantity = pos_quantity pos;
          pos1 =
            (if order_is_buy ord then
               let new_quantity = old_quantity + fillable_quantity;
                   p = (if old_quantity < 0 \<and> 0 < new_quantity then pos\<lparr>pos_average_price := price\<rparr>
                        else if 0 \<le> old_quantity then
                          pos\<lparr>pos_average_price :=
                            money_div (money_mul (pos_average_price pos) old_quantity + money_mul price fillable_quantity)
                              new_quantity\<rparr>
                        else pos)
               in p\<lparr>pos_quantity := new_quantity\<rparr>
             else if order_is_sell ord then
               let new_quantity = old_quantity - fillable_quantity;
                   p = (if 0 < old_quantity \<and> new_quantity < 0 then pos\<lparr>pos_average_price := price\<rparr>
                        else if old_quantity \<le> 0 then
                          pos\<lparr>pos_average_price :=
                            money_div (money_mul (pos_average_price pos) (f64_abs old_quantity) +
                                       money_mul price fillable_quantity)
                              (f64_abs new_quantity)\<rparr>
                        else pos)
               in p\<lparr>pos_quantity := new_quantity\<rparr>
             else pos)
      in if f64_abs (pos_quantity pos1) < EPSILON
         then pos1\<lparr>pos_quantity := 0, pos_average_price := Money 0\<rparr>
         else pos1)"

text \<open>The fills that a fill of the other side closes, oldest first, with the quantity of each.\<close>

fun closed_fills_loop ::
  "(fill \<Rightarrow> bool) \<Rightarrow> string \<Rightarrow> (string, f64) omap \<Rightarrow> fill list \<Rightarrow> f64 \<Rightarrow> (string \<times> f64) list" where
  "closed_fills_loop side symbol active [] remaining = []"
| "closed_fills_loop side symbol active (f # fs) remaining =
     (if remaining \<le> EPSILON then []
      else if fill_symbol f = symbol \<and> side f then
        (case omap_find active (fill_uuid f) of
           None \<Rightarrow> closed_fills_loop side symbol active fs remaining
         | Some available \<Rightarrow>
             let to_close = f64_min available remaining in
             (fill_uuid f, to_close) # closed_fills_loop side symbol active fs (remaining - to_close))
      else closed_fills_loop side symbol active fs remaining)"

definition find_buy_fill_uuids_closed_by_sell :: "fill \<Rightarrow> state \<Rightarrow> (string \<times> f64) list" where
  "find_buy_fill_uuids_closed_by_sell sell_fill st =
     (case omap_find (positions st) (fill_symbol sell_fill) of
        None \<Rightarrow> []
      | Some p \<Rightarrow>
          if pos_quantity p \<le> 0 then []
          else closed_fills_loop fill_is_buy (fill_symbol sell_fill) (active_buy_fills st) (fills st)
                 (f64_min (fill_quantity sell_fill) (pos_quantity p)))"

definition find_sell_fill_uuids_closed_by_buy :: "fill \<Rightarrow> state \<Rightarrow> (string \<times> f64) list" where
  "find_sell_fill_uuids_closed_by_buy buy_fill st =
     (case omap_find (positions st) (fill_symbol buy_fill) of
        None \<Rightarrow> []
      | Some p \<Rightarrow>
          if 0 \<le> pos_quantity p then []
          else closed_fills_loop fill_is_sell (fill_symbol buy_fill) (active_sell_fills st) (fills st)
                 (f64_min (fill_quantity buy_fill) (f64_abs (pos_quantity p))))"

end
