(* ===== verification/Executor.thy ===== *)
theory Executor
  imports Calculators
begin

text \<open>
  \<^verbatim>\<open>simulators/back_test/executor.cpp\<close>: turning an order into an execution result.

  \<open>execute_order\<close> takes the uuid that the constructor of the resulting \<^verbatim>\<open>Fill\<close> would draw; the
  uuid of the temporary fill that only prices the commission is never read.  The reads
  \<^verbatim>\<open>map::at\<close> of the code follow checks that make them succeed, so a missing entry shows up in
  the model only as the value it would not reach.
\<close>

record closing_margin_info =
  margin_to_release :: money
  realized_pnl :: money

definition get_fillable_and_remaining_quantities :: "order \<Rightarrow> host_params \<Rightarrow> int64 \<Rightarrow> f64 \<times> f64" where
  "get_fillable_and_remaining_quantities ord hp symbol_volume =
     (case hp_fill_max_pct_of_volume hp of
        Some pct \<Rightarrow>
          let bar_volume = int64_to_f64 symbol_volume;
              max_fill_quantity = bar_volume * pct
          in if max_fill_quantity < order_quantity ord
             then (max_fill_quantity, order_quantity ord - max_fill_quantity)
             else (order_quantity ord, 0)
      | None \<Rightarrow> (order_quantity ord, 0))"

definition calculate_position_opening_quantity :: "order \<Rightarrow> f64 \<Rightarrow> f64 \<Rightarrow> f64 \<Rightarrow> f64" where
  "calculate_position_opening_quantity ord fillable_quantity current_position_quantity new_position_quantity =
     (if order_is_buy ord then
        (if 0 \<le> current_position_quantity then fillable_quantity else f64_max 0 new_position_quantity)
      else if current_position_quantity \<le> 0 then fillable_quantity
      else f64_max 0 (- new_position_quantity))"

definition create_exit_orders :: "order \<Rightarrow> fill \<Rightarrow> state \<Rightarrow> f64 \<Rightarrow> f64 \<Rightarrow> exit_order list" where
  "create_exit_orders ord f st position_opening_quantity new_position_quantity =
     (if position_opening_quantity \<le> EPSILON then []
      else
        let is_short_position_fill = (order_is_sell ord \<and> new_position_quantity \<le> 0) in
        (case order_stop_loss_price ord of
           None \<Rightarrow> []
         | Some p \<Rightarrow> [Exit_stop_loss (mk_stop_loss (order_symbol ord) position_opening_quantity p (fill_price f)
                        (current_timestamp_ns st) (fill_uuid f) is_short_position_fill)]) @
        (case order_take_profit_price ord of
           None \<Rightarrow> []
         | Some p \<Rightarrow> [Exit_take_profit (mk_take_profit (order_symbol ord) position_opening_quantity p (fill_price f)
                        (current_timestamp_ns st) (fill_uuid f) is_short_position_fill)]))"

fun closing_loop ::
  "order \<Rightarrow> money \<Rightarrow> (string, f64) omap \<Rightarrow> (string, money) omap \<Rightarrow> fill list \<Rightarrow> f64 \<Rightarrow>
   closing_margin_info \<Rightarrow> closing_margin_info" where
  "closing_loop ord price active margins [] remaining info = info"
| "closing_loop ord price active margins (f # fs) remaining info =
     (if remaining \<le> EPSILON then info
      else
        let is_matching_fill = ((order_is_sell ord \<and> fill_is_buy f) \<or> (order_is_buy ord \<and> fill_is_sell f)) in
        if fill_symbol f = order_symbol ord \<and> is_matching_fill then
          (case omap_find active (fill_uuid f) of
             None \<Rightarrow> closing_loop ord price active margins fs remaining info
           | Some available \<Rightarrow>
               let to_close = f64_min available remaining;
                   released = (case omap_find margins (fill_uuid f) of
                                 None \<Rightarrow> margin_to_release info
                               | Some m \<Rightarrow> margin_to_release info + money_mul m (to_close / available));
                   pnl = (if order_is_sell ord
                          then realized_pnl info + money_mul (price - fill_price f) to_close
                          else realized_pnl info + money_mul (fill_price f - price) to_close)
               in closing_loop ord price active margins fs (remaining - to_close)
                    \<lparr>margin_to_release = released, realized_pnl = pnl\<rparr>)
        else closing_loop ord price active margins fs remaining info)"

definition calculate_closing_margin_info :: "order \<Rightarrow> money \<Rightarrow> f64 \<Rightarrow> state \<Rightarrow> closing_margin_info" where
  "calculate_closing_margin_info ord price position_closing_quantity st =
     (if position_closing_quantity \<le> EPSILON
      then \<lparr>margin_to_release = Money 0, realized_pnl = Money 0\<rparr>
      else
        let active_fills = (if order_is_sell ord then active_buy_fills st else active_sell_fills st) in
        closing_loop ord price active_fills (active_margin_for_fills (ledger st)) (fills st)
          position_closing_quantity \<lparr>margin_to_release = Money 0, realized_pnl = Money 0\<rparr>)"

definition calculate_cash_delta ::
  "order \<Rightarrow> money \<Rightarrow> f64 \<Rightarrow> money \<Rightarrow> f64 \<Rightarrow> money \<Rightarrow> state \<Rightarrow> money" where
  "calculate_cash_delta ord price fillable_quantity commission position_opening_quantity margin_required st =
     (let position_closing_quantity = fillable_quantity - position_opening_quantity;
          closing_info = calculate_closing_margin_info ord price position_closing_quantity st
      in if order_is_buy ord then
           let opening_cost = margin_required;
               closing_return = margin_to_release closing_info + realized_pnl closing_info
           in closing_return - opening_cost - commission
         else if order_is_sell ord then
           let opening_cost = margin_required;
               closing_return = margin_to_release closing_info + realized_pnl closing_info
           in closing_return - opening_cost - commission
         else Money 0)"

definition calculate_fill_price :: "order \<Rightarrow> money \<Rightarrow> money" where
  "calculate_fill_price ord current_bar_close =
     (if is_limit_order ord then
        (case order_limit_price ord of
           Some limit_price \<Rightarrow>
             if order_is_buy ord then min limit_price current_bar_close else max limit_price current_bar_close
         | None \<Rightarrow> current_bar_close)
      else current_bar_close)"

definition signal_to_order :: "signal \<Rightarrow> host_params \<Rightarrow> state \<Rightarrow> order result" where
  "signal_to_order sig hp st =
     bindR (calculate_signal_stop_loss_price sig hp st) (\<lambda>stop_loss_price.
     bindR (calculate_signal_take_profit_price sig hp st) (\<lambda>take_profit_price.
     bindR (calculate_signal_position_size sig hp st) (\<lambda>quantity.
       Inr (mk_order quantity (current_timestamp_ns st) (signal_symbol sig) (signal_action sig) MARKET
              None stop_loss_price take_profit_price))))"

definition calculate_margin_required :: "host_params \<Rightarrow> money \<Rightarrow> f64 \<Rightarrow> f64 \<Rightarrow> money" where
  "calculate_margin_required hp price position_opening_quantity leverage =
     (let initial_margin_pct = value_or (hp_initial_margin_pct hp) 1;
          opening_value_dollars = to_dollars price * position_opening_quantity;
          margin_from_leverage = opening_value_dollars / leverage;
          margin_from_initial = opening_value_dollars * initial_margin_pct
      in from_dollars (f64_max margin_from_leverage margin_from_initial))"

definition validate_margin ::
  "order \<Rightarrow> money \<Rightarrow> money \<Rightarrow> host_params \<Rightarrow> state \<Rightarrow> f64 \<Rightarrow> f64 \<Rightarrow> money \<Rightarrow> f64 \<Rightarrow> string option" where
  "validate_margin ord price commission hp st position_opening_quantity new_position_quantity
     margin_required fillable_quantity =
     (let leverage = value_or (order_leverage ord) 1;
          max_leverage = value_or (hp_max_leverage hp) 1
      in if (order_is_sell ord \<and> \<not> value_or (hp_allow_short_selling hp) True) \<and> new_position_quantity < 0
         then Some ''Short selling is not allowed''
         else if leverage < 1 then Some ''Leverage must be >= 1.0''
         else if max_leverage < leverage then Some ''Order leverage exceeds maximum allowed''
         else if position_opening_quantity \<le> EPSILON then
           let closing_info = calculate_closing_margin_info ord price fillable_quantity st;
               net_cash_flow = margin_to_release closing_info + realized_pnl closing_info - commission
           in if net_cash_flow < Money 0 \<and> cash st < Money 0 - net_cash_flow
              then Some ''Insufficient cash to close position.''
              else None
         else
           let total_required = margin_required + commission;
               available_margin = calculate_available_margin st
           in if available_margin < total_required then Some ''Insufficient margin.'' else None)"

text \<open>
  The second half of \<^verbatim>\<open>execute_order\<close>: the order passed the checks on its quantity, the bar and
  its source fill, and \<open>fillable_quantity\<close> has been cut to whole shares where required.
\<close>

definition execute_fillable ::
  "string \<Rightarrow> order \<Rightarrow> host_params \<Rightarrow> state \<Rightarrow> money \<Rightarrow> f64 \<Rightarrow> f64 \<Rightarrow> execution_result" where
  "execute_fillable uuid ord hp st close fillable_quantity remaining_quantity =
     (let price = calculate_fill_price ord close;
          symbol_position = get_symbol_position_or st (order_symbol ord) (mk_position (order_symbol ord) 0 (Money 0));
          current_position_quantity = (if has_symbol_position st (order_symbol ord) then pos_quantity symbol_position else 0);
          new_position_quantity = current_position_quantity +
            (if order_is_buy ord then fillable_quantity else - fillable_quantity);
          position_opening_quantity = calculate_position_opening_quantity ord fillable_quantity
            current_position_quantity new_position_quantity;
          commission = calculate_commision (mk_fill [] (order_symbol ord) (order_action ord) fillable_quantity price
            (current_timestamp_ns st) 1 (Money 0)) hp;
          leverage = value_or (order_leverage ord) 1;
          margin_required = (if EPSILON < position_opening_quantity
            then calculate_margin_required hp price position_opening_quantity leverage else Money 0)
      in case validate_margin ord price commission hp st position_opening_quantity new_position_quantity
                margin_required fillable_quantity of
           Some validation_error \<Rightarrow> Exec_error validation_error
         | None \<Rightarrow>
             let cash_delta = calculate_cash_delta ord price fillable_quantity commission position_opening_quantity
                   margin_required st;
                 f = mk_fill uuid (order_symbol ord) (order_action ord) fillable_quantity price
                   (current_timestamp_ns st) leverage margin_required;
                 exits = create_exit_orders ord f st position_opening_quantity new_position_quantity;
                 pos = calculate_position ord fillable_quantity price st;
                 partial_order = (if 0 < remaining_quantity
                   then Some (ord\<lparr>order_quantity := remaining_quantity, order_created_at_ns := current_timestamp_ns st\<rparr>)
                   else None)
             in Exec_success (mk_success cash_delta margin_required leverage partial_order pos f exits))"

definition execute_order :: "string \<Rightarrow> order \<Rightarrow> host_params \<Rightarrow> state \<Rightarrow> execution_result" where
  "execute_order uuid ord hp st =
     (if order_quantity ord \<le> 0 then Exec_error ''Order quantity must be positive''
      else case omap_find (current_bar_prices st) (order_symbol ord) of
        None \<Rightarrow> Exec_error (''No price data for symbol: '' @ order_symbol ord)
      | Some prices \<Rightarrow>
        (case omap_find (current_bar_volumes st) (order_symbol ord) of
           None \<Rightarrow> Exec_error (''No volume data for symbol: '' @ order_symbol ord)
         | Some vol \<Rightarrow>
             if order_is_exit_order ord \<and>
                (case order_source_fill_uuid ord of
                   None \<Rightarrow> False
                 | Some u \<Rightarrow> \<not> (omap_has (active_buy_fills st) u \<or> omap_has (active_sell_fills st) u))
             then Exec_error ''Exit order source fill no longer active - skipping''
             else
               let (fillable_quantity, remaining_quantity) = get_fillable_and_remaining_quantities ord hp vol in
               if \<not> value_or (hp_allow_fractional_shares hp) False then
                 let fillable_quantity = f64_floor fillable_quantity in
                 if fillable_quantity \<le> 0 then Exec_error ''Order quantity is too small to execute''
                 else execute_fillable uuid ord hp st (bp_close prices) fillable_quantity remaining_quantity
               else execute_fillable uuid ord hp st (bp_close prices) fillable_quantity remaining_quantity))"

section \<open>What a successful execution has passed\<close>

text \<open>The quantities \<open>execute_fillable\<close> computes before it decides.\<close>

definition signed_quantity :: "order \<Rightarrow> f64 \<Rightarrow> f64" where
  "signed_quantity ord q = (if order_is_buy ord then q else - q)"

definition opening_quantity :: "order \<Rightarrow> state \<Rightarrow> f64 \<Rightarrow> f64" where
  "opening_quantity ord st q =
     calculate_position_opening_quantity ord q (held_quantity (order_symbol ord) st)
       (held_quantity (order_symbol ord) st + signed_quantity ord q)"

definition order_commission :: "order \<Rightarrow> host_params \<Rightarrow> state \<Rightarrow> f64 \<Rightarrow> money \<Rightarrow> money" where
  "order_commission ord hp st q price =
     calculate_commision (mk_fill [] (order_symbol ord) (order_action ord) q price (current_timestamp_ns st) 1 (Money 0)) hp"

definition order_margin :: "order \<Rightarrow> host_params \<Rightarrow> state \<Rightarrow> f64 \<Rightarrow> money \<Rightarrow> money" where
  "order_margin ord hp st q price =
     (if EPSILON < opening_quantity ord st q
      then calculate_margin_required hp price (opening_quantity ord st q) (value_or (order_leverage ord) 1)
      else Money 0)"

lemma held_quantity_eq:
  "(if has_symbol_position st symbol then pos_quantity (get_symbol_position_or st symbol d) else 0) =
   held_quantity symbol st"
  by (simp add: has_symbol_position_def get_symbol_position_or_def held_quantity_def omap_has_def
      value_or_def split: option.splits)

lemma execute_fillable_cases:
  fixes ord hp st q price rem u close
  defines "price \<equiv> calculate_fill_price ord close"
  defines "new_q \<equiv> held_quantity (order_symbol ord) st + signed_quantity ord q"
  defines "open_q \<equiv> opening_quantity ord st q"
  defines "comm \<equiv> order_commission ord hp st q price"
  defines "marg \<equiv> order_margin ord hp st q price"
  defines "lev \<equiv> value_or (order_leverage ord) 1"
  defines "f \<equiv> mk_fill u (order_symbol ord) (order_action ord) q price (current_timestamp_ns st) lev marg"
  shows "execute_fillable u ord hp st close q rem =
    (case validate_margin ord price comm hp st open_q new_q marg q of
       Some e \<Rightarrow> Exec_error e
     | None \<Rightarrow> Exec_success (mk_success (calculate_cash_delta ord price q comm open_q marg st) marg lev
         (if 0 < rem then Some (ord\<lparr>order_quantity := rem, order_created_at_ns := current_timestamp_ns st\<rparr>) else None)
         (calculate_position ord q price st) f (create_exit_orders ord f st open_q new_q)))"
  unfolding execute_fillable_def Let_def held_quantity_eq assms order_margin_def opening_quantity_def
    signed_quantity_def order_commission_def ..

text \<open>The part of an order that the bar lets through, in whole shares unless fractions are allowed.\<close>

definition fillable_quantity :: "order \<Rightarrow> host_params \<Rightarrow> int64 \<Rightarrow> f64" where
  "fillable_quantity ord hp vol =
     (let q = fst (get_fillable_and_remaining_quantities ord hp vol)
      in if value_or (hp_allow_fractional_shares hp) False then q else f64_floor q)"

lemma execute_order_successE:
  assumes "execute_order u ord hp st = Exec_success r"
  obtains prices vol where
    "\<not> order_quantity ord \<le> 0"
    "omap_find (current_bar_prices st) (order_symbol ord) = Some prices"
    "omap_find (current_bar_volumes st) (order_symbol ord) = Some vol"
    "\<And>s. order_is_exit_order ord \<Longrightarrow> order_source_fill_uuid ord = Some s \<Longrightarrow>
       omap_has (active_buy_fills st) s \<or> omap_has (active_sell_fills st) s"
    "\<not> value_or (hp_allow_fractional_shares hp) False \<Longrightarrow> \<not> fillable_quantity ord hp vol \<le> 0"
    "execute_fillable u ord hp st (bp_close prices) (fillable_quantity ord hp vol)
       (snd (get_fillable_and_remaining_quantities ord hp vol)) = Exec_success r"
proof -
  obtain prices vol where
    a: "\<not> order_quantity ord \<le> 0"
      "omap_find (current_bar_prices st) (order_symbol ord) = Some prices"
      "omap_find (current_bar_volumes st) (order_symbol ord) = Some vol"
    using assms by (auto simp: execute_order_def split: if_splits option.splits)
  obtain q rem where g: "get_fillable_and_remaining_quantities ord hp vol = (q, rem)" by fastforce
  have b: "\<not> (order_is_exit_order ord \<and>
        (case order_source_fill_uuid ord of None \<Rightarrow> False
         | Some u \<Rightarrow> \<not> (omap_has (active_buy_fills st) u \<or> omap_has (active_sell_fills st) u)))"
    using assms a by (auto simp: execute_order_def split: if_splits)
  have c: "(if \<not> value_or (hp_allow_fractional_shares hp) False then
              (if f64_floor q \<le> 0 then Exec_error ''Order quantity is too small to execute''
               else execute_fillable u ord hp st (bp_close prices) (f64_floor q) rem)
            else execute_fillable u ord hp st (bp_close prices) q rem) = Exec_success r"
    using assms a b by (simp add: execute_order_def Let_def g split: if_splits)
  have "fillable_quantity ord hp vol = (if value_or (hp_allow_fractional_shares hp) False then q else f64_floor q)"
    by (simp add: fillable_quantity_def g)
  then show thesis
    using c g b by (intro that [OF a]) (auto split: if_splits)
qed

lemma execute_order_resultE:
  assumes "execute_order u ord hp st = Exec_success r"
  obtains prices vol q price where
    "omap_find (current_bar_prices st) (order_symbol ord) = Some prices"
    "omap_find (current_bar_volumes st) (order_symbol ord) = Some vol"
    "price = calculate_fill_price ord (bp_close prices)"
    "q = fillable_quantity ord hp vol"
    "validate_margin ord price (order_commission ord hp st q price) hp st (opening_quantity ord st q)
       (held_quantity (order_symbol ord) st + signed_quantity ord q) (order_margin ord hp st q price) q = None"
    "res_fill r = mk_fill u (order_symbol ord) (order_action ord) q price (current_timestamp_ns st)
       (value_or (order_leverage ord) 1) (order_margin ord hp st q price)"
    "res_margin_used r = order_margin ord hp st q price"
    "res_leverage r = value_or (order_leverage ord) 1"
    "res_cash_delta r = calculate_cash_delta ord price q (order_commission ord hp st q price)
       (opening_quantity ord st q) (order_margin ord hp st q price) st"
    "res_position r = calculate_position ord q price st"
    "res_exit_orders r = create_exit_orders ord (res_fill r) st (opening_quantity ord st q)
       (held_quantity (order_symbol ord) st + signed_quantity ord q)"
    "res_partial_order r = (if 0 < snd (get_fillable_and_remaining_quantities ord hp vol)
       then Some (ord\<lparr>order_quantity := snd (get_fillable_and_remaining_quantities ord hp vol),
                      order_created_at_ns := current_timestamp_ns st\<rparr>) else None)"
  using assms
proof (cases rule: execute_order_successE)
  case (1 prices vol)
  show ?thesis
    using 1(6) by (intro that [OF 1(2,3) refl refl])
      (auto simp: execute_fillable_cases mk_success_def split: option.splits)
qed

lemma mk_fill_simps [simp]:
  "fill_quantity (mk_fill u s a q p t l m) = q" "fill_price (mk_fill u s a q p t l m) = p"
  "fill_symbol (mk_fill u s a q p t l m) = s" "fill_uuid (mk_fill u s a q p t l m) = u"
  "fill_action (mk_fill u s a q p t l m) = a" "fill_leverage (mk_fill u s a q p t l m) = l"
  "fill_margin_used (mk_fill u s a q p t l m) = m" "fill_created_at_ns (mk_fill u s a q p t l m) = t"
  by (simp_all add: mk_fill_def)

lemma fill_side_mk_fill [simp]:
  "fill_is_buy (mk_fill u s (order_action ord) q p t l m) = order_is_buy ord"
  "fill_is_sell (mk_fill u s (order_action ord) q p t l m) = order_is_sell ord"
  by (simp_all add: fill_is_buy_def fill_is_sell_def order_is_buy_def order_is_sell_def)

lemma order_not_both: "order_is_buy ord \<Longrightarrow> \<not> order_is_sell ord"
  by (simp add: order_is_buy_def order_is_sell_def BUY_def SELL_def)

end
