(* ===== verification/Order_Books.thy ===== *)
theory Order_Books
  imports State
begin

text \<open>
  \<^verbatim>\<open>simulators/back_test/exit_order_book.cpp\<close> and \<^verbatim>\<open>limit_order_book.cpp\<close>: the pending stop-loss
  and take-profit orders, and the resting limit orders by symbol.

  The operations here change a book on its own.  The loops \<^verbatim>\<open>process_stop_loss_heap\<close>,
  \<^verbatim>\<open>process_take_profit_heap\<close>, \<^verbatim>\<open>process_buy_limits\<close> and \<^verbatim>\<open>process_sell_limits\<close> run a callback of
  the engine that changes the books while they are processed; they are in the theory of the
  engine.
\<close>

section \<open>Exit orders\<close>

record exit_order_book =
  stop_loss_heap :: "stop_loss_exit_order list"
  take_profit_heap :: "take_profit_exit_order list"

definition empty_exit_order_book :: exit_order_book where
  "empty_exit_order_book = \<lparr>stop_loss_heap = [], take_profit_heap = []\<rparr>"

definition add_exit_order :: "exit_order \<Rightarrow> exit_order_book \<Rightarrow> exit_order_book" where
  "add_exit_order ord book =
     (case ord of
        Exit_stop_loss e \<Rightarrow> book\<lparr>stop_loss_heap := heap_push sl_less e (stop_loss_heap book)\<rparr>
      | Exit_take_profit e \<Rightarrow> book\<lparr>take_profit_heap := max_push tp_greater e (take_profit_heap book)\<rparr>)"

text \<open>
  \<^verbatim>\<open>reduce_exit_orders_by_fill_uuid\<close> drains each heap into a vector and pushes the vector back;
  the two loops below are the two drains.
\<close>

function sl_reduce_loop ::
  "string \<Rightarrow> f64 \<Rightarrow> stop_loss_exit_order list \<Rightarrow> stop_loss_exit_order list \<Rightarrow> stop_loss_exit_order list" where
  "sl_reduce_loop uuid quantity_sold heap temp =
     (case heap_top heap of
        None \<Rightarrow> temp
      | Some e \<Rightarrow>
          sl_reduce_loop uuid quantity_sold (heap_pop sl_less heap)
            (if sl_fill_uuid e = uuid then
               (if quantity_sold < sl_trigger_quantity e
                then temp @ [e\<lparr>sl_trigger_quantity := sl_trigger_quantity e - quantity_sold\<rparr>]
                else temp)
             else temp @ [e]))"
  by pat_completeness auto
termination
  by (relation "measure (\<lambda>(u, q, heap, temp). length heap)")
    (auto simp: heap_top_def intro: size_heap_pop split: if_splits)

function tp_reduce_loop ::
  "string \<Rightarrow> f64 \<Rightarrow> take_profit_exit_order list \<Rightarrow> take_profit_exit_order list \<Rightarrow> take_profit_exit_order list" where
  "tp_reduce_loop uuid quantity_sold heap temp =
     (case max_top heap of
        None \<Rightarrow> temp
      | Some e \<Rightarrow>
          tp_reduce_loop uuid quantity_sold (max_pop tp_greater heap)
            (if tp_fill_uuid e = uuid then
               (if quantity_sold < tp_trigger_quantity e
                then temp @ [e\<lparr>tp_trigger_quantity := tp_trigger_quantity e - quantity_sold\<rparr>]
                else temp)
             else temp @ [e]))"
  by pat_completeness auto
termination
  by (relation "measure (\<lambda>(u, q, heap, temp). length heap)")
    (auto simp: heap_top_def intro: size_heap_pop split: if_splits)

declare sl_reduce_loop.simps [simp del] tp_reduce_loop.simps [simp del]

definition reduce_exit_orders_by_fill_uuid :: "string \<Rightarrow> f64 \<Rightarrow> exit_order_book \<Rightarrow> exit_order_book" where
  "reduce_exit_orders_by_fill_uuid uuid quantity_sold book =
     \<lparr>stop_loss_heap = fold (heap_push sl_less)
        (sl_reduce_loop uuid quantity_sold (stop_loss_heap book) []) [],
      take_profit_heap = fold (max_push tp_greater)
        (tp_reduce_loop uuid quantity_sold (take_profit_heap book) []) []\<rparr>"

definition reduce_exit_orders_by_fills :: "(string \<times> f64) list \<Rightarrow> exit_order_book \<Rightarrow> exit_order_book" where
  "reduce_exit_orders_by_fills closed_fills book =
     fold (\<lambda>(uuid, quantity). reduce_exit_orders_by_fill_uuid uuid quantity) closed_fills book"

section \<open>Limit orders\<close>

record limit_order_book =
  buy_limits :: "(string, limit_buy_order list) omap"
  sell_limits :: "(string, limit_sell_order list) omap"

definition empty_limit_order_book :: limit_order_book where
  "empty_limit_order_book = \<lparr>buy_limits = omap_empty, sell_limits = omap_empty\<rparr>"

text \<open>The heap of a symbol; \<^verbatim>\<open>map::operator[]\<close> makes an empty one where there is none.\<close>

definition heap_of :: "(string, 'a list) omap \<Rightarrow> string \<Rightarrow> 'a list" where
  "heap_of m symbol = value_or (omap_find m symbol) []"

definition add_limit_order :: "scheduled_limit_order \<Rightarrow> limit_order_book \<Rightarrow> limit_order_book" where
  "add_limit_order ord book =
     (case ord of
        Sched_limit_buy b \<Rightarrow>
          let symbol = order_symbol (lb_order b) in
          book\<lparr>buy_limits := omap_upd symbol (max_push lb_greater b (heap_of (buy_limits book) symbol))
                 (buy_limits book)\<rparr>
      | Sched_limit_sell s \<Rightarrow>
          let symbol = order_symbol (ls_order s) in
          book\<lparr>sell_limits := omap_upd symbol (heap_push ls_less s (heap_of (sell_limits book) symbol))
                 (sell_limits book)\<rparr>)"

definition cancel_orders_for_symbol :: "string \<Rightarrow> limit_order_book \<Rightarrow> limit_order_book" where
  "cancel_orders_for_symbol symbol book =
     \<lparr>buy_limits = omap_erase symbol (buy_limits book), sell_limits = omap_erase symbol (sell_limits book)\<rparr>"

definition limit_book_empty :: "limit_order_book \<Rightarrow> bool" where
  "limit_book_empty book \<longleftrightarrow>
     list_all (\<lambda>p. snd p = []) (buy_limits book) \<and> list_all (\<lambda>p. snd p = []) (sell_limits book)"

section \<open>Reducing exit orders\<close>

text \<open>What a sale of \<open>quantity_sold\<close> from a fill means for one exit order.\<close>

definition sl_reduce :: "string \<Rightarrow> f64 \<Rightarrow> stop_loss_exit_order \<Rightarrow> stop_loss_exit_order option" where
  "sl_reduce uuid quantity_sold e =
     (if sl_fill_uuid e \<noteq> uuid then Some e
      else if quantity_sold < sl_trigger_quantity e
      then Some (e\<lparr>sl_trigger_quantity := sl_trigger_quantity e - quantity_sold\<rparr>) else None)"

definition tp_reduce :: "string \<Rightarrow> f64 \<Rightarrow> take_profit_exit_order \<Rightarrow> take_profit_exit_order option" where
  "tp_reduce uuid quantity_sold e =
     (if tp_fill_uuid e \<noteq> uuid then Some e
      else if quantity_sold < tp_trigger_quantity e
      then Some (e\<lparr>tp_trigger_quantity := tp_trigger_quantity e - quantity_sold\<rparr>) else None)"

definition mset_option :: "'a option \<Rightarrow> 'a multiset" where
  "mset_option x = (case x of None \<Rightarrow> {#} | Some y \<Rightarrow> {#y#})"

lemma mset_option_simps [simp]: "mset_option None = {#}" "mset_option (Some y) = {#y#}"
  by (simp_all add: mset_option_def)

lemma heap_top_Some: "heap_top heap = Some e \<longleftrightarrow> heap \<noteq> [] \<and> e = hd heap"
  by (auto simp: heap_top_def)

lemma heap_top_None: "heap_top heap = None \<longleftrightarrow> heap = []"
  by (simp add: heap_top_def)

lemma mset_pop_sum:
  "heap_top heap = Some e \<Longrightarrow>
   (\<Sum>x\<in>#mset heap. f x) = f e + (\<Sum>x\<in>#mset (heap_pop bef heap). f x)"
proof -
  assume "heap_top heap = Some e"
  then have "mset heap = add_mset e (mset (heap_pop bef heap))"
    by (auto simp: heap_top_Some mset_heap_pop)
  then show ?thesis by simp
qed

lemma mset_sl_reduce_loop:
  "mset (sl_reduce_loop u q heap temp) = mset temp + (\<Sum>x\<in>#mset heap. mset_option (sl_reduce u q x))"
proof (induction u q heap temp rule: sl_reduce_loop.induct)
  case (1 u q heap temp)
  show ?case
  proof (cases "heap_top heap")
    case None
    then have "heap = []" by (simp add: heap_top_None)
    then show ?thesis by (subst sl_reduce_loop.simps) (simp add: heap_top_def)
  next
    case (Some e)
    then show ?thesis
      using 1 by (subst sl_reduce_loop.simps) (simp add: mset_pop_sum [OF Some, where bef = sl_less] sl_reduce_def [of u q e])
  qed
qed

lemma mset_tp_reduce_loop:
  "mset (tp_reduce_loop u q heap temp) = mset temp + (\<Sum>x\<in>#mset heap. mset_option (tp_reduce u q x))"
proof (induction u q heap temp rule: tp_reduce_loop.induct)
  case (1 u q heap temp)
  show ?case
  proof (cases "heap_top heap")
    case None
    then have "heap = []" by (simp add: heap_top_None)
    then show ?thesis by (subst tp_reduce_loop.simps) (simp add: heap_top_def)
  next
    case (Some e)
    then show ?thesis
      using 1 by (subst tp_reduce_loop.simps) (simp add: mset_pop_sum [OF Some, where bef = tp_greater] tp_reduce_def [of u q e])
  qed
qed

lemma is_heap_Nil [simp]: "is_heap bef []"
  by (simp add: is_heap_def)

text \<open>The shape that every operation keeps: both vectors are heaps.\<close>

definition exit_book_ok :: "exit_order_book \<Rightarrow> bool" where
  "exit_book_ok book \<longleftrightarrow> is_heap sl_less (stop_loss_heap book) \<and> is_heap tp_greater (take_profit_heap book)"

text \<open>
  One side of the limit book: a map of heaps whose orders are limit orders of that side, carry
  the key as their symbol and rest at their own limit price.
\<close>

definition side_ok :: "('a \<Rightarrow> 'a \<Rightarrow> bool) \<Rightarrow> ('a \<Rightarrow> order) \<Rightarrow> ('a \<Rightarrow> bool) \<Rightarrow> (string, 'a list) omap \<Rightarrow> bool" where
  "side_ok bef ord good m \<longleftrightarrow>
     omap_ok m \<and>
     (\<forall>p\<in>set m. is_heap bef (snd p) \<and> (\<forall>x\<in>set (snd p). order_symbol (ord x) = fst p \<and> good x))"

definition good_buy :: "limit_buy_order \<Rightarrow> bool" where
  "good_buy b \<longleftrightarrow> is_limit_order (lb_order b) \<and> order_is_buy (lb_order b) \<and> order_limit_price (lb_order b) = Some (lb_limit_price b)"

definition good_sell :: "limit_sell_order \<Rightarrow> bool" where
  "good_sell s \<longleftrightarrow> is_limit_order (ls_order s) \<and> \<not> order_is_buy (ls_order s) \<and> order_limit_price (ls_order s) = Some (ls_limit_price s)"

definition limit_book_ok :: "limit_order_book \<Rightarrow> bool" where
  "limit_book_ok book \<longleftrightarrow>
     side_ok lb_greater lb_order good_buy (buy_limits book) \<and> side_ok ls_less ls_order good_sell (sell_limits book)"

definition limit_order_ok :: "scheduled_limit_order \<Rightarrow> bool" where
  "limit_order_ok slo = (case slo of Sched_limit_buy b \<Rightarrow> good_buy b | Sched_limit_sell s \<Rightarrow> good_sell s)"

lemma reduce_exit_orders_ok: "exit_book_ok (reduce_exit_orders_by_fill_uuid u q book)"
  by (simp add: exit_book_ok_def reduce_exit_orders_by_fill_uuid_def
      sl_heap.pq.inv_push_all tp_heap.pq.inv_push_all)

lemma mset_reduce_exit_orders:
  "mset (stop_loss_heap (reduce_exit_orders_by_fill_uuid u q book)) =
     (\<Sum>e\<in>#mset (stop_loss_heap book). mset_option (sl_reduce u q e))"
  "mset (take_profit_heap (reduce_exit_orders_by_fill_uuid u q book)) =
     (\<Sum>e\<in>#mset (take_profit_heap book). mset_option (tp_reduce u q e))"
  by (simp_all add: reduce_exit_orders_by_fill_uuid_def sl_heap.pq.elems_push_all
      tp_heap.pq.elems_push_all mset_sl_reduce_loop mset_tp_reduce_loop)

lemma size_sum_mset_option: "size (\<Sum>x\<in>#M. mset_option (f x)) \<le> size M"
  by (induction M) (auto simp: mset_option_def split: option.splits)

lemma length_reduce_exit_orders:
  "length (stop_loss_heap (reduce_exit_orders_by_fill_uuid u q book)) \<le> length (stop_loss_heap book)"
  "length (take_profit_heap (reduce_exit_orders_by_fill_uuid u q book)) \<le> length (take_profit_heap book)"
  by (metis mset_reduce_exit_orders(1) size_mset size_sum_mset_option)
    (metis mset_reduce_exit_orders(2) size_mset size_sum_mset_option)

lemma length_reduce_exit_orders_by_fills:
  "length (stop_loss_heap (reduce_exit_orders_by_fills cs book)) \<le> length (stop_loss_heap book) \<and>
   length (take_profit_heap (reduce_exit_orders_by_fills cs book)) \<le> length (take_profit_heap book)"
proof (induction cs arbitrary: book)
  case Nil
  then show ?case by (simp add: reduce_exit_orders_by_fills_def)
next
  case (Cons c cs)
  obtain u q where "c = (u, q)" by (cases c)
  then show ?case
    using Cons [of "reduce_exit_orders_by_fill_uuid u q book"] length_reduce_exit_orders [of u q book]
    by (auto simp: reduce_exit_orders_by_fills_def)
qed

lemma reduce_exit_orders_by_fills_ok:
  "exit_book_ok book \<Longrightarrow> exit_book_ok (reduce_exit_orders_by_fills cs book)"
proof (induction cs arbitrary: book)
  case Nil
  then show ?case by (simp add: reduce_exit_orders_by_fills_def)
next
  case (Cons c cs)
  obtain u q where "c = (u, q)" by (cases c)
  then show ?case
    using Cons.IH [OF reduce_exit_orders_ok, of u q book]
    by (simp add: reduce_exit_orders_by_fills_def)
qed

lemma add_exit_order_ok: "exit_book_ok book \<Longrightarrow> exit_book_ok (add_exit_order e book)"
  by (auto simp: exit_book_ok_def add_exit_order_def sl_heap.heap_push_heap tp_heap.heap_push_heap
      split: exit_order.splits)

section \<open>Limit orders stay with their symbol\<close>

lemma heap_of_upd [simp]:
  "heap_of (omap_upd k h m) symbol = (if symbol = k then h else heap_of m symbol)"
  by (simp add: heap_of_def)

lemma side_okD:
  assumes "side_ok bef ord good m"
  shows "is_heap bef (heap_of m k)" and "x \<in> set (heap_of m k) \<Longrightarrow> order_symbol (ord x) = k \<and> good x"
proof -
  have "(k, h) \<in> set m" if "omap_find m k = Some h" for h
    using assms that by (simp add: side_ok_def in_omap_iff)
  then show "is_heap bef (heap_of m k)" "x \<in> set (heap_of m k) \<Longrightarrow> order_symbol (ord x) = k \<and> good x"
    using assms by (cases "omap_find m k"; fastforce simp: side_ok_def heap_of_def)+
qed

lemma set_omap_upd_subset: "set (omap_upd k v m) \<subseteq> insert (k, v) (set m)"
  by (induction m) (auto split: if_splits)

lemma side_ok_upd:
  assumes "side_ok bef ord good m" "is_heap bef h" "\<And>x. x \<in> set h \<Longrightarrow> order_symbol (ord x) = k \<and> good x"
  shows "side_ok bef ord good (omap_upd k h m)"
  using assms set_omap_upd_subset [of k h m] unfolding side_ok_def by fastforce

lemma side_ok_erase: "side_ok bef ord good m \<Longrightarrow> side_ok bef ord good (omap_erase k m)"
proof -
  assume a: "side_ok bef ord good m"
  have "set (omap_erase k m) \<subseteq> set m" by (simp add: omap_erase_def)
  then show ?thesis using a unfolding side_ok_def by blast
qed

lemma set_heap_push [simp]: "set (heap_push bef x heap) = insert x (set heap)"
  by (metis mset_heap_push set_mset_add_mset_insert set_mset_mset)

lemma set_heap_pop: "set (heap_pop bef heap) \<subseteq> set heap"
proof (cases "heap = []")
  case False
  then have "set_mset (mset (heap_pop bef heap)) \<subseteq> set_mset (mset heap)"
    unfolding mset_heap_pop [OF False] by (auto dest: in_diffD)
  then show ?thesis by simp
qed (simp add: heap_pop_def)

lemma side_ok_push:
  assumes "heap_order bef" "side_ok bef ord good m" "order_symbol (ord x) = k" "good x"
  shows "side_ok bef ord good (omap_upd k (heap_push bef x (heap_of m k)) m)"
proof (rule side_ok_upd [OF assms(2)])
  show "is_heap bef (heap_push bef x (heap_of m k))"
    using assms(2) by (intro heap_order.heap_push_heap [OF assms(1)] side_okD(1))
  show "y \<in> set (heap_push bef x (heap_of m k)) \<Longrightarrow> order_symbol (ord y) = k \<and> good y" for y
    using assms(3,4) side_okD(2) [OF assms(2), where k = k] by auto
qed

lemma side_ok_pop:
  assumes "heap_order bef" "side_ok bef ord good m"
  shows "side_ok bef ord good (omap_upd k (heap_pop bef (heap_of m k)) m)"
proof (rule side_ok_upd [OF assms(2)])
  show "is_heap bef (heap_pop bef (heap_of m k))"
    using assms(2) by (intro heap_order.heap_pop_heap [OF assms(1)] side_okD(1))
  show "y \<in> set (heap_pop bef (heap_of m k)) \<Longrightarrow> order_symbol (ord y) = k \<and> good y" for y
    using side_okD(2) [OF assms(2), where k = k] set_heap_pop [of bef "heap_of m k"] by blast
qed

lemma add_limit_order_ok:
  "limit_book_ok book \<Longrightarrow> limit_order_ok slo \<Longrightarrow> limit_book_ok (add_limit_order slo book)"
  by (cases slo) (simp_all add: limit_book_ok_def limit_order_ok_def add_limit_order_def Let_def side_ok_push
      lb_heap.heap_order_axioms ls_heap.heap_order_axioms)

lemma cancel_orders_for_symbol_ok: "limit_book_ok book \<Longrightarrow> limit_book_ok (cancel_orders_for_symbol k book)"
  by (simp add: limit_book_ok_def cancel_orders_for_symbol_def side_ok_erase)

end
