(* ===== verification/Abi_Converter.thy ===== *)
theory Abi_Converter
  imports State
begin

text \<open>
  \<^verbatim>\<open>simulators/back_test/abi_converter.cpp\<close>: the C view of the state that a plugin is given, and
  the C instructions it returns.  A pointer with its count is a list, so the counts are the
  lengths of the lists; the caches of the converter only keep the lists alive.
\<close>

section \<open>The C structures\<close>

record cfill =
  cfill_quantity :: f64
  cfill_price :: int64
  cfill_created_at_ns :: int64
  cfill_symbol :: string
  cfill_uuid :: string
  cfill_action :: string

record cstop_loss_exit_order =
  csl_is_triggered :: bool
  csl_trigger_quantity :: f64
  csl_stop_loss_price :: int64
  csl_price :: int64
  csl_created_at_ns :: int64
  csl_symbol :: string
  csl_fill_uuid :: string

record ctake_profit_exit_order =
  ctp_is_triggered :: bool
  ctp_trigger_quantity :: f64
  ctp_take_profit_price :: int64
  ctp_price :: int64
  ctp_created_at_ns :: int64
  ctp_symbol :: string
  ctp_fill_uuid :: string

datatype cexit_order =
    CExit_stop_loss cstop_loss_exit_order
  | CExit_take_profit ctake_profit_exit_order

record cposition =
  cpos_symbol :: string
  cpos_quantity :: f64
  cpos_average_price :: f64

record cequity_snapshot =
  ceq_timestamp_ns :: int64
  ceq_equity :: int64
  ceq_return :: f64
  ceq_max_drawdown :: f64
  ceq_sharpe_ratio :: f64
  ceq_sortino_ratio :: f64
  ceq_calmar_ratio :: f64
  ceq_tail_ratio :: f64
  ceq_value_at_risk :: f64
  ceq_conditional_value_at_risk :: f64

record cstate =
  cst_cash :: int64
  cst_positions :: "cposition list"
  cst_new_exit_orders :: "cexit_order list"
  cst_new_fills :: "cfill list"
  cst_equity_curve :: "cequity_snapshot list"

section \<open>To C\<close>

definition to_c_fill :: "fill \<Rightarrow> cfill" where
  "to_c_fill f =
     \<lparr>cfill_quantity = fill_quantity f,
      cfill_price = to_abi_int64 (fill_price f),
      cfill_created_at_ns = fill_created_at_ns f,
      cfill_symbol = fill_symbol f,
      cfill_uuid = fill_uuid f,
      cfill_action = fill_action f\<rparr>"

definition to_c_fills :: "fill list \<Rightarrow> cfill list" where
  "to_c_fills fs = map to_c_fill fs"

definition to_c_positions :: "(string, position) omap \<Rightarrow> cposition list" where
  "to_c_positions m =
     map (\<lambda>(symbol, p). \<lparr>cpos_symbol = symbol, cpos_quantity = pos_quantity p,
                         cpos_average_price = to_abi_double (pos_average_price p)\<rparr>) m"

definition to_c_equity_snapshots :: "equity_snapshot list \<Rightarrow> cequity_snapshot list" where
  "to_c_equity_snapshots curve =
     map (\<lambda>e. \<lparr>ceq_timestamp_ns = eq_timestamp_ns e,
               ceq_equity = to_abi_int64 (eq_equity e),
               ceq_return = eq_return e,
               ceq_max_drawdown = eq_max_drawdown e,
               ceq_sharpe_ratio = eq_sharpe_ratio e,
               ceq_sortino_ratio = eq_sortino_ratio e,
               ceq_calmar_ratio = eq_calmar_ratio e,
               ceq_tail_ratio = eq_tail_ratio e,
               ceq_value_at_risk = eq_value_at_risk e,
               ceq_conditional_value_at_risk = eq_conditional_value_at_risk e\<rparr>) curve"

definition to_c_stop_loss_exit_order :: "stop_loss_exit_order \<Rightarrow> cstop_loss_exit_order" where
  "to_c_stop_loss_exit_order e =
     \<lparr>csl_is_triggered = sl_is_triggered e,
      csl_trigger_quantity = sl_trigger_quantity e,
      csl_stop_loss_price = to_abi_int64 (sl_stop_loss_price e),
      csl_price = to_abi_int64 (sl_price e),
      csl_created_at_ns = sl_created_at_ns e,
      csl_symbol = sl_symbol e,
      csl_fill_uuid = sl_fill_uuid e\<rparr>"

definition to_c_take_profit_exit_order :: "take_profit_exit_order \<Rightarrow> ctake_profit_exit_order" where
  "to_c_take_profit_exit_order e =
     \<lparr>ctp_is_triggered = tp_is_triggered e,
      ctp_trigger_quantity = tp_trigger_quantity e,
      ctp_take_profit_price = to_abi_int64 (tp_take_profit_price e),
      ctp_price = to_abi_int64 (tp_price e),
      ctp_created_at_ns = tp_created_at_ns e,
      ctp_symbol = tp_symbol e,
      ctp_fill_uuid = tp_fill_uuid e\<rparr>"

definition to_c_exit_orders :: "exit_order list \<Rightarrow> cexit_order list" where
  "to_c_exit_orders es =
     map (\<lambda>e. case e of
            Exit_stop_loss s \<Rightarrow> CExit_stop_loss (to_c_stop_loss_exit_order s)
          | Exit_take_profit t \<Rightarrow> CExit_take_profit (to_c_take_profit_exit_order t)) es"

definition to_c_state :: "state \<Rightarrow> cstate" where
  "to_c_state st =
     \<lparr>cst_cash = to_abi_int64 (cash st),
      cst_positions = to_c_positions (positions st),
      cst_new_exit_orders = to_c_exit_orders (new_exit_orders st),
      cst_new_fills = to_c_fills (new_fills st),
      cst_equity_curve = to_c_equity_snapshots (equity_curve st)\<rparr>"

section \<open>From C\<close>

text \<open>\<open>now\<close> is the clock reading that stamps the signal or the order.\<close>

definition to_instruction :: "int64 \<Rightarrow> cinstruction \<Rightarrow> instruction result" where
  "to_instruction now c =
     (case c of
        CInstr_signal s \<Rightarrow> Inr (Instr_signal (signal_of_csignal now s))
      | CInstr_order o' \<Rightarrow> Inr (Instr_order (order_of_corder now o'))
      | CInstr_other t \<Rightarrow> Inl (Runtime_error ''Invalid instruction type''))"

text \<open>The loop over the instructions with a callback that changes a state \<open>'s\<close> and may throw.\<close>

fun iterate_c_instructions ::
  "(cinstruction \<Rightarrow> 's \<Rightarrow> 's result) \<Rightarrow> cinstruction list \<Rightarrow> 's \<Rightarrow> 's result" where
  "iterate_c_instructions callback [] s = Inr s"
| "iterate_c_instructions callback (c # cs) s =
     bindR (callback c s) (iterate_c_instructions callback cs)"

lemma iterate_c_instructions_inv:
  assumes "iterate_c_instructions callback cs s = Inr s'" and "P s"
    and "\<And>c s s'. c \<in> set cs \<Longrightarrow> P s \<Longrightarrow> callback c s = Inr s' \<Longrightarrow> P s'"
  shows "P s'"
  using assms by (induction cs arbitrary: s) (auto simp: bindR_eq_Inr)

end
