(* ===== verification/Engine.thy ===== *)
theory Engine
  imports Executor Order_Books Abi_Converter
begin

text \<open>
  \<^verbatim>\<open>simulators/back_test/back_test_engine.cpp\<close> with the processing loops of the two order books.

  The engine is a record of the account and the three books.  The loops of the books take a
  callback in the code; it always executes one order and handles the result, which changes the
  books while the loop runs over them, so here the loops are loops over the engine.

  Parameters: \<open>hp\<close>, the host parameters; \<open>uuids\<close>, the sequence of uuids that
  \<^verbatim>\<open>string_utils::create_uuid\<close> would produce, of which \<open>next_uuid\<close> counts the used ones; \<open>now\<close>,
  the clock reading that stamps instructions; and the plugin, as functions on a state \<open>'p\<close>.
\<close>

section \<open>State\<close>

record engine =
  eng_state :: state
  order_book :: "scheduled_order list"
  exit_book :: exit_order_book
  limit_book :: limit_order_book
  next_uuid :: nat

definition empty_engine :: engine where
  "empty_engine =
     \<lparr>eng_state = empty_state, order_book = [], exit_book = empty_exit_order_book,
      limit_book = empty_limit_order_book, next_uuid = 0\<rparr>"

section \<open>Scheduling\<close>

definition create_scheduled_order :: "order \<Rightarrow> host_params \<Rightarrow> state \<Rightarrow> scheduled_order" where
  "create_scheduled_order ord hp st =
     \<lparr>sched_order = ord, sched_fill_at_ns = calculate_slippage_time_ns ord hp st\<rparr>"

definition create_scheduled_limit_order :: "order \<Rightarrow> scheduled_limit_order result" where
  "create_scheduled_limit_order ord =
     (case order_limit_price ord of
        None \<Rightarrow> Inl (Runtime_error ''Cannot create limit order without limit price'')
      | Some p \<Rightarrow>
          if order_is_buy ord
          then Inr (Sched_limit_buy \<lparr>lb_order = ord, lb_limit_price = p\<rparr>)
          else Inr (Sched_limit_sell \<lparr>ls_order = ord, ls_limit_price = p\<rparr>))"

text \<open>An order goes to the limit book or, with its slippage delay, to the order book.\<close>

definition schedule_order :: "host_params \<Rightarrow> order \<Rightarrow> engine \<Rightarrow> engine result" where
  "schedule_order hp ord e =
     (if is_limit_order ord
      then bindR (create_scheduled_limit_order ord)
             (\<lambda>slo. Inr (e\<lparr>limit_book := add_limit_order slo (limit_book e)\<rparr>))
      else Inr (e\<lparr>order_book := heap_push sched_less (create_scheduled_order ord hp (eng_state e)) (order_book e)\<rparr>))"

section \<open>Handling an execution\<close>

definition reduce_closed :: "execution_success \<Rightarrow> engine \<Rightarrow> engine" where
  "reduce_closed r e =
     (let f = res_fill r;
          e1 = (if fill_is_sell f
                then e\<lparr>exit_book := reduce_exit_orders_by_fills
                         (find_buy_fill_uuids_closed_by_sell f (eng_state e)) (exit_book e)\<rparr>
                else e)
      in if fill_is_buy f
         then e1\<lparr>exit_book := reduce_exit_orders_by_fills
                   (find_sell_fill_uuids_closed_by_buy f (eng_state e1)) (exit_book e1)\<rparr>
         else e1)"

definition handle_execution_result :: "host_params \<Rightarrow> execution_result \<Rightarrow> engine \<Rightarrow> engine result" where
  "handle_execution_result hp result e =
     (case result of
        Exec_error msg \<Rightarrow> Inr e
      | Exec_success r \<Rightarrow>
          let e1 = reduce_closed r e;
              e2 = (if has_exit_strategy r
                    then e1\<lparr>exit_book := fold add_exit_order (res_exit_orders r) (exit_book e1)\<rparr>
                    else e1)
          in bindR (case res_partial_order r of
                      None \<Rightarrow> Inr e2
                    | Some partial_order \<Rightarrow> schedule_order hp partial_order e2)
               (\<lambda>e3. Inr (e3\<lparr>eng_state := update_state r (eng_state e3)\<rparr>)))"

text \<open>The body of every callback: execute one order and handle the result.\<close>

definition run_order :: "(nat \<Rightarrow> string) \<Rightarrow> host_params \<Rightarrow> order \<Rightarrow> engine \<Rightarrow> engine result" where
  "run_order uuids hp ord e =
     handle_execution_result hp (execute_order (uuids (next_uuid e)) ord hp (eng_state e))
       (e\<lparr>next_uuid := Suc (next_uuid e)\<rparr>)"

section \<open>The order book\<close>

text \<open>A round of a loop is \<open>None\<close> where the loop breaks.\<close>

definition order_book_round ::
  "(nat \<Rightarrow> string) \<Rightarrow> host_params \<Rightarrow> bar \<Rightarrow> engine \<Rightarrow> engine result option" where
  "order_book_round uuids hp b e =
     (case heap_top (order_book e) of
        None \<Rightarrow> None
      | Some scheduled \<Rightarrow>
          if bar_unix_ts_ns b < sched_fill_at_ns scheduled then None
          else Some (run_order uuids hp (sched_order scheduled)
                 (e\<lparr>order_book := heap_pop sched_less (order_book e)\<rparr>)))"

definition execute_order_book ::
  "(nat \<Rightarrow> string) \<Rightarrow> host_params \<Rightarrow> bar \<Rightarrow> engine \<Rightarrow> engine result option" where
  "execute_order_book uuids hp b e = loop_while (order_book_round uuids hp b) e"

section \<open>Limit orders\<close>

text \<open>
  The inner loops, over the heap of one symbol, and the iteration over the symbols.  What a
  callback adds to the limit book is the rest of a limit order of the same symbol and side, so
  the keys of the map do not change while it is iterated.
\<close>

definition buy_limit_round ::
  "(nat \<Rightarrow> string) \<Rightarrow> host_params \<Rightarrow> string \<Rightarrow> money \<Rightarrow> engine \<Rightarrow> engine result option" where
  "buy_limit_round uuids hp symbol current_bar_low e =
     (let limits = buy_limits (limit_book e); heap = heap_of limits symbol in
      case max_top heap of
        None \<Rightarrow> None
      | Some lo \<Rightarrow>
          if lb_limit_price lo < current_bar_low then None
          else Some (run_order uuids hp (lb_order lo)
                 (e\<lparr>limit_book := (limit_book e)\<lparr>buy_limits := omap_upd symbol (max_pop lb_greater heap) limits\<rparr>\<rparr>)))"

definition sell_limit_round ::
  "(nat \<Rightarrow> string) \<Rightarrow> host_params \<Rightarrow> string \<Rightarrow> money \<Rightarrow> engine \<Rightarrow> engine result option" where
  "sell_limit_round uuids hp symbol current_bar_high e =
     (let limits = sell_limits (limit_book e); heap = heap_of limits symbol in
      case heap_top heap of
        None \<Rightarrow> None
      | Some lo \<Rightarrow>
          if current_bar_high < ls_limit_price lo then None
          else Some (run_order uuids hp (ls_order lo)
                 (e\<lparr>limit_book := (limit_book e)\<lparr>sell_limits := omap_upd symbol (heap_pop ls_less heap) limits\<rparr>\<rparr>)))"

fun buy_limit_symbols ::
  "(nat \<Rightarrow> string) \<Rightarrow> host_params \<Rightarrow> string list \<Rightarrow> engine \<Rightarrow> engine result option" where
  "buy_limit_symbols uuids hp [] e = Some (Inr e)"
| "buy_limit_symbols uuids hp (symbol # rest) e =
     (if \<not> has_symbol_prices (eng_state e) symbol then buy_limit_symbols uuids hp rest e
      else case get_symbol_low (eng_state e) symbol of
             Inl x \<Rightarrow> Some (Inl x)
           | Inr low \<Rightarrow> bindRO (loop_while (buy_limit_round uuids hp symbol low) e) (buy_limit_symbols uuids hp rest))"

fun sell_limit_symbols ::
  "(nat \<Rightarrow> string) \<Rightarrow> host_params \<Rightarrow> string list \<Rightarrow> engine \<Rightarrow> engine result option" where
  "sell_limit_symbols uuids hp [] e = Some (Inr e)"
| "sell_limit_symbols uuids hp (symbol # rest) e =
     (if \<not> has_symbol_prices (eng_state e) symbol then sell_limit_symbols uuids hp rest e
      else case get_symbol_high (eng_state e) symbol of
             Inl x \<Rightarrow> Some (Inl x)
           | Inr high \<Rightarrow> bindRO (loop_while (sell_limit_round uuids hp symbol high) e) (sell_limit_symbols uuids hp rest))"

definition process_buy_limits :: "(nat \<Rightarrow> string) \<Rightarrow> host_params \<Rightarrow> engine \<Rightarrow> engine result option" where
  "process_buy_limits uuids hp e = buy_limit_symbols uuids hp (map fst (buy_limits (limit_book e))) e"

definition process_sell_limits :: "(nat \<Rightarrow> string) \<Rightarrow> host_params \<Rightarrow> engine \<Rightarrow> engine result option" where
  "process_sell_limits uuids hp e = sell_limit_symbols uuids hp (map fst (sell_limits (limit_book e))) e"

definition execute_limit_orders :: "(nat \<Rightarrow> string) \<Rightarrow> host_params \<Rightarrow> engine \<Rightarrow> engine result option" where
  "execute_limit_orders uuids hp e =
     bindRO (process_buy_limits uuids hp e) (process_sell_limits uuids hp)"

section \<open>An execution keeps the sizes that the loops decrease\<close>

lemma create_exit_orders_Nil:
  "order_stop_loss_price ord = None \<Longrightarrow> order_take_profit_price ord = None \<Longrightarrow>
   create_exit_orders ord f st q n = []"
  by (simp add: create_exit_orders_def Let_def)

lemma execute_order_no_exits:
  assumes "execute_order u ord hp st = Exec_success r"
    and "order_stop_loss_price ord = None" "order_take_profit_price ord = None"
  shows "res_exit_orders r = []"
  using assms
  by (auto simp: execute_fillable_cases mk_success_def create_exit_orders_Nil
      elim!: execute_order_successE split: option.splits)

lemma schedule_order_Inr: "\<exists>e'. schedule_order hp ord e = Inr e' \<and> exit_book e' = exit_book e \<and>
   eng_state e' = eng_state e \<and> next_uuid e' = next_uuid e"
  by (auto simp: schedule_order_def create_scheduled_limit_order_def is_limit_order_def split: option.splits)

text \<open>The exit book after an execution: closed quantities are taken off, new exit orders are added.\<close>

definition exit_book_after :: "execution_success \<Rightarrow> state \<Rightarrow> exit_order_book \<Rightarrow> exit_order_book" where
  "exit_book_after r st book =
     fold add_exit_order (res_exit_orders r)
       (reduce_exit_orders_by_fills
          (if fill_is_sell (res_fill r) then find_buy_fill_uuids_closed_by_sell (res_fill r) st
           else if fill_is_buy (res_fill r) then find_sell_fill_uuids_closed_by_buy (res_fill r) st else [])
          book)"

lemma fill_not_both: "fill_is_buy f \<Longrightarrow> \<not> fill_is_sell f"
  by (simp add: fill_is_buy_def fill_is_sell_def BUY_def SELL_def)

lemma reduce_exit_orders_by_fills_Nil [simp]: "reduce_exit_orders_by_fills [] book = book"
  by (simp add: reduce_exit_orders_by_fills_def)

lemma reduce_closed_simps [simp]:
  "eng_state (reduce_closed r e) = eng_state e" "order_book (reduce_closed r e) = order_book e"
  "limit_book (reduce_closed r e) = limit_book e" "next_uuid (reduce_closed r e) = next_uuid e"
  by (simp_all add: reduce_closed_def Let_def)

lemma exit_book_reduce_closed:
  "fold add_exit_order (res_exit_orders r) (exit_book (reduce_closed r e)) = exit_book_after r (eng_state e) (exit_book e)"
  using fill_not_both [of "res_fill r"] by (auto simp: reduce_closed_def Let_def exit_book_after_def)

lemma handle_success:
  "\<exists>e'. handle_execution_result hp (Exec_success r) e = Inr e' \<and>
     eng_state e' = update_state r (eng_state e) \<and>
     exit_book e' = exit_book_after r (eng_state e) (exit_book e) \<and> next_uuid e' = next_uuid e"
proof -
  define e2 where "e2 = (if has_exit_strategy r
    then (reduce_closed r e)\<lparr>exit_book := fold add_exit_order (res_exit_orders r) (exit_book (reduce_closed r e))\<rparr>
    else reduce_closed r e)"
  have e2: "exit_book e2 = exit_book_after r (eng_state e) (exit_book e)" "eng_state e2 = eng_state e"
    "next_uuid e2 = next_uuid e"
    by (auto simp: e2_def has_exit_strategy_def exit_book_reduce_closed [symmetric])
  show ?thesis
  proof (cases "res_partial_order r")
    case None
    then show ?thesis using e2 by (simp add: handle_execution_result_def Let_def flip: e2_def)
  next
    case (Some p)
    obtain e3 where "schedule_order hp p e2 = Inr e3" "exit_book e3 = exit_book e2"
      "eng_state e3 = eng_state e2" "next_uuid e3 = next_uuid e2"
      using schedule_order_Inr [of hp p e2] by blast
    then show ?thesis using Some e2 by (simp add: handle_execution_result_def Let_def flip: e2_def)
  qed
qed

lemma run_order_cases:
  obtains (error) msg where
      "execute_order (uuids (next_uuid e)) ord hp (eng_state e) = Exec_error msg"
      "run_order uuids hp ord e = Inr (e\<lparr>next_uuid := Suc (next_uuid e)\<rparr>)"
    | (success) r e' where
      "execute_order (uuids (next_uuid e)) ord hp (eng_state e) = Exec_success r"
      "run_order uuids hp ord e = Inr e'"
      "handle_execution_result hp (Exec_success r) (e\<lparr>next_uuid := Suc (next_uuid e)\<rparr>) = Inr e'"
      "eng_state e' = update_state r (eng_state e)"
      "exit_book e' = exit_book_after r (eng_state e) (exit_book e)"
      "next_uuid e' = Suc (next_uuid e)"
proof (cases "execute_order (uuids (next_uuid e)) ord hp (eng_state e)")
  case (Exec_error msg)
  then show ?thesis using error by (simp add: run_order_def handle_execution_result_def)
next
  case (Exec_success r)
  then show ?thesis
    using success handle_success [of hp r "e\<lparr>next_uuid := Suc (next_uuid e)\<rparr>"] by (auto simp: run_order_def)
qed

lemma run_close_length:
  assumes "order_stop_loss_price ord = None" "order_take_profit_price ord = None"
    and "run_order uuids hp ord e = Inr e'"
  shows "length (stop_loss_heap (exit_book e')) \<le> length (stop_loss_heap (exit_book e))"
    and "length (take_profit_heap (exit_book e')) \<le> length (take_profit_heap (exit_book e))"
proof -
  have "length (stop_loss_heap (exit_book e')) \<le> length (stop_loss_heap (exit_book e)) \<and>
        length (take_profit_heap (exit_book e')) \<le> length (take_profit_heap (exit_book e))"
  proof (cases rule: run_order_cases [of uuids e ord hp])
    case error
    then show ?thesis using assms(3) by auto
  next
    case (success r e2)
    then have "exit_book e' = exit_book_after r (eng_state e) (exit_book e)" using assms(3) by simp
    moreover have "res_exit_orders r = []" using success(1) assms(1,2) by (rule execute_order_no_exits)
    ultimately show ?thesis using length_reduce_exit_orders_by_fills by (simp add: exit_book_after_def)
  qed
  then show "length (stop_loss_heap (exit_book e')) \<le> length (stop_loss_heap (exit_book e))"
    and "length (take_profit_heap (exit_book e')) \<le> length (take_profit_heap (exit_book e))" by simp_all
qed

section \<open>Exit orders\<close>

definition sl_should_trigger :: "stop_loss_exit_order \<Rightarrow> money \<Rightarrow> money \<Rightarrow> bool" where
  "sl_should_trigger x current_bar_low current_bar_high =
     (if sl_is_short_position x then sl_stop_loss_price x \<le> current_bar_high
      else current_bar_low \<le> sl_stop_loss_price x)"

definition tp_should_trigger :: "take_profit_exit_order \<Rightarrow> money \<Rightarrow> money \<Rightarrow> bool" where
  "tp_should_trigger x current_bar_low current_bar_high =
     (if tp_is_short_position x then current_bar_low \<le> tp_take_profit_price x
      else tp_take_profit_price x \<le> current_bar_high)"

function process_stop_loss_loop ::
  "(nat \<Rightarrow> string) \<Rightarrow> host_params \<Rightarrow> stop_loss_exit_order list \<Rightarrow> engine \<Rightarrow> engine result" where
  "process_stop_loss_loop uuids hp not_triggered e =
     (let book = exit_book e; st = eng_state e in
      case heap_top (stop_loss_heap book) of
        None \<Rightarrow> Inr (e\<lparr>exit_book := book\<lparr>stop_loss_heap := fold (heap_push sl_less) not_triggered (stop_loss_heap book)\<rparr>\<rparr>)
      | Some x \<Rightarrow>
          let e1 = e\<lparr>exit_book := book\<lparr>stop_loss_heap := heap_pop sl_less (stop_loss_heap book)\<rparr>\<rparr> in
          if \<not> has_symbol_position st (sl_symbol x) then process_stop_loss_loop uuids hp not_triggered e1
          else if \<not> has_symbol_prices st (sl_symbol x) then process_stop_loss_loop uuids hp not_triggered e1
          else
            bindR (get_symbol_low st (sl_symbol x)) (\<lambda>current_bar_low.
            bindR (get_symbol_high st (sl_symbol x)) (\<lambda>current_bar_high.
              if sl_should_trigger x current_bar_low current_bar_high
              then bindR (run_order uuids hp (sl_to_close_instruction x) e1)
                     (process_stop_loss_loop uuids hp not_triggered)
              else process_stop_loss_loop uuids hp (not_triggered @ [x]) e1)))"
  by pat_completeness auto

lemma to_close_no_exits [simp]:
  "order_stop_loss_price (sl_to_close_instruction x) = None"
  "order_take_profit_price (sl_to_close_instruction x) = None"
  "order_stop_loss_price (tp_to_close_instruction y) = None"
  "order_take_profit_price (tp_to_close_instruction y) = None"
  by (simp_all add: sl_to_close_instruction_def tp_to_close_instruction_def mk_order_def)

termination process_stop_loss_loop
proof (relation "measure (\<lambda>(uuids, hp, nt, e). length (stop_loss_heap (exit_book e)))", goal_cases)
  case (4 uuids hp nt e book st x e1 low high e2)
  then have "length (stop_loss_heap (exit_book e2)) \<le> length (stop_loss_heap (exit_book e1))"
    by (intro run_close_length(1)) auto
  then show ?case using 4 size_heap_pop [of "stop_loss_heap book" sl_less] by (simp add: heap_top_Some)
qed (auto simp: heap_top_Some intro!: size_heap_pop)

function process_take_profit_loop ::
  "(nat \<Rightarrow> string) \<Rightarrow> host_params \<Rightarrow> take_profit_exit_order list \<Rightarrow> engine \<Rightarrow> engine result" where
  "process_take_profit_loop uuids hp not_triggered e =
     (let book = exit_book e; st = eng_state e in
      case max_top (take_profit_heap book) of
        None \<Rightarrow> Inr (e\<lparr>exit_book := book\<lparr>take_profit_heap := fold (max_push tp_greater) not_triggered (take_profit_heap book)\<rparr>\<rparr>)
      | Some x \<Rightarrow>
          let e1 = e\<lparr>exit_book := book\<lparr>take_profit_heap := max_pop tp_greater (take_profit_heap book)\<rparr>\<rparr> in
          if \<not> has_symbol_position st (tp_symbol x) then process_take_profit_loop uuids hp not_triggered e1
          else if \<not> has_symbol_prices st (tp_symbol x) then process_take_profit_loop uuids hp not_triggered e1
          else
            bindR (get_symbol_high st (tp_symbol x)) (\<lambda>current_bar_high.
            bindR (get_symbol_low st (tp_symbol x)) (\<lambda>current_bar_low.
              if tp_should_trigger x current_bar_low current_bar_high
              then bindR (run_order uuids hp (tp_to_close_instruction x) e1)
                     (process_take_profit_loop uuids hp not_triggered)
              else process_take_profit_loop uuids hp (not_triggered @ [x]) e1)))"
  by pat_completeness auto

termination process_take_profit_loop
proof (relation "measure (\<lambda>(uuids, hp, nt, e). length (take_profit_heap (exit_book e)))", goal_cases)
  case (4 uuids hp nt e book st x e1 low high e2)
  then have "length (take_profit_heap (exit_book e2)) \<le> length (take_profit_heap (exit_book e1))"
    by (intro run_close_length(2)) auto
  then show ?case using 4 size_heap_pop [of "take_profit_heap book" tp_greater] by (simp add: heap_top_Some)
qed (auto simp: heap_top_Some intro!: size_heap_pop)

declare process_stop_loss_loop.simps [simp del] process_take_profit_loop.simps [simp del]

definition process_stop_loss_heap :: "(nat \<Rightarrow> string) \<Rightarrow> host_params \<Rightarrow> engine \<Rightarrow> engine result" where
  "process_stop_loss_heap uuids hp e = process_stop_loss_loop uuids hp [] e"

definition process_take_profit_heap :: "(nat \<Rightarrow> string) \<Rightarrow> host_params \<Rightarrow> engine \<Rightarrow> engine result" where
  "process_take_profit_heap uuids hp e = process_take_profit_loop uuids hp [] e"

definition execute_exit_orders :: "(nat \<Rightarrow> string) \<Rightarrow> host_params \<Rightarrow> engine \<Rightarrow> engine result" where
  "execute_exit_orders uuids hp e =
     bindR (process_stop_loss_heap uuids hp e) (process_take_profit_heap uuids hp)"

section \<open>The plugin and the run\<close>

definition order_of_instruction :: "host_params \<Rightarrow> state \<Rightarrow> instruction \<Rightarrow> order result" where
  "order_of_instruction hp st i =
     (case i of Instr_signal s \<Rightarrow> signal_to_order s hp st | Instr_order ord \<Rightarrow> Inr ord)"

definition schedule_instruction :: "int64 \<Rightarrow> host_params \<Rightarrow> cinstruction \<Rightarrow> engine \<Rightarrow> engine result" where
  "schedule_instruction now hp c e =
     bindR (to_instruction now c) (\<lambda>i.
     bindR (order_of_instruction hp (eng_state e) i) (\<lambda>ord. schedule_order hp ord e))"

definition schedule_plugin_instructions :: "int64 \<Rightarrow> host_params \<Rightarrow> plugin_result \<Rightarrow> engine \<Rightarrow> engine result" where
  "schedule_plugin_instructions now hp result e =
     iterate_c_instructions (schedule_instruction now hp) (pr_instructions result) e"

text \<open>A result of the plugin that is not 0 stops the run; the message may be a null pointer.\<close>

definition check_result :: "string \<Rightarrow> plugin_result \<Rightarrow> unit result" where
  "check_result prefix result =
     (if pr_code result \<noteq> 0
      then (case pr_message result of
              None \<Rightarrow> Inl Logic_error
            | Some msg \<Rightarrow> Inl (Runtime_error (prefix @ msg)))
      else Inr ())"

text \<open>The functions of a plugin may throw.\<close>

type_synonym 'p on_bar = "'p \<Rightarrow> bar \<Rightarrow> cstate \<Rightarrow> plugin_result result \<times> 'p"
type_synonym 'p on_end = "'p \<Rightarrow> plugin_result result \<times> string option \<times> 'p"
type_synonym 'p free_string = "'p \<Rightarrow> string option \<Rightarrow> 'p"

definition run_bar ::
  "(nat \<Rightarrow> string) \<Rightarrow> int64 \<Rightarrow> host_params \<Rightarrow> 'p on_bar \<Rightarrow> bar \<Rightarrow> engine \<times> 'p \<Rightarrow> (engine \<times> 'p) result option" where
  "run_bar uuids now hp on_bar b ep =
     (let (e, p) = ep in
      if \<not> is_within_market_hour_restrictions (bar_unix_ts_ns b) hp then Some (Inr (e, p))
      else
        bindRO (execute_order_book uuids hp b (e\<lparr>eng_state := prepare_next_bar_state b (eng_state e)\<rparr>)) (\<lambda>e.
        bindRO (execute_limit_orders uuids hp e) (\<lambda>e.
        bindRO (Some (execute_exit_orders uuids hp e)) (\<lambda>e.
          let (answer, p') = on_bar p b (to_c_state (eng_state e)) in
          Some (bindR answer (\<lambda>result.
                bindR (check_result ''Plugin on_bar failed: '' result) (\<lambda>_.
                bindR (schedule_plugin_instructions now hp result e) (\<lambda>e.
                  Inr (e\<lparr>eng_state := clear_previous_bar_state (record_bar_equity_snapshot hp (eng_state e))\<rparr>, p')))))))))"

fun run_bars ::
  "(nat \<Rightarrow> string) \<Rightarrow> int64 \<Rightarrow> host_params \<Rightarrow> 'p on_bar \<Rightarrow> bar list \<Rightarrow> engine \<times> 'p \<Rightarrow> (engine \<times> 'p) result option" where
  "run_bars uuids now hp on_bar [] ep = Some (Inr ep)"
| "run_bars uuids now hp on_bar (b # bs) ep =
     bindRO (run_bar uuids now hp on_bar b ep) (run_bars uuids now hp on_bar bs)"

record back_test_report =
  some_value :: string
  another_value :: string

text \<open>
  \<^verbatim>\<open>BackTestEngine::run\<close> prepares the account, reads the bars of the plugin from the data store, shows them to
  the plugin one after the other and makes the report.  The two parts beside the read are here;
  \<open>run\<close> of the theory \<open>Forge\<close> has the read between them.
\<close>

definition prepare_engine :: "host_params \<Rightarrow> engine \<Rightarrow> engine" where
  "prepare_engine hp e = e\<lparr>eng_state := prepare_initial_state hp (eng_state e)\<rparr>"

definition run_on_bars ::
  "(nat \<Rightarrow> string) \<Rightarrow> int64 \<Rightarrow> host_params \<Rightarrow> 'p on_bar \<Rightarrow> 'p on_end \<Rightarrow> 'p free_string \<Rightarrow> bar list \<Rightarrow>
   engine \<times> 'p \<Rightarrow> (engine \<times> 'p \<times> back_test_report) result option" where
  "run_on_bars uuids now hp on_bar on_end free_string bars ep =
     bindRO (run_bars uuids now hp on_bar bars ep)
       (\<lambda>(e, p). let (answer, json_out, p') = on_end p in
          Some (bindR answer (\<lambda>result.
                bindR (check_result ''Plugin on_end failed: '' result) (\<lambda>_.
            Inr (e, free_string p' json_out,
                 \<lparr>some_value = ''some_value'', another_value = ''another_value''\<rparr>)))))"

end
