(* ===== verification/Engine_Invariants.thy ===== *)
theory Engine_Invariants
  imports Engine
begin

text \<open>
  What holds of the engine through a whole run.

  \<open>guarded_invariant\<close> is the contract of an invariant: every elementary change the loops of the
  engine make keeps it, where the orders concerned are admitted.  Inside the locale the invariant is
  carried through each loop, each handler and the run.  \<open>engine_invariant\<close> is the contract of an
  invariant that admits every order, and \<open>state_invariant\<close> the smaller contract of a predicate on the
  account alone; each gives the one before.
\<close>

section \<open>Every execution returns\<close>

lemma run_order_total: "\<exists>e'. run_order uuids hp ord e = Inr e'"
  by (rule run_order_cases [of uuids e ord hp]) blast+

lemma handle_total: "\<exists>e'. handle_execution_result hp result e = Inr e'"
  using handle_success [of hp _ e] by (cases result) (auto simp: handle_execution_result_def)

lemma symbol_prices_known:
  "has_symbol_prices st symbol \<Longrightarrow>
   \<exists>p. get_symbol_low st symbol = Inr (bp_low p) \<and> get_symbol_high st symbol = Inr (bp_high p) \<and>
       omap_find (current_bar_prices st) symbol = Some p"
  by (auto simp: has_symbol_prices_def omap_has_def get_symbol_low_def get_symbol_high_def omap_at_def)

section \<open>Induction over the exit loops\<close>

text \<open>
  The four ways a round of \<^verbatim>\<open>process_stop_loss_heap\<close> and \<^verbatim>\<open>process_take_profit_heap\<close> goes: the heap is
  empty, the order is dropped, it triggers, or it waits for the next bar.
\<close>

definition pop_sl :: "engine \<Rightarrow> engine" where
  "pop_sl e = e\<lparr>exit_book := (exit_book e)\<lparr>stop_loss_heap := heap_pop sl_less (stop_loss_heap (exit_book e))\<rparr>\<rparr>"

definition put_sl :: "stop_loss_exit_order list \<Rightarrow> engine \<Rightarrow> engine" where
  "put_sl xs e = e\<lparr>exit_book := (exit_book e)\<lparr>stop_loss_heap :=
     fold (heap_push sl_less) xs (stop_loss_heap (exit_book e))\<rparr>\<rparr>"

lemma length_pop_sl:
  "heap_top (stop_loss_heap (exit_book e)) = Some x \<Longrightarrow>
   length (stop_loss_heap (exit_book (pop_sl e))) < length (stop_loss_heap (exit_book e))"
  by (simp add: pop_sl_def heap_top_Some size_heap_pop)

lemma process_stop_loss_step:
  "process_stop_loss_loop u hp nt e =
     (case heap_top (stop_loss_heap (exit_book e)) of
        None \<Rightarrow> Inr (put_sl nt e)
      | Some x \<Rightarrow>
          if has_symbol_position (eng_state e) (sl_symbol x) \<and> has_symbol_prices (eng_state e) (sl_symbol x) then
            (let p = the (omap_find (current_bar_prices (eng_state e)) (sl_symbol x)) in
             if sl_should_trigger x (bp_low p) (bp_high p)
             then bindR (run_order u hp (sl_to_close_instruction x) (pop_sl e)) (process_stop_loss_loop u hp nt)
             else process_stop_loss_loop u hp (nt @ [x]) (pop_sl e))
          else process_stop_loss_loop u hp nt (pop_sl e))"
  using symbol_prices_known [of "eng_state e"]
  by (subst process_stop_loss_loop.simps) (force simp: Let_def pop_sl_def put_sl_def split: option.splits)

lemma process_stop_loss_induct [consumes 1, case_names stop drop trigger wait]:
  assumes "process_stop_loss_loop u hp nt e = Inr e'"
    and stop: "\<And>nt e. stop_loss_heap (exit_book e) = [] \<Longrightarrow> Q nt e (put_sl nt e)"
    and drop: "\<And>nt e x e'. heap_top (stop_loss_heap (exit_book e)) = Some x \<Longrightarrow>
      \<not> (has_symbol_position (eng_state e) (sl_symbol x) \<and> has_symbol_prices (eng_state e) (sl_symbol x)) \<Longrightarrow>
      Q nt (pop_sl e) e' \<Longrightarrow> Q nt e e'"
    and trigger: "\<And>nt e x p e1 e'. heap_top (stop_loss_heap (exit_book e)) = Some x \<Longrightarrow>
      has_symbol_position (eng_state e) (sl_symbol x) \<Longrightarrow>
      omap_find (current_bar_prices (eng_state e)) (sl_symbol x) = Some p \<Longrightarrow>
      sl_should_trigger x (bp_low p) (bp_high p) \<Longrightarrow>
      run_order u hp (sl_to_close_instruction x) (pop_sl e) = Inr e1 \<Longrightarrow> Q nt e1 e' \<Longrightarrow> Q nt e e'"
    and wait: "\<And>nt e x p e'. heap_top (stop_loss_heap (exit_book e)) = Some x \<Longrightarrow>
      has_symbol_position (eng_state e) (sl_symbol x) \<Longrightarrow>
      omap_find (current_bar_prices (eng_state e)) (sl_symbol x) = Some p \<Longrightarrow>
      \<not> sl_should_trigger x (bp_low p) (bp_high p) \<Longrightarrow> Q (nt @ [x]) (pop_sl e) e' \<Longrightarrow> Q nt e e'"
  shows "Q nt e e'"
  using assms(1)
proof (induction "length (stop_loss_heap (exit_book e))" arbitrary: nt e rule: less_induct)
  case less
  show ?case
  proof (cases "heap_top (stop_loss_heap (exit_book e))")
    case None
    then show ?thesis using stop [of e nt] less.prems
      by (subst (asm) process_stop_loss_step) (simp add: heap_top_None [symmetric])
  next
    case (Some x)
    note len = length_pop_sl [OF Some]
    show ?thesis
    proof (cases "has_symbol_position (eng_state e) (sl_symbol x) \<and> has_symbol_prices (eng_state e) (sl_symbol x)")
      case False
      then have "Q nt (pop_sl e) e'"
        using less.prems Some by (intro less.hyps [OF len]) (subst (asm) process_stop_loss_step, simp split: if_splits)
      then show ?thesis using drop Some False by blast
    next
      case True
      then obtain p where p: "omap_find (current_bar_prices (eng_state e)) (sl_symbol x) = Some p"
        using symbol_prices_known by blast
      show ?thesis
      proof (cases "sl_should_trigger x (bp_low p) (bp_high p)")
        case trig: True
        then obtain e1 where e1: "run_order u hp (sl_to_close_instruction x) (pop_sl e) = Inr e1"
          and rest: "process_stop_loss_loop u hp nt e1 = Inr e'"
          using less.prems Some True p by (subst (asm) process_stop_loss_step) (auto simp: Let_def bindR_eq_Inr)
        have "length (stop_loss_heap (exit_book e1)) < length (stop_loss_heap (exit_book e))"
          using run_close_length(1) [OF _ _ e1] len by simp
        then show ?thesis using trigger [OF Some _ p trig e1] True less.hyps rest by blast
      next
        case trig: False
        then have "Q (nt @ [x]) (pop_sl e) e'"
          using less.prems Some True p by (intro less.hyps [OF len]) (subst (asm) process_stop_loss_step, simp add: Let_def)
        then show ?thesis using wait [OF Some _ p trig] True by blast
      qed
    qed
  qed
qed

lemma process_stop_loss_total: "\<exists>e'. process_stop_loss_loop u hp nt e = Inr e'"
proof (induction "length (stop_loss_heap (exit_book e))" arbitrary: nt e rule: less_induct)
  case less
  show ?case
  proof (cases "heap_top (stop_loss_heap (exit_book e))")
    case None
    then show ?thesis by (subst process_stop_loss_step) simp
  next
    case (Some x)
    note len = length_pop_sl [OF Some]
    obtain e1 where e1: "run_order u hp (sl_to_close_instruction x) (pop_sl e) = Inr e1"
      using run_order_total by blast
    have len1: "length (stop_loss_heap (exit_book e1)) < length (stop_loss_heap (exit_book e))"
      using run_close_length(1) [OF _ _ e1] len by simp
    show ?thesis
      using less [OF len] less [OF len1] by (subst process_stop_loss_step) (simp add: Some e1 Let_def)
  qed
qed

definition pop_tp :: "engine \<Rightarrow> engine" where
  "pop_tp e = e\<lparr>exit_book := (exit_book e)\<lparr>take_profit_heap := heap_pop tp_greater (take_profit_heap (exit_book e))\<rparr>\<rparr>"

definition put_tp :: "take_profit_exit_order list \<Rightarrow> engine \<Rightarrow> engine" where
  "put_tp xs e = e\<lparr>exit_book := (exit_book e)\<lparr>take_profit_heap :=
     fold (heap_push tp_greater) xs (take_profit_heap (exit_book e))\<rparr>\<rparr>"

lemma length_pop_tp:
  "heap_top (take_profit_heap (exit_book e)) = Some x \<Longrightarrow>
   length (take_profit_heap (exit_book (pop_tp e))) < length (take_profit_heap (exit_book e))"
  by (simp add: pop_tp_def heap_top_Some size_heap_pop)

lemma process_take_profit_step:
  "process_take_profit_loop u hp nt e =
     (case heap_top (take_profit_heap (exit_book e)) of
        None \<Rightarrow> Inr (put_tp nt e)
      | Some x \<Rightarrow>
          if has_symbol_position (eng_state e) (tp_symbol x) \<and> has_symbol_prices (eng_state e) (tp_symbol x) then
            (let p = the (omap_find (current_bar_prices (eng_state e)) (tp_symbol x)) in
             if tp_should_trigger x (bp_low p) (bp_high p)
             then bindR (run_order u hp (tp_to_close_instruction x) (pop_tp e)) (process_take_profit_loop u hp nt)
             else process_take_profit_loop u hp (nt @ [x]) (pop_tp e))
          else process_take_profit_loop u hp nt (pop_tp e))"
  using symbol_prices_known [of "eng_state e"]
  by (subst process_take_profit_loop.simps) (force simp: Let_def pop_tp_def put_tp_def split: option.splits)

lemma process_take_profit_induct [consumes 1, case_names stop drop trigger wait]:
  assumes "process_take_profit_loop u hp nt e = Inr e'"
    and stop: "\<And>nt e. take_profit_heap (exit_book e) = [] \<Longrightarrow> Q nt e (put_tp nt e)"
    and drop: "\<And>nt e x e'. heap_top (take_profit_heap (exit_book e)) = Some x \<Longrightarrow>
      \<not> (has_symbol_position (eng_state e) (tp_symbol x) \<and> has_symbol_prices (eng_state e) (tp_symbol x)) \<Longrightarrow>
      Q nt (pop_tp e) e' \<Longrightarrow> Q nt e e'"
    and trigger: "\<And>nt e x p e1 e'. heap_top (take_profit_heap (exit_book e)) = Some x \<Longrightarrow>
      has_symbol_position (eng_state e) (tp_symbol x) \<Longrightarrow>
      omap_find (current_bar_prices (eng_state e)) (tp_symbol x) = Some p \<Longrightarrow>
      tp_should_trigger x (bp_low p) (bp_high p) \<Longrightarrow>
      run_order u hp (tp_to_close_instruction x) (pop_tp e) = Inr e1 \<Longrightarrow> Q nt e1 e' \<Longrightarrow> Q nt e e'"
    and wait: "\<And>nt e x p e'. heap_top (take_profit_heap (exit_book e)) = Some x \<Longrightarrow>
      has_symbol_position (eng_state e) (tp_symbol x) \<Longrightarrow>
      omap_find (current_bar_prices (eng_state e)) (tp_symbol x) = Some p \<Longrightarrow>
      \<not> tp_should_trigger x (bp_low p) (bp_high p) \<Longrightarrow> Q (nt @ [x]) (pop_tp e) e' \<Longrightarrow> Q nt e e'"
  shows "Q nt e e'"
  using assms(1)
proof (induction "length (take_profit_heap (exit_book e))" arbitrary: nt e rule: less_induct)
  case less
  show ?case
  proof (cases "heap_top (take_profit_heap (exit_book e))")
    case None
    then show ?thesis using stop [of e nt] less.prems
      by (subst (asm) process_take_profit_step) (simp add: heap_top_None [symmetric])
  next
    case (Some x)
    note len = length_pop_tp [OF Some]
    show ?thesis
    proof (cases "has_symbol_position (eng_state e) (tp_symbol x) \<and> has_symbol_prices (eng_state e) (tp_symbol x)")
      case False
      then have "Q nt (pop_tp e) e'"
        using less.prems Some by (intro less.hyps [OF len]) (subst (asm) process_take_profit_step, simp split: if_splits)
      then show ?thesis using drop Some False by blast
    next
      case True
      then obtain p where p: "omap_find (current_bar_prices (eng_state e)) (tp_symbol x) = Some p"
        using symbol_prices_known by blast
      show ?thesis
      proof (cases "tp_should_trigger x (bp_low p) (bp_high p)")
        case trig: True
        then obtain e1 where e1: "run_order u hp (tp_to_close_instruction x) (pop_tp e) = Inr e1"
          and rest: "process_take_profit_loop u hp nt e1 = Inr e'"
          using less.prems Some True p by (subst (asm) process_take_profit_step) (auto simp: Let_def bindR_eq_Inr)
        have "length (take_profit_heap (exit_book e1)) < length (take_profit_heap (exit_book e))"
          using run_close_length(2) [OF _ _ e1] len by simp
        then show ?thesis using trigger [OF Some _ p trig e1] True less.hyps rest by blast
      next
        case trig: False
        then have "Q (nt @ [x]) (pop_tp e) e'"
          using less.prems Some True p by (intro less.hyps [OF len]) (subst (asm) process_take_profit_step, simp add: Let_def)
        then show ?thesis using wait [OF Some _ p trig] True by blast
      qed
    qed
  qed
qed

lemma process_take_profit_total: "\<exists>e'. process_take_profit_loop u hp nt e = Inr e'"
proof (induction "length (take_profit_heap (exit_book e))" arbitrary: nt e rule: less_induct)
  case less
  show ?case
  proof (cases "heap_top (take_profit_heap (exit_book e))")
    case None
    then show ?thesis by (subst process_take_profit_step) simp
  next
    case (Some x)
    note len = length_pop_tp [OF Some]
    obtain e1 where e1: "run_order u hp (tp_to_close_instruction x) (pop_tp e) = Inr e1"
      using run_order_total by blast
    have len1: "length (take_profit_heap (exit_book e1)) < length (take_profit_heap (exit_book e))"
      using run_close_length(2) [OF _ _ e1] len by simp
    show ?thesis
      using less [OF len] less [OF len1] by (subst process_take_profit_step) (simp add: Some e1 Let_def)
  qed
qed

section \<open>The contract of an invariant\<close>

text \<open>The orders that the instructions of a result become are admitted.\<close>

definition asks_only :: "(host_params \<Rightarrow> order \<Rightarrow> bool) \<Rightarrow> host_params \<Rightarrow> int64 \<Rightarrow> plugin_result \<Rightarrow> bool" where
  "asks_only Q hp now result \<longleftrightarrow>
     (\<forall>c i ord st. c \<in> set (pr_instructions result) \<longrightarrow> to_instruction now c = Inr i \<longrightarrow>
        order_of_instruction hp st i = Inr ord \<longrightarrow> Q hp ord)"

text \<open>
  An invariant may say something of the orders and exit orders in the books.  Then it only has to
  bear the execution and the scheduling of orders that \<open>Q\<close> admits, and what it takes out of a book is
  admitted: orders by \<open>Q\<close>, stop losses by \<open>S\<close> and take profits by \<open>T\<close>.
\<close>

locale guarded_invariant =
  fixes P :: "(nat \<Rightarrow> string) \<Rightarrow> host_params \<Rightarrow> engine \<Rightarrow> bool"
    and Q :: "host_params \<Rightarrow> order \<Rightarrow> bool"
    and S :: "host_params \<Rightarrow> stop_loss_exit_order \<Rightarrow> bool"
    and T :: "host_params \<Rightarrow> take_profit_exit_order \<Rightarrow> bool"
  assumes keep_run_order: "P u hp e \<Longrightarrow> Q hp ord \<Longrightarrow> run_order u hp ord e = Inr e' \<Longrightarrow> P u hp e'"
    and keep_schedule: "P u hp e \<Longrightarrow> Q hp ord \<Longrightarrow> schedule_order hp ord e = Inr e' \<Longrightarrow> P u hp e'"
    and keep_pop_order: "P u hp e \<Longrightarrow> heap_top (order_book e) = Some s \<Longrightarrow>
      Q hp (sched_order s) \<and> P u hp (e\<lparr>order_book := heap_pop sched_less (order_book e)\<rparr>)"
    and keep_pop_buy: "P u hp e \<Longrightarrow> heap_top (heap_of (buy_limits (limit_book e)) k) = Some lo \<Longrightarrow>
      Q hp (lb_order lo) \<and> P u hp (e\<lparr>limit_book := (limit_book e)\<lparr>buy_limits :=
        omap_upd k (heap_pop lb_greater (heap_of (buy_limits (limit_book e)) k)) (buy_limits (limit_book e))\<rparr>\<rparr>)"
    and keep_pop_sell: "P u hp e \<Longrightarrow> heap_top (heap_of (sell_limits (limit_book e)) k) = Some a \<Longrightarrow>
      Q hp (ls_order a) \<and> P u hp (e\<lparr>limit_book := (limit_book e)\<lparr>sell_limits :=
        omap_upd k (heap_pop ls_less (heap_of (sell_limits (limit_book e)) k)) (sell_limits (limit_book e))\<rparr>\<rparr>)"
    and keep_pop_sl: "P u hp e \<Longrightarrow> heap_top (stop_loss_heap (exit_book e)) = Some x \<Longrightarrow>
      S hp x \<and> Q hp (sl_to_close_instruction x) \<and>
      P u hp (e\<lparr>exit_book := (exit_book e)\<lparr>stop_loss_heap := heap_pop sl_less (stop_loss_heap (exit_book e))\<rparr>\<rparr>)"
    and keep_pop_tp: "P u hp e \<Longrightarrow> heap_top (take_profit_heap (exit_book e)) = Some y \<Longrightarrow>
      T hp y \<and> Q hp (tp_to_close_instruction y) \<and>
      P u hp (e\<lparr>exit_book := (exit_book e)\<lparr>take_profit_heap := heap_pop tp_greater (take_profit_heap (exit_book e))\<rparr>\<rparr>)"
    and keep_push_sl: "P u hp e \<Longrightarrow> S hp x \<Longrightarrow> P u hp (e\<lparr>exit_book := (exit_book e)\<lparr>stop_loss_heap :=
      heap_push sl_less x (stop_loss_heap (exit_book e))\<rparr>\<rparr>)"
    and keep_push_tp: "P u hp e \<Longrightarrow> T hp y \<Longrightarrow> P u hp (e\<lparr>exit_book := (exit_book e)\<lparr>take_profit_heap :=
      heap_push tp_greater y (take_profit_heap (exit_book e))\<rparr>\<rparr>)"
    and keep_next_bar: "P u hp e \<Longrightarrow> P u hp (e\<lparr>eng_state := prepare_next_bar_state b (eng_state e)\<rparr>)"
    and keep_end_bar: "P u hp e \<Longrightarrow>
      P u hp (e\<lparr>eng_state := clear_previous_bar_state (record_bar_equity_snapshot hp (eng_state e))\<rparr>)"
begin

lemma keep_order_book:
  assumes "P u hp e" "execute_order_book u hp b e = Some (Inr e')"
  shows "P u hp e'"
proof -
  have "P u hp s'" if "P u hp s" "order_book_round u hp b s = Some (Inr s')" for s s'
    using that keep_run_order keep_pop_order by (fastforce simp: order_book_round_def split: option.splits if_splits)
  then show ?thesis
    using loop_while_inv [OF assms(2) [unfolded execute_order_book_def], of "P u hp"] assms(1) by blast
qed

lemma keep_buy_symbols:
  "P u hp e \<Longrightarrow> buy_limit_symbols u hp ks e = Some (Inr e') \<Longrightarrow> P u hp e'"
proof (induction u hp ks e rule: buy_limit_symbols.induct)
  case (2 u hp k ks e)
  have r: "P u hp s'" if "P u hp s" "buy_limit_round u hp k low s = Some (Inr s')" for s s' low
    using that keep_run_order keep_pop_buy by (fastforce simp: buy_limit_round_def Let_def split: option.splits if_splits)
  show ?case
  proof (cases "has_symbol_prices (eng_state e) k")
    case True
    then obtain low e1 where low: "get_symbol_low (eng_state e) k = Inr low"
      and l: "loop_while (buy_limit_round u hp k low) e = Some (Inr e1)"
      and n: "buy_limit_symbols u hp ks e1 = Some (Inr e')"
      using 2(4) symbol_prices_known [OF True] by (auto simp: bindRO_eq_Inr)
    have "P u hp e1" using loop_while_inv [OF l, of "P u hp"] 2(3) r by blast
    then show ?thesis using 2(2) [OF _ low l _ n] True by simp
  qed (use 2 in simp)
qed simp

lemma keep_sell_symbols:
  "P u hp e \<Longrightarrow> sell_limit_symbols u hp ks e = Some (Inr e') \<Longrightarrow> P u hp e'"
proof (induction u hp ks e rule: sell_limit_symbols.induct)
  case (2 u hp k ks e)
  have r: "P u hp s'" if "P u hp s" "sell_limit_round u hp k low s = Some (Inr s')" for s s' low
    using that keep_run_order keep_pop_sell by (fastforce simp: sell_limit_round_def Let_def split: option.splits if_splits)
  show ?case
  proof (cases "has_symbol_prices (eng_state e) k")
    case True
    then obtain high e1 where high: "get_symbol_high (eng_state e) k = Inr high"
      and l: "loop_while (sell_limit_round u hp k high) e = Some (Inr e1)"
      and n: "sell_limit_symbols u hp ks e1 = Some (Inr e')"
      using 2(4) symbol_prices_known [OF True] by (auto simp: bindRO_eq_Inr)
    have "P u hp e1" using loop_while_inv [OF l, of "P u hp"] 2(3) r by blast
    then show ?thesis using 2(2) [OF _ high l _ n] True by simp
  qed (use 2 in simp)
qed simp

lemma keep_push_sls: "P u hp e \<Longrightarrow> list_all (S hp) xs \<Longrightarrow> P u hp (e\<lparr>exit_book := (exit_book e)\<lparr>stop_loss_heap :=
    fold (heap_push sl_less) xs (stop_loss_heap (exit_book e))\<rparr>\<rparr>)"
proof (induction xs arbitrary: e)
  case (Cons x xs)
  show ?case using Cons.IH [OF keep_push_sl [OF Cons.prems(1), of x]] Cons.prems(2) by simp
qed simp

lemma keep_push_tps: "P u hp e \<Longrightarrow> list_all (T hp) xs \<Longrightarrow> P u hp (e\<lparr>exit_book := (exit_book e)\<lparr>take_profit_heap :=
    fold (heap_push tp_greater) xs (take_profit_heap (exit_book e))\<rparr>\<rparr>)"
proof (induction xs arbitrary: e)
  case (Cons x xs)
  show ?case using Cons.IH [OF keep_push_tp [OF Cons.prems(1), of x]] Cons.prems(2) by simp
qed simp

lemma popped_sl: "P u hp e \<Longrightarrow> heap_top (stop_loss_heap (exit_book e)) = Some x \<Longrightarrow>
    S hp x \<and> Q hp (sl_to_close_instruction x) \<and> P u hp (pop_sl e)"
  unfolding pop_sl_def by (rule keep_pop_sl)

lemma keep_stop_losses:
  assumes "process_stop_loss_loop u hp nt e = Inr e'" and "P u hp e" and "list_all (S hp) nt"
  shows "P u hp e'"
  using assms
proof (induction rule: process_stop_loss_induct)
  case (stop nt e)
  show ?case unfolding put_sl_def by (rule keep_push_sls [OF stop(2,3)])
next
  case (drop nt e x e')
  show ?case using drop(3,5) popped_sl [OF drop(4,1)] by blast
next
  case (trigger nt e x p e1 e')
  have "P u hp e1" using popped_sl [OF trigger(7,1)] keep_run_order [OF _ _ trigger(5)] by blast
  then show ?case using trigger(6,8) by blast
next
  case (wait nt e x p e')
  show ?case using wait(5,7) popped_sl [OF wait(6,1)] by simp
qed

lemma popped_tp: "P u hp e \<Longrightarrow> heap_top (take_profit_heap (exit_book e)) = Some x \<Longrightarrow>
    T hp x \<and> Q hp (tp_to_close_instruction x) \<and> P u hp (pop_tp e)"
  unfolding pop_tp_def by (rule keep_pop_tp)

lemma keep_take_profits:
  assumes "process_take_profit_loop u hp nt e = Inr e'" and "P u hp e" and "list_all (T hp) nt"
  shows "P u hp e'"
  using assms
proof (induction rule: process_take_profit_induct)
  case (stop nt e)
  show ?case unfolding put_tp_def by (rule keep_push_tps [OF stop(2,3)])
next
  case (drop nt e x e')
  show ?case using drop(3,5) popped_tp [OF drop(4,1)] by blast
next
  case (trigger nt e x p e1 e')
  have "P u hp e1" using popped_tp [OF trigger(7,1)] keep_run_order [OF _ _ trigger(5)] by blast
  then show ?case using trigger(6,8) by blast
next
  case (wait nt e x p e')
  show ?case using wait(5,7) popped_tp [OF wait(6,1)] by simp
qed

lemma keep_exit_orders:
  assumes "P u hp e" "execute_exit_orders u hp e = Inr e'"
  shows "P u hp e'"
proof -
  obtain e1 where "process_stop_loss_loop u hp [] e = Inr e1" "process_take_profit_loop u hp [] e1 = Inr e'"
    using assms(2) by (auto simp: execute_exit_orders_def process_stop_loss_heap_def
        process_take_profit_heap_def bindR_eq_Inr)
  then show ?thesis using keep_take_profits [OF _ keep_stop_losses [OF _ assms(1)]] by simp
qed

lemma keep_limit_orders:
  assumes "P u hp e" "execute_limit_orders u hp e = Some (Inr e')"
  shows "P u hp e'"
proof -
  obtain e1 where "process_buy_limits u hp e = Some (Inr e1)" "process_sell_limits u hp e1 = Some (Inr e')"
    using assms(2) by (auto simp: execute_limit_orders_def bindRO_eq_Inr)
  then show ?thesis
    using keep_buy_symbols [OF assms(1)] keep_sell_symbols unfolding process_buy_limits_def process_sell_limits_def by metis
qed

lemma keep_instructions:
  assumes "P u hp e" "asks_only Q hp now result" "schedule_plugin_instructions now hp result e = Inr e'"
  shows "P u hp e'"
proof -
  have "P u hp e' \<and> set cs \<subseteq> set (pr_instructions result)"
    if "iterate_c_instructions (schedule_instruction now hp) cs e = Inr e'" "P u hp e" "set cs \<subseteq> set (pr_instructions result)" for cs e e'
    using that
  proof (induction cs arbitrary: e)
    case (Cons c cs)
    obtain e1 where 1: "schedule_instruction now hp c e = Inr e1"
      and 2: "iterate_c_instructions (schedule_instruction now hp) cs e1 = Inr e'"
      using Cons.prems(1) by (auto simp: bindR_eq_Inr)
    obtain i ord where "to_instruction now c = Inr i" "order_of_instruction hp (eng_state e) i = Inr ord"
      and s: "schedule_order hp ord e = Inr e1"
      using 1 by (auto simp: schedule_instruction_def bindR_eq_Inr)
    then have "Q hp ord" using assms(2) Cons.prems(3) by (auto simp: asks_only_def)
    then show ?case using Cons.IH [OF 2 keep_schedule [OF Cons.prems(2) _ s]] Cons.prems(3) by simp
  qed simp
  then show ?thesis using assms(1,3) by (simp add: schedule_plugin_instructions_def)
qed

lemma keep_run_bar:
  assumes "P u hp e" "\<And>p c r. fst (on_bar p b c) = Inr r \<Longrightarrow> asks_only Q hp now r"
    and "run_bar u now hp on_bar b (e, p) = Some (Inr (e', p'))"
  shows "P u hp e'"
proof (cases "is_within_market_hour_restrictions (bar_unix_ts_ns b) hp")
  case True
  then obtain e1 e2 e3 e4 r where
    1: "execute_order_book u hp b (e\<lparr>eng_state := prepare_next_bar_state b (eng_state e)\<rparr>) = Some (Inr e1)" and
    2: "execute_limit_orders u hp e1 = Some (Inr e2)" and
    3: "execute_exit_orders u hp e2 = Inr e3" and
    4: "fst (on_bar p b (to_c_state (eng_state e3))) = Inr r" "schedule_plugin_instructions now hp r e3 = Inr e4" and
    5: "e' = e4\<lparr>eng_state := clear_previous_bar_state (record_bar_equity_snapshot hp (eng_state e4))\<rparr>"
    using assms(3) by (auto simp: run_bar_def Let_def split_beta bindRO_eq_Inr bindR_eq_Inr)
  have "P u hp e1" by (rule keep_order_book [OF keep_next_bar [OF assms(1)] 1])
  then have "P u hp e3" by (intro keep_exit_orders [OF keep_limit_orders [OF _ 2] 3])
  then show ?thesis unfolding 5 by (intro keep_end_bar keep_instructions [OF _ assms(2) [OF 4(1)] 4(2)])
qed (use assms in \<open>simp add: run_bar_def\<close>)

lemma keep_run_bars:
  assumes "\<And>b p c r. b \<in> set bs \<Longrightarrow> fst (on_bar p b c) = Inr r \<Longrightarrow> asks_only Q hp now r"
  shows "P u hp e \<Longrightarrow> run_bars u now hp on_bar bs (e, p) = Some (Inr (e', p')) \<Longrightarrow> P u hp e'"
  using assms
proof (induction bs arbitrary: e p)
  case (Cons b bs)
  then obtain e1 p1 where 1: "run_bar u now hp on_bar b (e, p) = Some (Inr (e1, p1))"
    and 2: "run_bars u now hp on_bar bs (e1, p1) = Some (Inr (e', p'))"
    by (auto simp: bindRO_eq_Inr)
  have "P u hp e1" by (rule keep_run_bar [OF Cons.prems(1) _ 1]) (rule Cons.prems(3), auto)
  then show ?case by (rule Cons.IH [OF _ 2]) (rule Cons.prems(3), auto)
qed simp

lemma keep_run:
  assumes "P u hp e"
    and "\<And>b p c r. b \<in> set bars \<Longrightarrow> fst (on_bar p b c) = Inr r \<Longrightarrow> asks_only Q hp now r"
    and "run_on_bars u now hp on_bar on_end free bars (e, p) = Some (Inr (e', p', report))"
  shows "P u hp e'"
proof -
  obtain p1 where "run_bars u now hp on_bar bars (e, p) = Some (Inr (e', p1))"
    using assms(3) by (auto simp: run_on_bars_def Let_def split_beta bindRO_eq_Inr bindR_eq_Inr)
  with assms(1) show ?thesis by (rule keep_run_bars [where bs = bars, rotated]) (rule assms(2))
qed

end

text \<open>An invariant that admits every order.\<close>

locale engine_invariant =
  fixes P :: "(nat \<Rightarrow> string) \<Rightarrow> host_params \<Rightarrow> engine \<Rightarrow> bool"
  assumes keep_run_order: "P u hp e \<Longrightarrow> run_order u hp ord e = Inr e' \<Longrightarrow> P u hp e'"
    and keep_schedule: "P u hp e \<Longrightarrow> schedule_order hp ord e = Inr e' \<Longrightarrow> P u hp e'"
    and keep_pop_order: "P u hp e \<Longrightarrow> P u hp (e\<lparr>order_book := heap_pop sched_less (order_book e)\<rparr>)"
    and keep_pop_buy: "P u hp e \<Longrightarrow> P u hp (e\<lparr>limit_book := (limit_book e)\<lparr>buy_limits :=
      omap_upd k (heap_pop lb_greater (heap_of (buy_limits (limit_book e)) k)) (buy_limits (limit_book e))\<rparr>\<rparr>)"
    and keep_pop_sell: "P u hp e \<Longrightarrow> P u hp (e\<lparr>limit_book := (limit_book e)\<lparr>sell_limits :=
      omap_upd k (heap_pop ls_less (heap_of (sell_limits (limit_book e)) k)) (sell_limits (limit_book e))\<rparr>\<rparr>)"
    and keep_pop_sl: "P u hp e \<Longrightarrow> P u hp (e\<lparr>exit_book := (exit_book e)\<lparr>stop_loss_heap :=
      heap_pop sl_less (stop_loss_heap (exit_book e))\<rparr>\<rparr>)"
    and keep_pop_tp: "P u hp e \<Longrightarrow> P u hp (e\<lparr>exit_book := (exit_book e)\<lparr>take_profit_heap :=
      heap_pop tp_greater (take_profit_heap (exit_book e))\<rparr>\<rparr>)"
    and keep_push_sl: "P u hp e \<Longrightarrow> P u hp (e\<lparr>exit_book := (exit_book e)\<lparr>stop_loss_heap :=
      heap_push sl_less x (stop_loss_heap (exit_book e))\<rparr>\<rparr>)"
    and keep_push_tp: "P u hp e \<Longrightarrow> P u hp (e\<lparr>exit_book := (exit_book e)\<lparr>take_profit_heap :=
      heap_push tp_greater y (take_profit_heap (exit_book e))\<rparr>\<rparr>)"
    and keep_next_bar: "P u hp e \<Longrightarrow> P u hp (e\<lparr>eng_state := prepare_next_bar_state b (eng_state e)\<rparr>)"
    and keep_end_bar: "P u hp e \<Longrightarrow>
      P u hp (e\<lparr>eng_state := clear_previous_bar_state (record_bar_equity_snapshot hp (eng_state e))\<rparr>)"
begin

sublocale any: guarded_invariant P "\<lambda>hp ord. True" "\<lambda>hp x. True" "\<lambda>hp y. True"
  by unfold_locales
    (erule (1) keep_run_order | erule (1) keep_schedule |
      intro conjI TrueI keep_pop_order keep_pop_buy keep_pop_sell keep_pop_sl keep_pop_tp keep_push_sl keep_push_tp
        keep_next_bar keep_end_bar, assumption?)+

lemmas keep_order_book = any.keep_order_book
lemmas keep_limit_orders = any.keep_limit_orders
lemmas keep_exit_orders = any.keep_exit_orders

lemma asks_anything: "asks_only (\<lambda>hp ord. True) hp now result"
  by (simp add: asks_only_def)

lemma keep_run:
  "P u hp e \<Longrightarrow> run_on_bars u now hp on_bar on_end free bars (e, p) = Some (Inr (e', p', report)) \<Longrightarrow> P u hp e'"
  by (rule any.keep_run [OF _ asks_anything])

end

text \<open>
  An invariant of the account.  It may depend on the number of uuids drawn so far, and it has to
  bear the draw of an execution that fails.
\<close>

locale state_invariant =
  fixes I :: "(nat \<Rightarrow> string) \<Rightarrow> host_params \<Rightarrow> nat \<Rightarrow> state \<Rightarrow> bool"
  assumes draw: "I u hp n st \<Longrightarrow> I u hp (Suc n) st"
    and execute: "I u hp n st \<Longrightarrow> execute_order (u n) ord hp st = Exec_success r \<Longrightarrow> I u hp (Suc n) (update_state r st)"
    and next_bar: "I u hp n st \<Longrightarrow> I u hp n (prepare_next_bar_state b st)"
    and snapshot: "I u hp n st \<Longrightarrow> I u hp n (record_bar_equity_snapshot hp st)"
    and clear: "I u hp n st \<Longrightarrow> I u hp n (clear_previous_bar_state st)"
begin

lemma run_order_keeps:
  assumes "I u hp (next_uuid e) (eng_state e)" "run_order u hp ord e = Inr e'"
  shows "I u hp (next_uuid e') (eng_state e')"
  using assms draw execute
  by (cases rule: run_order_cases [of u e ord hp]) auto

sublocale eng: engine_invariant "\<lambda>u hp e. I u hp (next_uuid e) (eng_state e)"
proof unfold_locales
  show "I u hp (next_uuid e') (eng_state e')"
    if "I u hp (next_uuid e) (eng_state e)" "run_order u hp ord e = Inr e'" for u hp ord e e'
    using that by (rule run_order_keeps)
  show "I u hp (next_uuid e') (eng_state e')"
    if "I u hp (next_uuid e) (eng_state e)" "schedule_order hp ord e = Inr e'" for u hp ord e e'
    using that schedule_order_Inr [of hp ord e] by auto
qed (simp_all add: next_bar snapshot clear)

end

end
