(* ===== verification/Accounting.thy ===== *)
theory Accounting
  imports Executor
begin

text \<open>
  Money and quantities across an execution.

  Closing a quantity is computed three times in the code: by \<^verbatim>\<open>calculate_closing_margin_info\<close>, for
  the cash, by \<^verbatim>\<open>reduce_active_*_fills_fifo\<close>, for the margin and the active quantities, and by
  \<^verbatim>\<open>find_*_fill_uuids_closed_by_*\<close>, for the exit orders.  The three agree; from this follow the
  statements about cash and margin of a whole execution.
\<close>

section \<open>The three closing loops\<close>

text \<open>The loops only look at the entries of the fills still to come.\<close>

definition agree_on :: "'k set \<Rightarrow> ('k, 'v) omap \<Rightarrow> ('k, 'v) omap \<Rightarrow> bool" where
  "agree_on K m m' \<longleftrightarrow> (\<forall>k\<in>K. omap_find m k = omap_find m' k)"

lemma agree_on_refl [simp]: "agree_on K m m"
  by (simp add: agree_on_def)

lemma agree_on_subset: "agree_on K m m' \<Longrightarrow> K' \<subseteq> K \<Longrightarrow> agree_on K' m m'"
  by (auto simp: agree_on_def)

lemma close_active_find [simp]:
  "k \<noteq> u \<Longrightarrow> omap_find (close_active u left m) k = omap_find m k"
  by (simp add: close_active_def)

lemma release_margin_find [simp]:
  "k \<noteq> u \<Longrightarrow> omap_find (active_margin_for_fills (release_margin u a c led)) k = omap_find (active_margin_for_fills led) k"
  by (auto simp: release_margin_def Let_def split: option.splits)

lemma release_margin_in_use:
  "margin_in_use (release_margin u a c led) = margin_in_use led -
     (case omap_find (active_margin_for_fills led) u of None \<Rightarrow> 0 | Some m \<Rightarrow> money_mul m (c / a))"
  by (auto simp: release_margin_def Let_def split: option.splits)

lemma agree_on_close:
  "agree_on (insert u K) m m' \<Longrightarrow> u \<notin> K \<Longrightarrow> agree_on K (close_active u left m) m'"
  unfolding agree_on_def by (metis close_active_find insertCI)

lemma agree_on_release:
  "agree_on (insert u K) (active_margin_for_fills led) m' \<Longrightarrow> u \<notin> K \<Longrightarrow>
   agree_on K (active_margin_for_fills (release_margin u a c led)) m'"
  unfolding agree_on_def by (metis release_margin_find insertCI)

lemma closing_loop_releases:
  assumes "distinct (map fill_uuid fs)"
    and "agree_on (fill_uuid ` set fs) active active0"
    and "agree_on (fill_uuid ` set fs) (active_margin_for_fills led) margins0"
    and "\<And>f. side f \<longleftrightarrow> (order_is_sell ord \<and> fill_is_buy f) \<or> (order_is_buy ord \<and> fill_is_sell f)"
  shows "margin_to_release (closing_loop ord price active0 margins0 fs rem info) =
    margin_to_release info + (margin_in_use led -
      margin_in_use (snd (fifo_loop side (order_symbol ord) fs rem (active, led))))"
  using assms(1-3)
proof (induction fs arbitrary: rem active led info)
  case (Cons f fs)
  let ?K = "fill_uuid ` set fs"
  have fresh: "fill_uuid f \<notin> ?K" and d: "distinct (map fill_uuid fs)" using Cons.prems(1) by auto
  have ag: "agree_on ?K active active0" "agree_on ?K (active_margin_for_fills led) margins0"
    using Cons.prems(2,3) by (auto intro: agree_on_subset)
  have same: "omap_find active0 (fill_uuid f) = omap_find active (fill_uuid f)"
    "omap_find margins0 (fill_uuid f) = omap_find (active_margin_for_fills led) (fill_uuid f)"
    using Cons.prems(2,3) by (auto simp: agree_on_def)
  show ?case
  proof (cases "rem \<le> EPSILON \<or> \<not> (fill_symbol f = order_symbol ord \<and> side f) \<or> omap_find active (fill_uuid f) = None")
    case True
    then show ?thesis using Cons.IH [OF d ag] assms(4) [of f] same by (auto simp: Let_def)
  next
    case False
    then obtain a where a: "omap_find active (fill_uuid f) = Some a" by blast
    let ?c = "f64_min a rem"
    have "margin_to_release (closing_loop ord price active0 margins0 fs (rem - ?c) i) = margin_to_release i +
        (margin_in_use (release_margin (fill_uuid f) a ?c led) - margin_in_use (snd (fifo_loop side (order_symbol ord) fs (rem - ?c)
          (close_active (fill_uuid f) (a - ?c) active, release_margin (fill_uuid f) a ?c led))))" for i
      using Cons.IH [OF d agree_on_close agree_on_release] Cons.prems(2,3) fresh by simp
    then show ?thesis
      using False a same assms(4) [of f]
      by (auto simp: Let_def release_margin_in_use split: option.splits)
  qed
qed simp

lemma closed_fills_reduce_active:
  assumes "distinct (map fill_uuid fs)" and "agree_on (fill_uuid ` set fs) active active0"
  shows "fst (fifo_loop side symbol fs rem (active, led)) =
    fold (\<lambda>(u, q) m. close_active u (the (omap_find m u) - q) m) (closed_fills_loop side symbol active0 fs rem) active"
  using assms
proof (induction fs arbitrary: rem active led)
  case (Cons f fs)
  let ?K = "fill_uuid ` set fs"
  have fresh: "fill_uuid f \<notin> ?K" and d: "distinct (map fill_uuid fs)" using Cons.prems(1) by auto
  have ag: "agree_on ?K active active0" using Cons.prems(2) by (auto intro: agree_on_subset)
  have same: "omap_find active0 (fill_uuid f) = omap_find active (fill_uuid f)"
    using Cons.prems(2) by (auto simp: agree_on_def)
  show ?case
  proof (cases "rem \<le> EPSILON \<or> \<not> (fill_symbol f = symbol \<and> side f) \<or> omap_find active (fill_uuid f) = None")
    case True
    then show ?thesis using Cons.IH [OF d ag] same by auto
  next
    case False
    then obtain a where a: "omap_find active (fill_uuid f) = Some a" by blast
    then show ?thesis
      using False same Cons.IH [OF d agree_on_close] Cons.prems(2) fresh by (simp add: Let_def)
  qed
qed simp

section \<open>Cash and margin of an execution\<close>

text \<open>The money an account holds outside of the value of its positions.\<close>

definition funds :: "state \<Rightarrow> money" where
  "funds st = cash st + margin_in_use (ledger st)"

lemma EPSILON_bounds: "EPSILON = Fin (rnd_rat (1 / 10000))" "0 \<le> EPSILON" "\<not> EPSILON < 0" "EPSILON \<noteq> NaN"
proof -
  show "EPSILON = Fin (rnd_rat (1 / 10000))"
    unfolding EPSILON_def by (rule f64_of_rat_finite) (use pow2_1000_ge in simp)
  show "EPSILON \<noteq> NaN" unfolding EPSILON_def by (cases rule: f64_of_rat_cases [of "1 / 10000"]) simp_all
  show "0 \<le> EPSILON" unfolding EPSILON_def by (rule f64_of_rat_nonneg) simp
  then show "\<not> EPSILON < 0" using f64_le_less_trans [of 0 EPSILON 0] by auto
qed

lemma not_EPSILON_less_0: "\<not> EPSILON < 0" "(0::f64) \<le> EPSILON"
  using EPSILON_bounds by simp_all

lemma calculate_closing_margin_info_tiny [simp]:
  "q \<le> EPSILON \<Longrightarrow> calculate_closing_margin_info ord price q st = \<lparr>margin_to_release = Money 0, realized_pnl = Money 0\<rparr>"
  by (simp add: calculate_closing_margin_info_def)

lemma cash_delta_eq:
  assumes "order_is_buy ord \<or> order_is_sell ord"
  shows "calculate_cash_delta ord price q comm open_q marg st =
    margin_to_release (calculate_closing_margin_info ord price (q - open_q) st) +
    realized_pnl (calculate_closing_margin_info ord price (q - open_q) st) - marg - comm"
  using assms by (auto simp: calculate_cash_delta_def Let_def)

lemma opening_quantity_all:
  "order_is_buy ord \<and> 0 \<le> held_quantity (order_symbol ord) st \<or>
   order_is_sell ord \<and> held_quantity (order_symbol ord) st \<le> 0 \<Longrightarrow> opening_quantity ord st q = q"
  using order_not_both [of ord] by (auto simp: opening_quantity_def calculate_position_opening_quantity_def)

lemma book_fill_opens:
  assumes "\<not> (if fill_is_buy (res_fill r) then held_quantity (fill_symbol (res_fill r)) st < 0
           else 0 < held_quantity (fill_symbol (res_fill r)) st)"
  shows "book_fill r st = open_fill r (fill_uuid (res_fill r), fill_quantity (res_fill r)) st"
  using assms by (simp add: book_fill_def populate_active_fills_def Let_def)

text \<open>Opening moves the margin out of the cash; only the commission leaves the account.\<close>

lemma opening_keeps_funds:
  assumes ex: "execute_order u ord hp st = Exec_success r"
    and side: "order_is_buy ord \<and> 0 \<le> held_quantity (order_symbol ord) st \<or>
               order_is_sell ord \<and> held_quantity (order_symbol ord) st \<le> 0"
    and q: "fill_quantity (res_fill r) = Fin x" "x \<noteq> 0"
    and m: "\<bar>int_of_int64 (to_microdollars (res_margin_used r))\<bar> < 2 ^ 53"
  shows "funds (update_state r st) =
    funds st - order_commission ord hp st (fill_quantity (res_fill r)) (fill_price (res_fill r))"
  using ex
proof (cases rule: execute_order_resultE)
  case (1 prices vol qq price)
  have qq: "qq = Fin x" using 1(6) q by simp
  have open_q: "opening_quantity ord st qq = qq" using side by (rule opening_quantity_all)
  have cd: "res_cash_delta r = 0 - res_margin_used r - order_commission ord hp st qq price"
    using side not_EPSILON_less_0 open_q unfolding 1(9) 1(7) qq
    by (subst cash_delta_eq) (auto simp flip: zero_money_def)
  define st1 where "st1 = st\<lparr>cash := cash st + res_cash_delta r, fills := fills st @ [res_fill r],
    new_fills := new_fills st @ [res_fill r]\<rparr>"
  have "held_quantity k st1 = held_quantity k st" for k by (simp add: st1_def held_quantity_def)
  then have "book_fill r st1 = open_fill r (u, qq) st1"
    using side order_not_both [of ord] 1(6) f64_le_asym by (subst book_fill_opens) auto
  moreover have "money_mul (res_margin_used r) (qq / fill_quantity (res_fill r)) = res_margin_used r"
    using m q(2) 1(6) unfolding qq by (simp add: f64_ratio_self money_mul_1)
  ultimately have "margin_in_use (ledger (update_state r st)) = margin_in_use (ledger st) + res_margin_used r"
    by (simp add: st1_def [symmetric]) (simp add: open_fill_def Let_def st1_def)
  then show ?thesis using cd 1(6) by (simp add: funds_def)
qed

lemma fifo_loop_snoc: "\<not> side f \<Longrightarrow> fifo_loop side symbol (fs @ [f]) rem al = fifo_loop side symbol fs rem al"
proof (induction fs arbitrary: rem al)
  case Nil
  then show ?case by (cases al) simp
next
  case (Cons g fs)
  then show ?case by (cases al) (auto simp: Let_def split: option.splits)
qed

lemma closing_loop_tiny: "rem \<le> EPSILON \<Longrightarrow> closing_loop ord price active margins fs rem info = info"
  by (cases fs) simp_all

lemma calculate_closing_margin_info_eq:
  "calculate_closing_margin_info ord price q st =
     closing_loop ord price (if order_is_sell ord then active_buy_fills st else active_sell_fills st)
       (active_margin_for_fills (ledger st)) (fills st) q \<lparr>margin_to_release = Money 0, realized_pnl = Money 0\<rparr>"
  by (simp add: calculate_closing_margin_info_def closing_loop_tiny)

text \<open>The active fills that an order of the given side closes, and the loop that closes them.\<close>

definition closing_ledger :: "order \<Rightarrow> f64 \<Rightarrow> state \<Rightarrow> margin_ledger" where
  "closing_ledger ord q st =
     snd (if order_is_sell ord then fifo_loop fill_is_buy (order_symbol ord) (fills st) q (active_buy_fills st, ledger st)
          else fifo_loop fill_is_sell (order_symbol ord) (fills st) q (active_sell_fills st, ledger st))"

lemma closing_info_releases:
  assumes "order_is_buy ord \<or> order_is_sell ord" "distinct (map fill_uuid (fills st))"
  shows "margin_to_release (calculate_closing_margin_info ord price q st) =
    margin_in_use (ledger st) - margin_in_use (closing_ledger ord q st)"
proof (cases "order_is_sell ord")
  case True
  then have side: "fill_is_buy f \<longleftrightarrow> (order_is_sell ord \<and> fill_is_buy f) \<or> (order_is_buy ord \<and> fill_is_sell f)" for f
    using order_not_both [of ord] by blast
  show ?thesis
    unfolding calculate_closing_margin_info_eq closing_ledger_def
    using True closing_loop_releases [OF assms(2) agree_on_refl agree_on_refl side]
    by (simp add: zero_money_def [symmetric])
next
  case False
  then have side: "fill_is_sell f \<longleftrightarrow> (order_is_sell ord \<and> fill_is_buy f) \<or> (order_is_buy ord \<and> fill_is_sell f)" for f
    using assms(1) by blast
  show ?thesis
    unfolding calculate_closing_margin_info_eq closing_ledger_def
    using False closing_loop_releases [OF assms(2) agree_on_refl agree_on_refl side]
    by (simp add: zero_money_def [symmetric])
qed

section \<open>The margin in use and the margins of the active fills\<close>

text \<open>
  The running total \<^verbatim>\<open>margin_in_use_\<close> is the sum of the margins of the active fills plus the rests
  that were dropped with their entries; each rest is at most \<^verbatim>\<open>EPSILON\<close> dollars, and there are no
  more rests and entries together than \<open>n\<close>.
\<close>

definition drift :: "margin_ledger \<Rightarrow> money list \<Rightarrow> nat \<Rightarrow> bool" where
  "drift led ds n \<longleftrightarrow>
     omap_ok (active_margin_for_fills led) \<and>
     margin_in_use led = omap_sum (active_margin_for_fills led) + sum_list ds \<and>
     (\<forall>d\<in>set ds. to_dollars d \<le> EPSILON) \<and> length ds + length (active_margin_for_fills led) \<le> n"

lemma recalculate_margin_in_use_eq: "recalculate_margin_in_use st = omap_sum (active_margin_for_fills (ledger st))"
proof -
  have "foldl (\<lambda>acc arg. acc + snd arg) a xs = a + sum_list (map snd xs)" for a :: money and xs :: "(string \<times> money) list"
    by (induction xs arbitrary: a) (simp_all add: add.assoc)
  then show ?thesis by (simp add: recalculate_margin_in_use_def omap_sum_def zero_money_def [symmetric])
qed

lemma release_margin_drift:
  assumes "drift led ds n"
  shows "\<exists>ds'. drift (release_margin u a c led) ds' n"
proof (cases "omap_find (active_margin_for_fills led) u")
  case None
  then show ?thesis using assms by (auto simp: release_margin_def)
next
  case (Some m)
  let ?M = "active_margin_for_fills led"
  let ?left = "m - money_mul m (c / a)"
  have ok: "omap_ok ?M" "omap_has ?M u" using assms Some by (simp_all add: drift_def omap_has_def)
  show ?thesis
  proof (cases "to_dollars ?left \<le> EPSILON")
    case True
    then have "drift (release_margin u a c led) (?left # ds) n"
      using assms Some omap_sum_erase [OF ok(1), of u] omap_length_erase [OF ok(2)]
      by (auto simp: drift_def release_margin_def Let_def algebra_simps)
    then show ?thesis by blast
  next
    case False
    then have "drift (release_margin u a c led) ds n"
      using assms Some ok omap_sum_upd [OF ok(1), of u ?left] omap_length_upd [OF ok(1), of u ?left]
      by (auto simp: drift_def release_margin_def Let_def algebra_simps)
    then show ?thesis by blast
  qed
qed

text \<open>What every round of the loop passes on, the loop passes on.\<close>

lemma fifo_loop_rel:
  assumes refl: "\<And>active led. Q (active, led) (active, led)"
    and step: "\<And>u a rem active led y. omap_find active u = Some a \<Longrightarrow>
      Q (close_active u (a - f64_min a rem) active, release_margin u a (f64_min a rem) led) y \<Longrightarrow> Q (active, led) y"
  shows "Q (active, led) (fifo_loop side symbol fs rem (active, led))"
proof (induction fs arbitrary: rem active led)
  case Nil
  show ?case by (simp add: refl)
next
  case (Cons f fs)
  consider "rem \<le> EPSILON" | "\<not> rem \<le> EPSILON" "\<not> (fill_symbol f = symbol \<and> side f)"
    | "\<not> rem \<le> EPSILON" "fill_symbol f = symbol \<and> side f" "omap_find active (fill_uuid f) = None"
    | a where "\<not> rem \<le> EPSILON" "fill_symbol f = symbol \<and> side f" "omap_find active (fill_uuid f) = Some a"
    by blast
  then show ?case
  proof cases
    case 1
    then show ?thesis by (simp add: refl)
  next
    case 2
    then show ?thesis using Cons by auto
  next
    case 3
    then show ?thesis using Cons by simp
  next
    case 4
    then have "fifo_loop side symbol (f # fs) rem (active, led) = fifo_loop side symbol fs (rem - f64_min a rem)
        (close_active (fill_uuid f) (a - f64_min a rem) active, release_margin (fill_uuid f) a (f64_min a rem) led)"
      by (simp add: Let_def)
    then show ?thesis using step [OF 4(3) Cons.IH] by simp
  qed
qed

lemma fifo_loop_drift:
  assumes "drift led ds n"
  shows "\<exists>ds'. drift (snd (fifo_loop side symbol fs rem (active, led))) ds' n"
  using fifo_loop_rel [where Q = "\<lambda>x y. (\<exists>ds. drift (snd x) ds n) \<longrightarrow> (\<exists>ds. drift (snd y) ds n)"]
    assms release_margin_drift by (metis snd_conv)

lemma release_margin_keys: "omap_has (active_margin_for_fills (release_margin u a c led)) k \<Longrightarrow> omap_has (active_margin_for_fills led) k"
  by (auto simp: release_margin_def Let_def omap_has_def split: option.splits if_splits)

lemma close_active_keys: "omap_has (close_active u left m) k \<Longrightarrow> omap_has m u \<Longrightarrow> omap_has m k"
  by (auto simp: close_active_def split: if_splits)

lemma fifo_loop_keys:
  assumes "omap_has (fst (fifo_loop side symbol fs rem (active, led))) k"
  shows "omap_has active k"
proof -
  have "omap_has (fst (fifo_loop side symbol fs rem (active, led))) k \<longrightarrow> omap_has (fst (active, led)) k"
    by (rule fifo_loop_rel [where Q = "\<lambda>x y. omap_has (fst y) k \<longrightarrow> omap_has (fst x) k"])
      (auto simp: omap_has_def close_active_def split: if_splits)
  then show ?thesis using assms by simp
qed

lemma fifo_loop_margin_keys:
  assumes "omap_has (active_margin_for_fills (snd (fifo_loop side symbol fs rem (active, led)))) k"
  shows "omap_has (active_margin_for_fills led) k"
proof -
  have "omap_has (active_margin_for_fills (snd (fifo_loop side symbol fs rem (active, led)))) k \<longrightarrow>
      omap_has (active_margin_for_fills (snd (active, led))) k"
    by (rule fifo_loop_rel [where Q = "\<lambda>x y. omap_has (active_margin_for_fills (snd y)) k \<longrightarrow>
          omap_has (active_margin_for_fills (snd x)) k"])
      (use release_margin_keys in auto)
  then show ?thesis using assms by simp
qed

lemma fifo_loop_ok:
  assumes "omap_ok active"
  shows "omap_ok (fst (fifo_loop side symbol fs rem (active, led)))"
proof -
  have "omap_ok (fst (active, led)) \<longrightarrow> omap_ok (fst (fifo_loop side symbol fs rem (active, led)))"
    by (rule fifo_loop_rel [where Q = "\<lambda>x y. omap_ok (fst x) \<longrightarrow> omap_ok (fst y)"]) (auto simp: close_active_def)
  then show ?thesis using assms by simp
qed

end
