(* ===== verification/Run_Properties.thy ===== *)
theory Run_Properties
  imports Engine_Invariants Accounting
begin

text \<open>
  Invariants of a run: the shape of the books, positions under a ban on short selling, the
  identity of fills, and the equity curve.  Each is an interpretation of \<open>engine_invariant\<close> or
  \<open>state_invariant\<close>.
\<close>

section \<open>The books\<close>

definition books_ok :: "engine \<Rightarrow> bool" where
  "books_ok e \<longleftrightarrow> is_heap sched_less (order_book e) \<and> exit_book_ok (exit_book e) \<and> limit_book_ok (limit_book e)"

lemma create_scheduled_limit_order_ok:
  "is_limit_order ord \<Longrightarrow> create_scheduled_limit_order ord = Inr slo \<Longrightarrow> limit_order_ok slo"
  by (auto simp: create_scheduled_limit_order_def limit_order_ok_def good_buy_def good_sell_def
      split: option.splits if_splits)

lemma schedule_order_books: "books_ok e \<Longrightarrow> schedule_order hp ord e = Inr e' \<Longrightarrow> books_ok e'"
  by (auto simp: books_ok_def schedule_order_def bindR_eq_Inr add_limit_order_ok sched_heap.heap_push_heap
      create_scheduled_limit_order_ok split: if_splits)

lemma fold_add_exit_order_ok: "exit_book_ok book \<Longrightarrow> exit_book_ok (fold add_exit_order es book)"
  by (induction es arbitrary: book) (simp_all add: add_exit_order_ok)

lemma handle_books:
  assumes "books_ok e" "handle_execution_result hp result e = Inr e'"
  shows "books_ok e'"
proof (cases result)
  case (Exec_success r)
  have 1: "books_ok (reduce_closed r e)"
    using assms(1) by (simp add: books_ok_def) (simp add: reduce_closed_def Let_def reduce_exit_orders_by_fills_ok)
  then have 2: "books_ok ((reduce_closed r e)\<lparr>exit_book := fold add_exit_order (res_exit_orders r) (exit_book (reduce_closed r e))\<rparr>)"
    by (simp add: books_ok_def fold_add_exit_order_ok)
  have 3: "books_ok (x\<lparr>eng_state := s\<rparr>) \<longleftrightarrow> books_ok x" for x s by (simp add: books_ok_def)
  show ?thesis
    using assms(2) 1 2 3 schedule_order_books unfolding Exec_success handle_execution_result_def
    by (auto simp: Let_def bindR_eq_Inr split: option.splits if_splits)
qed (use assms in \<open>simp add: handle_execution_result_def\<close>)

interpretation books: engine_invariant "\<lambda>u hp e. books_ok e"
proof unfold_locales
  show "books_ok e'" if "books_ok e" "run_order u hp ord e = Inr e'" for u hp ord e e'
  proof -
    have "books_ok (e\<lparr>next_uuid := Suc (next_uuid e)\<rparr>)" using that(1) by (simp add: books_ok_def)
    then show ?thesis using that(2) unfolding run_order_def by (rule handle_books)
  qed
  show "books_ok e'" if "books_ok e" "schedule_order hp ord e = Inr e'" for hp ord e e'
    using that by (rule schedule_order_books)
qed (simp_all add: books_ok_def exit_book_ok_def limit_book_ok_def side_ok_pop
      lb_heap.heap_order_axioms ls_heap.heap_order_axioms sched_heap.heap_pop_heap
      sl_heap.heap_pop_heap tp_heap.heap_pop_heap sl_heap.heap_push_heap tp_heap.heap_push_heap)

lemma books_ok_empty: "books_ok empty_engine"
  by (simp add: books_ok_def empty_engine_def exit_book_ok_def limit_book_ok_def side_ok_def
      empty_exit_order_book_def empty_limit_order_book_def omap_empty_def)

section \<open>No short positions\<close>

text \<open>
  With short selling forbidden and whole shares only, no position is below zero.  A quantity
  that is not a number is not excluded.
\<close>

definition no_shorts :: "host_params \<Rightarrow> state \<Rightarrow> bool" where
  "no_shorts hp st \<longleftrightarrow>
     hp_allow_short_selling hp = Some False \<longrightarrow> \<not> value_or (hp_allow_fractional_shares hp) False \<longrightarrow>
     (\<forall>p\<in>set (positions st). \<not> pos_quantity (snd p) < 0)"

lemma f64_add_not_neg:
  assumes "\<not> a < 0" "\<not> b < (0::f64)"
  shows "\<not> a + b < 0"
proof (cases "a = NaN \<or> b = NaN")
  case True
  then have "a + b = NaN" by (cases a; cases b; simp add: plus_f64_def)
  then show ?thesis by simp
next
  case False
  have "(0::f64) \<noteq> NaN" by (simp add: zero_f64_def)
  then have "0 \<le> a" "0 \<le> b"
    using assms False f64_not_less [of a 0] f64_not_less [of b 0] by simp_all
  then have "0 \<le> a + b" by (rule f64_add_nonneg)
  then show ?thesis using f64_le_less_trans [of 0 "a + b" 0] by auto
qed

lemma f64_sub_eq: "a - b = a + (- b)" for a b :: f64
  by (simp add: f64_ops)

lemma calculate_position_quantity:
  "pos_quantity (calculate_position ord q price st) \<in>
     {0, held_quantity (order_symbol ord) st + signed_quantity ord q, held_quantity (order_symbol ord) st}"
  "order_is_buy ord \<or> order_is_sell ord \<Longrightarrow> pos_quantity (calculate_position ord q price st) \<in>
     {0, held_quantity (order_symbol ord) st + signed_quantity ord q}"
  by (auto simp: calculate_position_def Let_def held_quantity_def signed_quantity_def value_or_def mk_position_def
      f64_sub_eq order_is_buy_def order_is_sell_def split: option.splits)

lemma held_not_short:
  "\<forall>p\<in>set (positions st). \<not> pos_quantity (snd p) < 0 \<Longrightarrow> \<not> held_quantity k st < 0"
  by (fastforce simp: held_quantity_def omap_find_def zero_f64_def split: option.splits dest: map_of_SomeD)

lemma validate_margin_no_short:
  assumes "validate_margin ord price comm hp st open_q new_q marg q = None"
    and "hp_allow_short_selling hp = Some False" "order_is_sell ord"
  shows "\<not> new_q < 0"
  using assms by (auto simp: validate_margin_def Let_def split: if_splits)

lemma execute_no_short:
  assumes "execute_order u ord hp st = Exec_success r"
    and hp: "hp_allow_short_selling hp = Some False" "\<not> value_or (hp_allow_fractional_shares hp) False"
    and st: "\<forall>p\<in>set (positions st). \<not> pos_quantity (snd p) < 0"
  shows "\<not> pos_quantity (res_position r) < 0"
  using assms(1)
proof (cases rule: execute_order_successE)
  case (1 prices vol)
  let ?q = "fillable_quantity ord hp vol"
  let ?new = "held_quantity (order_symbol ord) st + signed_quantity ord ?q"
  have q: "\<not> ?q < 0" using 1(5) hp f64_less_imp_le by blast
  have held: "\<not> held_quantity (order_symbol ord) st < 0" using held_not_short [OF st] .
  obtain price comm open_q marg where
    val: "validate_margin ord price comm hp st open_q ?new marg ?q = None"
    and pos: "res_position r = calculate_position ord ?q price st"
    using 1(6) by (auto simp: execute_fillable_cases mk_success_def split: option.splits)
  have "order_is_buy ord \<Longrightarrow> \<not> ?new < 0"
    using f64_add_not_neg [OF held q] by (simp add: signed_quantity_def)
  moreover have "order_is_sell ord \<Longrightarrow> \<not> ?new < 0"
    using validate_margin_no_short [OF val hp(1)] by simp
  moreover have "\<not> order_is_buy ord \<Longrightarrow> \<not> order_is_sell ord \<Longrightarrow>
      pos_quantity (res_position r) \<in> {0, held_quantity (order_symbol ord) st}"
    unfolding pos by (auto simp: calculate_position_def Let_def held_quantity_def value_or_def mk_position_def split: option.splits)
  ultimately show ?thesis
    using calculate_position_quantity(2) [of ord ?q price st] held unfolding pos by fastforce
qed

lemma set_omap_erase_subset: "set (omap_erase k m) \<subseteq> set m"
  by (simp add: omap_erase_def)

lemma positions_update_subset:
  "p \<in> set (positions (update_state r st)) \<Longrightarrow> p = (pos_symbol (res_position r), res_position r) \<or> p \<in> set (positions st)"
  using set_omap_upd_subset [of "pos_symbol (res_position r)" "res_position r" "positions st"]
    set_omap_erase_subset [of "pos_symbol (res_position r)" "positions st"]
  by (auto split: if_splits)

interpretation no_short: state_invariant "\<lambda>u hp n st. no_shorts hp st"
proof unfold_locales
  show "no_shorts hp (update_state r st)"
    if "no_shorts hp st" "execute_order (u n) ord hp st = Exec_success r" for u :: "nat \<Rightarrow> string" and hp n st ord r
    using that(1) execute_no_short [OF that(2)] positions_update_subset [of _ r st]
    unfolding no_shorts_def by (metis snd_conv)
qed (simp_all add: no_shorts_def)

section \<open>The equity curve\<close>

text \<open>
  The peak bounds every recorded equity and the initial capital, the recorded drawdowns are not
  negative and never fall, and two neighbouring snapshots carry different times.
\<close>

definition curve_ok :: "host_params \<Rightarrow> state \<Rightarrow> bool" where
  "curve_ok hp st \<longleftrightarrow>
     Money (hp_initial_capital hp) \<le> peak_equity st \<and> 0 \<le> max_drawdown st \<and>
     (\<forall>s\<in>set (equity_curve st).
        eq_equity s \<le> peak_equity st \<and> 0 \<le> eq_max_drawdown s \<and> eq_max_drawdown s \<le> max_drawdown st) \<and>
     sorted_wrt (\<le>) (map eq_max_drawdown (equity_curve st)) \<and>
     successively (\<noteq>) (map eq_timestamp_ns (equity_curve st))"

text \<open>What a snapshot records and how the peak and the drawdown move.\<close>

lemma record_snapshot_cases:
  fixes hp st
  defines "st' \<equiv> record_bar_equity_snapshot hp st"
  shows "peak_equity st' = max (peak_equity st) (calculate_equity st)"
    and "max_drawdown st' = max_drawdown st \<or> max_drawdown st < max_drawdown st'"
    and "\<exists>s. eq_equity s = calculate_equity st \<and> eq_max_drawdown s = max_drawdown st' \<and>
         eq_timestamp_ns s = current_timestamp_ns st \<and>
         (equity_curve st' = equity_curve st @ [s] \<and>
            (equity_curve st \<noteq> [] \<longrightarrow> eq_timestamp_ns (last (equity_curve st)) \<noteq> current_timestamp_ns st) \<or>
          equity_curve st' = butlast (equity_curve st) @ [s] \<and> equity_curve st \<noteq> [] \<and>
            eq_timestamp_ns (last (equity_curve st)) = current_timestamp_ns st)"
proof -
  show "peak_equity st' = max (peak_equity st) (calculate_equity st)"
    by (auto simp: st'_def record_bar_equity_snapshot_def Let_def max_def)
  show "max_drawdown st' = max_drawdown st \<or> max_drawdown st < max_drawdown st'"
    by (simp add: st'_def record_bar_equity_snapshot_def Let_def)
  let ?ts = "current_timestamp_ns st" and ?eq = "calculate_equity st"
  show "\<exists>s. eq_equity s = ?eq \<and> eq_max_drawdown s = max_drawdown st' \<and> eq_timestamp_ns s = ?ts \<and>
         (equity_curve st' = equity_curve st @ [s] \<and>
            (equity_curve st \<noteq> [] \<longrightarrow> eq_timestamp_ns (last (equity_curve st)) \<noteq> ?ts) \<or>
          equity_curve st' = butlast (equity_curve st) @ [s] \<and> equity_curve st \<noteq> [] \<and>
            eq_timestamp_ns (last (equity_curve st)) = ?ts)"
  proof (cases "equity_curve st = [] \<or> eq_timestamp_ns (last (equity_curve st)) \<noteq> ?ts")
    case True
    then show ?thesis
      by (intro exI [of _ "new_snapshot ?ts ?eq (calculate_return hp ?eq) (max_drawdown st')"])
        (auto simp: st'_def record_bar_equity_snapshot_def Let_def new_snapshot_def)
  next
    case False
    then show ?thesis
      by (intro exI [of _ "(last (equity_curve st))\<lparr>eq_equity := ?eq, eq_return := calculate_return hp ?eq,
          eq_max_drawdown := max_drawdown st'\<rparr>"])
        (auto simp: st'_def record_bar_equity_snapshot_def Let_def)
  qed
qed

lemma curve_ok_snapshot:
  assumes "curve_ok hp st"
  shows "curve_ok hp (record_bar_equity_snapshot hp st)"
proof -
  define st' where "st' = record_bar_equity_snapshot hp st"
  note c = assms [unfolded curve_ok_def]
  note r = record_snapshot_cases [where hp = hp and st = st, folded st'_def]
  have dd: "max_drawdown st \<le> max_drawdown st'"
    using r(2) c f64_less_imp_le f64_le_refl f64_le_notNaN by metis
  have le: "d \<le> max_drawdown st'" if "d \<le> max_drawdown st" for d using that dd by (rule f64_le_trans)
  have dd0: "0 \<le> max_drawdown st'" using le c by blast
  then have dd_refl: "max_drawdown st' \<le> max_drawdown st'" by (intro f64_le_refl) (simp add: f64_le_notNaN)
  have old: "eq_equity s \<le> peak_equity st' \<and> 0 \<le> eq_max_drawdown s \<and> eq_max_drawdown s \<le> max_drawdown st'" if "s \<in> set (equity_curve st)" for s
    using that c le unfolding r(1) by (auto simp: le_max_iff_disj)
  obtain s where s: "eq_equity s = calculate_equity st" "eq_max_drawdown s = max_drawdown st'"
      "eq_timestamp_ns s = current_timestamp_ns st"
    and cases: "equity_curve st' = equity_curve st @ [s] \<and>
            (equity_curve st \<noteq> [] \<longrightarrow> eq_timestamp_ns (last (equity_curve st)) \<noteq> current_timestamp_ns st) \<or>
          equity_curve st' = butlast (equity_curve st) @ [s] \<and> equity_curve st \<noteq> [] \<and>
            eq_timestamp_ns (last (equity_curve st)) = current_timestamp_ns st"
    using r(3) by blast
  obtain xs where xs: "equity_curve st' = xs @ [s]" "set xs \<subseteq> set (equity_curve st)"
      "sorted_wrt (\<le>) (map eq_max_drawdown xs)" "successively (\<noteq>) (map eq_timestamp_ns (xs @ [s]))"
  proof (cases "equity_curve st' = equity_curve st @ [s]")
    case True
    have "butlast (equity_curve st) \<noteq> equity_curve st" if "equity_curve st \<noteq> []"
      using that by (cases "equity_curve st" rule: rev_cases) auto
    then have "equity_curve st \<noteq> [] \<longrightarrow> eq_timestamp_ns (last (equity_curve st)) \<noteq> current_timestamp_ns st"
      using cases True by auto
    then show ?thesis
      using True c s by (intro that [of "equity_curve st"]) (auto simp: successively_append_iff last_map)
  next
    case False
    then have e: "equity_curve st' = butlast (equity_curve st) @ [s]" "equity_curve st \<noteq> []"
      "eq_timestamp_ns (last (equity_curve st)) = eq_timestamp_ns s" using cases s by auto
    obtain ys y where y: "equity_curve st = ys @ [y]" using e(2) by (metis rev_exhaust)
    then show ?thesis using e c by (intro that [of ys]) (auto simp: sorted_wrt_append)
  qed
  have "eq_equity s \<le> peak_equity st'" unfolding r(1) s by simp
  moreover have "\<forall>x\<in>set xs. eq_max_drawdown x \<le> eq_max_drawdown s" using xs(2) old s by auto
  moreover have "Money (hp_initial_capital hp) \<le> peak_equity st'" using c unfolding r(1) by (simp add: le_max_iff_disj)
  ultimately show ?thesis
    using xs old s dd0 dd_refl unfolding st'_def [symmetric] curve_ok_def by (auto simp: sorted_wrt_append)
qed

interpretation curve: state_invariant "\<lambda>u hp n st. curve_ok hp st"
  by unfold_locales (use curve_ok_snapshot in \<open>simp_all add: curve_ok_def\<close>)

section \<open>The identity of fills and the margin ledger\<close>

text \<open>The maps of the account only mention the given fills, and the margin total drifts by at most \<open>n\<close> rests.\<close>

definition maps_ok :: "string set \<Rightarrow> string set \<Rightarrow> string set \<Rightarrow> nat \<Rightarrow> state \<Rightarrow> bool" where
  "maps_ok B S F n st \<longleftrightarrow>
     omap_ok (active_buy_fills st) \<and> omap_ok (active_sell_fills st) \<and>
     (\<forall>k. omap_has (active_buy_fills st) k \<longrightarrow> k \<in> B) \<and>
     (\<forall>k. omap_has (active_sell_fills st) k \<longrightarrow> k \<in> S) \<and>
     (\<forall>k. omap_has (active_margin_for_fills (ledger st)) k \<longrightarrow> k \<in> F) \<and>
     (\<exists>ds. drift (ledger st) ds n)"

lemma maps_ok_reduce:
  assumes "maps_ok B S F n st"
  shows "maps_ok B S F n (reduce_active_buy_fills_fifo k q st)" "maps_ok B S F n (reduce_active_sell_fills_fifo k q st)"
proof -
  obtain ds where ds: "drift (ledger st) ds n" using assms by (auto simp: maps_ok_def)
  let ?b = "fifo_loop fill_is_buy k (fills st) q (active_buy_fills st, ledger st)"
  let ?s = "fifo_loop fill_is_sell k (fills st) q (active_sell_fills st, ledger st)"
  have "maps_ok B S F n (st\<lparr>active_buy_fills := fst ?b, ledger := snd ?b\<rparr>)"
    using assms fifo_loop_ok fifo_loop_keys fifo_loop_margin_keys fifo_loop_drift [OF ds]
    by (simp add: maps_ok_def)
  then show "maps_ok B S F n (reduce_active_buy_fills_fifo k q st)"
    by (simp add: reduce_active_buy_fills_fifo_def split_beta)
  have "maps_ok B S F n (st\<lparr>active_sell_fills := fst ?s, ledger := snd ?s\<rparr>)"
    using assms fifo_loop_ok fifo_loop_keys fifo_loop_margin_keys fifo_loop_drift [OF ds]
    by (simp add: maps_ok_def)
  then show "maps_ok B S F n (reduce_active_sell_fills_fifo k q st)"
    by (simp add: reduce_active_sell_fills_fifo_def split_beta)
qed

lemma maps_ok_populate: "maps_ok B S F n st \<Longrightarrow> maps_ok B S F n (snd (populate_active_fills f q c st))"
  using maps_ok_reduce by (simp add: populate_active_fills_def Let_def)

lemma populate_uuid: "fst (populate_active_fills f q c st) = Some act \<Longrightarrow> fst act = fill_uuid f"
  by (auto simp: populate_active_fills_def Let_def split: if_splits)

lemma drift_mono: "drift led ds n \<Longrightarrow> n \<le> n' \<Longrightarrow> drift led ds n'"
  by (auto simp: drift_def)

lemma maps_ok_mono:
  "maps_ok B S F n st \<Longrightarrow> B \<subseteq> B' \<Longrightarrow> S \<subseteq> S' \<Longrightarrow> F \<subseteq> F' \<Longrightarrow> n \<le> n' \<Longrightarrow> maps_ok B' S' F' n' st"
  unfolding maps_ok_def using drift_mono by blast

lemma maps_ok_open:
  assumes "maps_ok B S F n st" "w \<notin> F"
    and "fill_is_buy (res_fill r) \<Longrightarrow> w \<in> B'" "fill_is_sell (res_fill r) \<Longrightarrow> w \<in> S'" "w \<in> F'"
    and "B \<subseteq> B'" "S \<subseteq> S'" "F \<subseteq> F'"
  shows "maps_ok B' S' F' (Suc n) (open_fill r (w, q) st)"
proof -
  let ?M = "active_margin_for_fills (ledger st)"
  obtain ds where ds: "drift (ledger st) ds n" using assms by (auto simp: maps_ok_def)
  have fresh: "omap_find ?M w = None" using assms(1,2) by (auto simp: maps_ok_def omap_has_def)
  have d: "drift (led\<lparr>active_margin_for_fills := omap_upd w m ?M, active_leverage_for_fills := l,
      margin_in_use := margin_in_use (ledger st) + m\<rparr>) ds (Suc n)" for m l led
    using ds fresh omap_sum_upd [of ?M w m] omap_length_upd [of ?M w m]
    by (auto simp: drift_def omap_has_def algebra_simps)
  show ?thesis
    using assms fresh
    by (auto simp: maps_ok_def open_fill_def Let_def intro!: exI [of _ ds] d)
qed

lemma maps_ok_book_fill:
  assumes "maps_ok B S F n st" "fill_uuid (res_fill r) \<notin> F"
    and "fill_is_buy (res_fill r) \<Longrightarrow> fill_uuid (res_fill r) \<in> B'"
    and "fill_is_sell (res_fill r) \<Longrightarrow> fill_uuid (res_fill r) \<in> S'" "fill_uuid (res_fill r) \<in> F'"
    and "B \<subseteq> B'" "S \<subseteq> S'" "F \<subseteq> F'"
  shows "maps_ok B' S' F' (Suc n) (book_fill r st)"
proof -
  let ?q = "held_quantity (fill_symbol (res_fill r)) st"
  let ?p = "populate_active_fills (res_fill r) ?q (if fill_is_buy (res_fill r) then ?q < 0 else 0 < ?q) st"
  have 1: "maps_ok B S F n (snd ?p)" by (rule maps_ok_populate [OF assms(1)])
  have e: "book_fill r st = (case fst ?p of None \<Rightarrow> snd ?p | Some act \<Rightarrow> open_fill r act (snd ?p))"
    by (simp add: book_fill_def Let_def split_beta)
  show ?thesis
  proof (cases "fst ?p")
    case None
    then show ?thesis unfolding e using maps_ok_mono [OF 1] assms(6-8) by simp
  next
    case (Some act)
    then have "act = (fill_uuid (res_fill r), snd act)" using populate_uuid [OF Some] by (cases act) simp
    then show ?thesis unfolding e using Some maps_ok_open [OF 1 assms(2)] assms(3-8) by (metis option.simps(5))
  qed
qed

definition uuids_of :: "(fill \<Rightarrow> bool) \<Rightarrow> state \<Rightarrow> string set" where
  "uuids_of p st = fill_uuid ` {f \<in> set (fills st). p f}"

definition account_ok :: "(nat \<Rightarrow> string) \<Rightarrow> nat \<Rightarrow> state \<Rightarrow> bool" where
  "account_ok u n st \<longleftrightarrow>
     inj u \<longrightarrow>
     distinct (map fill_uuid (fills st)) \<and> fill_uuid ` set (fills st) \<subseteq> u ` {..<n} \<and>
     maps_ok (uuids_of fill_is_buy st) (uuids_of fill_is_sell st) (fill_uuid ` set (fills st)) (length (fills st)) st"

lemma account_ok_execute:
  assumes "account_ok u n st" "execute_order (u n) ord hp st = Exec_success r"
  shows "account_ok u (Suc n) (update_state r st)"
  unfolding account_ok_def
proof
  assume inj: "inj u"
  have a: "distinct (map fill_uuid (fills st))" "fill_uuid ` set (fills st) \<subseteq> u ` {..<n}"
    "maps_ok (uuids_of fill_is_buy st) (uuids_of fill_is_sell st) (fill_uuid ` set (fills st)) (length (fills st)) st"
    using assms(1) inj by (simp_all add: account_ok_def)
  have w: "fill_uuid (res_fill r) = u n" using assms(2) by (cases rule: execute_order_resultE) simp
  have fresh: "u n \<notin> fill_uuid ` set (fills st)" using a(2) inj by (auto simp: inj_def)
  let ?st1 = "st\<lparr>cash := cash st + res_cash_delta r, fills := fills st @ [res_fill r],
    new_fills := new_fills st @ [res_fill r]\<rparr>"
  have "maps_ok (uuids_of fill_is_buy st) (uuids_of fill_is_sell st) (fill_uuid ` set (fills st)) (length (fills st)) ?st1"
    using a(3) by (simp add: maps_ok_def)
  then have "maps_ok (uuids_of fill_is_buy (update_state r st)) (uuids_of fill_is_sell (update_state r st))
      (fill_uuid ` set (fills (update_state r st))) (Suc (length (fills st))) (book_fill r ?st1)"
    by (rule maps_ok_book_fill) (use fresh w [symmetric] in \<open>auto simp: uuids_of_def\<close>)
  then have m: "maps_ok (uuids_of fill_is_buy (update_state r st)) (uuids_of fill_is_sell (update_state r st))
      (fill_uuid ` set (fills (update_state r st))) (length (fills (update_state r st))) (update_state r st)"
    by (simp add: maps_ok_def)
  show "distinct (map fill_uuid (fills (update_state r st))) \<and>
      fill_uuid ` set (fills (update_state r st)) \<subseteq> u ` {..<Suc n} \<and>
      maps_ok (uuids_of fill_is_buy (update_state r st)) (uuids_of fill_is_sell (update_state r st))
        (fill_uuid ` set (fills (update_state r st))) (length (fills (update_state r st))) (update_state r st)"
    using a(1,2) fresh w m by (auto simp: lessThan_Suc)
qed

interpretation account: state_invariant "\<lambda>u hp n st. account_ok u n st"
proof unfold_locales
  show "account_ok u (Suc n) st" if "account_ok u n st" for u n st
    using that by (auto simp: account_ok_def lessThan_Suc)
  show "account_ok u (Suc n) (update_state r st)"
    if "account_ok u n st" "execute_order (u n) ord hp st = Exec_success r" for u n st ord hp r
    using that by (rule account_ok_execute)
qed (simp_all add: account_ok_def maps_ok_def uuids_of_def)

lemma account_ok_initial: "account_ok u n (prepare_initial_state hp empty_state)"
  by (simp add: account_ok_def maps_ok_def drift_def prepare_initial_state_def empty_state_def
      empty_ledger_def omap_has_def omap_empty_def omap_sum_def zero_money_def exI [of _ "[]"])

end
