(* ===== verification/Book_Processing.thy ===== *)
theory Book_Processing
  imports Run_Properties
begin

text \<open>
  What the processing of a bar leaves in the books, and when it returns.

  After the order book has been executed no due order is left in it; after the limit orders no
  order that the bar reaches rests; after the exit orders no stop or target that the bar
  touches waits.  The exit loops always return.  The other two loops need not: with a cap by volume
  and fractional shares an order can be filled with nothing again and again.
\<close>

section \<open>The order book\<close>

lemma order_book_round_None:
  assumes "is_heap sched_less (order_book e)" "order_book_round u hp b e = None" "s \<in> set (order_book e)"
  shows "bar_unix_ts_ns b < sched_fill_at_ns s"
proof -
  obtain t where t: "heap_top (order_book e) = Some t" "bar_unix_ts_ns b < sched_fill_at_ns t"
    using assms(2,3) by (auto simp: order_book_round_def heap_top_def split: if_splits)
  then have "\<not> sched_less s t" using sched_heap.heap_top_first assms(1,3) by blast
  then show ?thesis using t(2) by (simp add: sched_less_def)
qed

lemma order_book_drained:
  assumes "books_ok e" "execute_order_book u hp b e = Some (Inr e')" "s \<in> set (order_book e')"
  shows "bar_unix_ts_ns b < sched_fill_at_ns s"
proof -
  have "books_ok s'" if "books_ok s" "order_book_round u hp b s = Some (Inr s')" for s s'
    using that books.keep_run_order books.keep_pop_order
    by (fastforce simp: order_book_round_def split: option.splits if_splits)
  then have "books_ok e' \<and> order_book_round u hp b e' = None"
    using loop_while_inv [OF assms(2) [unfolded execute_order_book_def], of books_ok] assms(1) by blast
  then show ?thesis using order_book_round_None assms(3) unfolding books_ok_def by blast
qed

section \<open>Exit orders return, and without a cap an order has no rest\<close>

lemma no_cap_no_partial:
  assumes "execute_order u ord hp st = Exec_success r" "hp_fill_max_pct_of_volume hp = None"
  shows "res_partial_order r = None"
  using assms(1)
  by (cases rule: execute_order_resultE)
    (auto simp: get_fillable_and_remaining_quantities_def assms(2) split: if_splits)

lemma exit_orders_return: "\<exists>e'. execute_exit_orders u hp e = Inr e'"
proof -
  obtain e1 where "process_stop_loss_loop u hp [] e = Inr e1" using process_stop_loss_total by blast
  moreover obtain e2 where "process_take_profit_loop u hp [] e1 = Inr e2" using process_take_profit_total by blast
  ultimately show ?thesis
    by (simp add: execute_exit_orders_def process_stop_loss_heap_def process_take_profit_heap_def)
qed

section \<open>Resting limit orders\<close>

lemma run_order_prices:
  "run_order u hp ord e = Inr e' \<Longrightarrow> current_bar_prices (eng_state e') = current_bar_prices (eng_state e)"
  by (cases rule: run_order_cases [of u e ord hp]) auto

text \<open>Where the rest of a partly filled order goes.\<close>

lemma schedule_order_books_eq:
  assumes "schedule_order hp p e = Inr e'"
  shows "is_limit_order p \<and> order_book e' = order_book e \<and>
      (\<exists>slo. create_scheduled_limit_order p = Inr slo \<and> limit_book e' = add_limit_order slo (limit_book e)) \<or>
    \<not> is_limit_order p \<and> limit_book e' = limit_book e \<and>
      order_book e' = heap_push sched_less (create_scheduled_order p hp (eng_state e)) (order_book e)"
  using assms by (auto simp: schedule_order_def bindR_eq_Inr split: if_splits)

lemma handle_rest:
  assumes "handle_execution_result hp (Exec_success r) e = Inr e'"
  shows "res_partial_order r = None \<and> limit_book e' = limit_book e \<and> order_book e' = order_book e \<or>
    (\<exists>p. res_partial_order r = Some p \<and>
      (is_limit_order p \<and> order_book e' = order_book e \<and>
        (\<exists>slo. create_scheduled_limit_order p = Inr slo \<and> limit_book e' = add_limit_order slo (limit_book e)) \<or>
       \<not> is_limit_order p \<and> limit_book e' = limit_book e \<and>
        order_book e' = heap_push sched_less (create_scheduled_order p hp (eng_state e)) (order_book e)))"
proof -
  define e2 where "e2 = (if has_exit_strategy r
    then (reduce_closed r e)\<lparr>exit_book := fold add_exit_order (res_exit_orders r) (exit_book (reduce_closed r e))\<rparr>
    else reduce_closed r e)"
  have e2: "limit_book e2 = limit_book e" "order_book e2 = order_book e" "eng_state e2 = eng_state e"
    by (simp_all add: e2_def)
  obtain e3 where 3: "(case res_partial_order r of None \<Rightarrow> Inr e2 | Some p \<Rightarrow> schedule_order hp p e2) = Inr e3"
    and e': "limit_book e' = limit_book e3" "order_book e' = order_book e3"
    using assms unfolding handle_execution_result_def Let_def execution_result.case e2_def [symmetric]
    by (auto simp: bindR_eq_Inr)
  show ?thesis
  proof (cases "res_partial_order r")
    case None
    then show ?thesis using 3 e' e2 by simp
  next
    case (Some p)
    then show ?thesis using schedule_order_books_eq [of hp p e2 e3] 3 e' e2 by simp
  qed
qed

text \<open>Executing a limit order adds to the limit book at most the rest of that order.\<close>

lemma run_order_limit_book:
  assumes "run_order u hp ord e = Inr e'" "is_limit_order ord"
  shows "limit_book e' = limit_book e \<or>
    (\<exists>q t slo. create_scheduled_limit_order (ord\<lparr>order_quantity := q, order_created_at_ns := t\<rparr>) = Inr slo \<and>
       limit_book e' = add_limit_order slo (limit_book e))"
proof (cases rule: run_order_cases [of u e ord hp])
  case error
  then show ?thesis using assms(1) by auto
next
  case (success r e2)
  have "res_partial_order r = None \<or> (\<exists>q t. res_partial_order r = Some (ord\<lparr>order_quantity := q, order_created_at_ns := t\<rparr>))"
    using success(1) by (cases rule: execute_order_resultE) auto
  moreover have "e' = e2" using success(2) assms(1) by simp
  ultimately show ?thesis
  proof (elim disjE exE)
    assume "res_partial_order r = None"
    then show ?thesis using handle_rest [OF success(3)] \<open>e' = e2\<close> by auto
  next
    fix q t assume p: "res_partial_order r = Some (ord\<lparr>order_quantity := q, order_created_at_ns := t\<rparr>)"
    show ?thesis using handle_rest [OF success(3)] unfolding p \<open>e' = e2\<close> by auto
  qed
qed

lemma books_okD:
  assumes "books_ok e"
  shows "is_heap lb_greater (heap_of (buy_limits (limit_book e)) k)"
    and "is_heap ls_less (heap_of (sell_limits (limit_book e)) k)"
    and "b \<in> set (heap_of (buy_limits (limit_book e)) k) \<Longrightarrow> order_symbol (lb_order b) = k \<and> good_buy b"
    and "s \<in> set (heap_of (sell_limits (limit_book e)) k) \<Longrightarrow> order_symbol (ls_order s) = k \<and> good_sell s"
proof -
  have b: "side_ok lb_greater lb_order good_buy (buy_limits (limit_book e))"
    and s: "side_ok ls_less ls_order good_sell (sell_limits (limit_book e))"
    using assms by (simp_all add: books_ok_def limit_book_ok_def)
  show "is_heap lb_greater (heap_of (buy_limits (limit_book e)) k)" by (rule side_okD(1) [OF b])
  show "is_heap ls_less (heap_of (sell_limits (limit_book e)) k)" by (rule side_okD(1) [OF s])
  show "order_symbol (lb_order b) = k \<and> good_buy b" if "b \<in> set (heap_of (buy_limits (limit_book e)) k)"
    using that by (rule side_okD(2) [OF b])
  show "order_symbol (ls_order s) = k \<and> good_sell s" if "s \<in> set (heap_of (sell_limits (limit_book e)) k)"
    using that by (rule side_okD(2) [OF s])
qed

lemma order_is_buy_rest [simp]:
  "order_is_buy (ord\<lparr>order_quantity := q, order_created_at_ns := t\<rparr>) = order_is_buy ord"
  by (simp add: order_is_buy_def)

lemma run_buy_limit_frame:
  assumes "is_limit_order ord" "order_is_buy ord" "run_order u hp ord e = Inr e'"
  shows "sell_limits (limit_book e') = sell_limits (limit_book e) \<and>
    (\<forall>k. k \<noteq> order_symbol ord \<longrightarrow> heap_of (buy_limits (limit_book e')) k = heap_of (buy_limits (limit_book e)) k)"
  using run_order_limit_book [OF assms(3,1)] assms(2)
  by (auto simp: add_limit_order_def create_scheduled_limit_order_def Let_def split: option.splits)

lemma buy_limit_loop_drained:
  assumes "loop_while (buy_limit_round u hp k x) e = Some (Inr e')" "books_ok e"
  shows "books_ok e' \<and> sell_limits (limit_book e') = sell_limits (limit_book e) \<and>
    current_bar_prices (eng_state e') = current_bar_prices (eng_state e) \<and>
    (\<forall>k'. k' \<noteq> k \<longrightarrow> heap_of (buy_limits (limit_book e')) k' = heap_of (buy_limits (limit_book e)) k') \<and>
    (\<forall>lo\<in>set (heap_of (buy_limits (limit_book e')) k). lb_limit_price lo < x)"
proof -
  define I where "I = (\<lambda>s. books_ok s \<and> sell_limits (limit_book s) = sell_limits (limit_book e) \<and>
    current_bar_prices (eng_state s) = current_bar_prices (eng_state e) \<and>
    (\<forall>k'. k' \<noteq> k \<longrightarrow> heap_of (buy_limits (limit_book s)) k' = heap_of (buy_limits (limit_book e)) k'))"
  have step: "I s'" if I: "I s" and r: "buy_limit_round u hp k x s = Some (Inr s')" for s s'
  proof -
    let ?s1 = "s\<lparr>limit_book := (limit_book s)\<lparr>buy_limits :=
      omap_upd k (heap_pop lb_greater (heap_of (buy_limits (limit_book s)) k)) (buy_limits (limit_book s))\<rparr>\<rparr>"
    obtain lo where lo: "heap_top (heap_of (buy_limits (limit_book s)) k) = Some lo"
      and run: "run_order u hp (lb_order lo) ?s1 = Inr s'"
      using r by (auto simp: buy_limit_round_def Let_def split: option.splits if_splits)
    have "lo \<in> set (heap_of (buy_limits (limit_book s)) k)" using lo by (simp add: heap_top_Some)
    then have good: "order_symbol (lb_order lo) = k" "good_buy lo"
      using books_okD(3) [of s lo k] I by (simp_all add: I_def)
    have "books_ok s'" using books.keep_run_order [OF books.keep_pop_buy run] I by (simp add: I_def)
    then show ?thesis
      using I run_buy_limit_frame [OF _ _ run] run_order_prices [OF run] good unfolding good_buy_def I_def by simp
  qed
  have I: "I e' \<and> buy_limit_round u hp k x e' = None"
    by (rule loop_while_inv [OF assms(1) _ step]) (simp add: I_def assms(2))
  moreover have "\<forall>lo\<in>set (heap_of (buy_limits (limit_book e')) k). lb_limit_price lo < x"
  proof
    fix lo assume lo: "lo \<in> set (heap_of (buy_limits (limit_book e')) k)"
    then obtain t where t: "heap_top (heap_of (buy_limits (limit_book e')) k) = Some t" "lb_limit_price t < x"
      using I by (auto simp: buy_limit_round_def Let_def heap_top_def split: if_splits)
    have "\<not> lb_greater lo t"
      using lb_heap.heap_top_first [OF _ t(1) lo] I books_okD(1) [of e' k] by (simp add: I_def)
    then show "lb_limit_price lo < x" using t(2) by (simp add: lb_greater_def)
  qed
  ultimately show ?thesis by (simp add: I_def)
qed

definition buys_drained :: "string \<Rightarrow> engine \<Rightarrow> bool" where
  "buys_drained k e \<longleftrightarrow>
     (\<forall>p. omap_find (current_bar_prices (eng_state e)) k = Some p \<longrightarrow>
        (\<forall>lo\<in>set (heap_of (buy_limits (limit_book e)) k). lb_limit_price lo < bp_low p))"

lemma buy_limit_symbols_drained:
  assumes "buy_limit_symbols u hp ks e = Some (Inr e')" "books_ok e"
  shows "books_ok e' \<and> sell_limits (limit_book e') = sell_limits (limit_book e) \<and>
    current_bar_prices (eng_state e') = current_bar_prices (eng_state e) \<and>
    (\<forall>k. k \<notin> set ks \<longrightarrow> heap_of (buy_limits (limit_book e')) k = heap_of (buy_limits (limit_book e)) k) \<and>
    (\<forall>k\<in>set ks. buys_drained k e')"
  using assms
proof (induction ks arbitrary: e)
  case (Cons k ks)
  show ?case
  proof (cases "has_symbol_prices (eng_state e) k")
    case False
    then have "buy_limit_symbols u hp ks e = Some (Inr e')" using Cons.prems(1) by simp
    moreover have "omap_find (current_bar_prices (eng_state e)) k = None"
      using False by (simp add: has_symbol_prices_def omap_has_def)
    ultimately show ?thesis using Cons.IH Cons.prems(2) by (auto simp: buys_drained_def)
  next
    case True
    then obtain p where p: "get_symbol_low (eng_state e) k = Inr (bp_low p)"
      "omap_find (current_bar_prices (eng_state e)) k = Some p" using symbol_prices_known by blast
    then obtain e1 where l: "loop_while (buy_limit_round u hp k (bp_low p)) e = Some (Inr e1)"
      and rest: "buy_limit_symbols u hp ks e1 = Some (Inr e')"
      using Cons.prems(1) True by (auto simp: bindRO_eq_Inr)
    note 1 = buy_limit_loop_drained [OF l Cons.prems(2)]
    note 2 = Cons.IH [OF rest conjunct1 [OF 1]]
    have "buys_drained k e'"
    proof (cases "k \<in> set ks")
      case True
      then show ?thesis using 2 by blast
    next
      case False
      then have "heap_of (buy_limits (limit_book e')) k = heap_of (buy_limits (limit_book e1)) k" using 2 by blast
      then show ?thesis using 1 2 p(2) by (auto simp: buys_drained_def)
    qed
    then show ?thesis using 1 2 by auto
  qed
qed simp

lemma run_sell_limit_frame:
  assumes "is_limit_order ord" "\<not> order_is_buy ord" "run_order u hp ord e = Inr e'"
  shows "buy_limits (limit_book e') = buy_limits (limit_book e) \<and>
    (\<forall>k. k \<noteq> order_symbol ord \<longrightarrow> heap_of (sell_limits (limit_book e')) k = heap_of (sell_limits (limit_book e)) k)"
  using run_order_limit_book [OF assms(3,1)] assms(2)
  by (auto simp: add_limit_order_def create_scheduled_limit_order_def Let_def split: option.splits)

lemma sell_limit_loop_drained:
  assumes "loop_while (sell_limit_round u hp k x) e = Some (Inr e')" "books_ok e"
  shows "books_ok e' \<and> buy_limits (limit_book e') = buy_limits (limit_book e) \<and>
    current_bar_prices (eng_state e') = current_bar_prices (eng_state e) \<and>
    (\<forall>k'. k' \<noteq> k \<longrightarrow> heap_of (sell_limits (limit_book e')) k' = heap_of (sell_limits (limit_book e)) k') \<and>
    (\<forall>lo\<in>set (heap_of (sell_limits (limit_book e')) k). x < ls_limit_price lo)"
proof -
  define I where "I = (\<lambda>s. books_ok s \<and> buy_limits (limit_book s) = buy_limits (limit_book e) \<and>
    current_bar_prices (eng_state s) = current_bar_prices (eng_state e) \<and>
    (\<forall>k'. k' \<noteq> k \<longrightarrow> heap_of (sell_limits (limit_book s)) k' = heap_of (sell_limits (limit_book e)) k'))"
  have step: "I s'" if I: "I s" and r: "sell_limit_round u hp k x s = Some (Inr s')" for s s'
  proof -
    let ?s1 = "s\<lparr>limit_book := (limit_book s)\<lparr>sell_limits :=
      omap_upd k (heap_pop ls_less (heap_of (sell_limits (limit_book s)) k)) (sell_limits (limit_book s))\<rparr>\<rparr>"
    obtain lo where lo: "heap_top (heap_of (sell_limits (limit_book s)) k) = Some lo"
      and run: "run_order u hp (ls_order lo) ?s1 = Inr s'"
      using r by (auto simp: sell_limit_round_def Let_def split: option.splits if_splits)
    have "lo \<in> set (heap_of (sell_limits (limit_book s)) k)" using lo by (simp add: heap_top_Some)
    then have good: "order_symbol (ls_order lo) = k" "good_sell lo"
      using books_okD(4) [of s lo k] I by (simp_all add: I_def)
    have "books_ok s'" using books.keep_run_order [OF books.keep_pop_sell run] I by (simp add: I_def)
    then show ?thesis
      using I run_sell_limit_frame [OF _ _ run] run_order_prices [OF run] good unfolding good_sell_def I_def by simp
  qed
  have I: "I e' \<and> sell_limit_round u hp k x e' = None"
    by (rule loop_while_inv [OF assms(1) _ step]) (simp add: I_def assms(2))
  moreover have "\<forall>lo\<in>set (heap_of (sell_limits (limit_book e')) k). x < ls_limit_price lo"
  proof
    fix lo assume lo: "lo \<in> set (heap_of (sell_limits (limit_book e')) k)"
    then obtain t where t: "heap_top (heap_of (sell_limits (limit_book e')) k) = Some t" "x < ls_limit_price t"
      using I by (auto simp: sell_limit_round_def Let_def heap_top_def split: if_splits)
    have "\<not> ls_less lo t"
      using ls_heap.heap_top_first [OF _ t(1) lo] I books_okD(2) [of e' k] by (simp add: I_def)
    then show "x < ls_limit_price lo" using t(2) by (simp add: ls_less_def)
  qed
  ultimately show ?thesis by (simp add: I_def)
qed

definition sells_drained :: "string \<Rightarrow> engine \<Rightarrow> bool" where
  "sells_drained k e \<longleftrightarrow>
     (\<forall>p. omap_find (current_bar_prices (eng_state e)) k = Some p \<longrightarrow>
        (\<forall>lo\<in>set (heap_of (sell_limits (limit_book e)) k). bp_high p < ls_limit_price lo))"

lemma sell_limit_symbols_drained:
  assumes "sell_limit_symbols u hp ks e = Some (Inr e')" "books_ok e"
  shows "books_ok e' \<and> buy_limits (limit_book e') = buy_limits (limit_book e) \<and>
    current_bar_prices (eng_state e') = current_bar_prices (eng_state e) \<and>
    (\<forall>k. k \<notin> set ks \<longrightarrow> heap_of (sell_limits (limit_book e')) k = heap_of (sell_limits (limit_book e)) k) \<and>
    (\<forall>k\<in>set ks. sells_drained k e')"
  using assms
proof (induction ks arbitrary: e)
  case (Cons k ks)
  show ?case
  proof (cases "has_symbol_prices (eng_state e) k")
    case False
    then have "sell_limit_symbols u hp ks e = Some (Inr e')" using Cons.prems(1) by simp
    moreover have "omap_find (current_bar_prices (eng_state e)) k = None"
      using False by (simp add: has_symbol_prices_def omap_has_def)
    ultimately show ?thesis using Cons.IH Cons.prems(2) by (auto simp: sells_drained_def)
  next
    case True
    then obtain p where p: "get_symbol_high (eng_state e) k = Inr (bp_high p)"
      "omap_find (current_bar_prices (eng_state e)) k = Some p" using symbol_prices_known by blast
    then obtain e1 where l: "loop_while (sell_limit_round u hp k (bp_high p)) e = Some (Inr e1)"
      and rest: "sell_limit_symbols u hp ks e1 = Some (Inr e')"
      using Cons.prems(1) True by (auto simp: bindRO_eq_Inr)
    note 1 = sell_limit_loop_drained [OF l Cons.prems(2)]
    note 2 = Cons.IH [OF rest conjunct1 [OF 1]]
    have "sells_drained k e'"
    proof (cases "k \<in> set ks")
      case True
      then show ?thesis using 2 by blast
    next
      case False
      then have "heap_of (sell_limits (limit_book e')) k = heap_of (sell_limits (limit_book e1)) k" using 2 by blast
      then show ?thesis using 1 2 p(2) by (auto simp: sells_drained_def)
    qed
    then show ?thesis using 1 2 by auto
  qed
qed simp

lemma limit_books_drained:
  assumes "books_ok e" "execute_limit_orders u hp e = Some (Inr e')"
  shows "buys_drained k e' \<and> sells_drained k e'"
proof -
  have none: "heap_of m k = []" if "k \<notin> set (map fst m)" for m :: "(string, 'a list) omap"
    using that by (simp add: heap_of_def omap_find_def map_of_eq_None_iff [THEN iffD2])
  obtain e1 where 1: "buy_limit_symbols u hp (map fst (buy_limits (limit_book e))) e = Some (Inr e1)"
    and 2: "sell_limit_symbols u hp (map fst (sell_limits (limit_book e1))) e1 = Some (Inr e')"
    using assms(2) by (auto simp: execute_limit_orders_def process_buy_limits_def process_sell_limits_def bindRO_eq_Inr)
  note a = buy_limit_symbols_drained [OF 1 assms(1)]
  note b = sell_limit_symbols_drained [OF 2 conjunct1 [OF a]]
  have "buys_drained k e1"
    using a none [of "buy_limits (limit_book e)"] by (cases "k \<in> set (map fst (buy_limits (limit_book e)))") (auto simp: buys_drained_def)
  then have "buys_drained k e'" using b by (simp add: buys_drained_def)
  moreover have "sells_drained k e'"
    using b none [of "sell_limits (limit_book e1)"] by (cases "k \<in> set (map fst (sell_limits (limit_book e1)))") (auto simp: sells_drained_def)
  ultimately show ?thesis by blast
qed

section \<open>Exit orders that wait\<close>

text \<open>An exit order waits when the bar of its symbol does not touch its price.\<close>

definition sl_waits :: "(string, bar_prices) omap \<Rightarrow> stop_loss_exit_order \<Rightarrow> bool" where
  "sl_waits prices x \<longleftrightarrow>
     (case omap_find prices (sl_symbol x) of None \<Rightarrow> False | Some p \<Rightarrow> \<not> sl_should_trigger x (bp_low p) (bp_high p))"

lemma sl_waits_quantity [simp]: "sl_waits prices (x\<lparr>sl_trigger_quantity := q\<rparr>) = sl_waits prices x"
  by (auto simp: sl_waits_def sl_should_trigger_def split: option.split)

lemma stop_loss_loop_waits:
  assumes "process_stop_loss_loop u hp nt e = Inr e'"
    and "\<forall>x\<in>set nt. sl_waits (current_bar_prices (eng_state e)) x"
  shows "current_bar_prices (eng_state e') = current_bar_prices (eng_state e) \<and>
    (\<forall>x\<in>set (stop_loss_heap (exit_book e')). sl_waits (current_bar_prices (eng_state e)) x)"
  using assms
proof (induction rule: process_stop_loss_induct)
  case (stop nt e)
  have "set (fold (heap_push sl_less) nt []) = set nt"
    using sl_heap.pq.elems_push_all [of nt "[]"] by (metis add.right_neutral mset.simps(1) set_mset_mset)
  then show ?case using stop by (simp add: put_sl_def)
next
  case (trigger nt e x p e1 e')
  then show ?case using run_order_prices [OF trigger(5)] by (simp add: pop_sl_def)
next
  case (wait nt e x p e')
  then have "sl_waits (current_bar_prices (eng_state e)) x" by (simp add: sl_waits_def)
  then show ?case using wait by (simp add: pop_sl_def)
qed (simp add: pop_sl_def)

lemma reduce_stop_loss_from:
  assumes "x \<in> set (stop_loss_heap (reduce_exit_orders_by_fill_uuid w q book))"
  shows "\<exists>y\<in>set (stop_loss_heap book). \<exists>c. x = y\<lparr>sl_trigger_quantity := c\<rparr>"
proof -
  have "x \<in># (\<Sum>e\<in>#mset (stop_loss_heap book). mset_option (sl_reduce w q e))"
    using assms mset_reduce_exit_orders(1) [of w q book] by (metis set_mset_mset)
  then obtain y where y: "y \<in> set (stop_loss_heap book)" "sl_reduce w q y = Some x"
    by (auto simp: mset_option_def split: option.splits)
  have "y = y\<lparr>sl_trigger_quantity := sl_trigger_quantity y\<rparr>" by simp
  then show ?thesis using y by (metis sl_reduce_def option.inject option.distinct(1))
qed

lemma reduce_stop_loss_waits:
  "\<forall>x\<in>set (stop_loss_heap book). sl_waits prices x \<Longrightarrow>
   \<forall>x\<in>set (stop_loss_heap (reduce_exit_orders_by_fills cs book)). sl_waits prices x"
proof (induction cs arbitrary: book)
  case Nil
  then show ?case by (simp add: reduce_exit_orders_by_fills_def)
next
  case (Cons c cs)
  obtain w q where c: "c = (w, q)" by (cases c)
  have "\<forall>x\<in>set (stop_loss_heap (reduce_exit_orders_by_fill_uuid w q book)). sl_waits prices x"
    using Cons.prems reduce_stop_loss_from [of _ w q book] by fastforce
  then show ?case using Cons.IH by (simp add: reduce_exit_orders_by_fills_def c)
qed

definition tp_waits :: "(string, bar_prices) omap \<Rightarrow> take_profit_exit_order \<Rightarrow> bool" where
  "tp_waits prices x \<longleftrightarrow>
     (case omap_find prices (tp_symbol x) of None \<Rightarrow> False | Some p \<Rightarrow> \<not> tp_should_trigger x (bp_low p) (bp_high p))"

lemma tp_waits_quantity [simp]: "tp_waits prices (x\<lparr>tp_trigger_quantity := q\<rparr>) = tp_waits prices x"
  by (auto simp: tp_waits_def tp_should_trigger_def split: option.split)

lemma take_profit_loop_waits:
  assumes "process_take_profit_loop u hp nt e = Inr e'"
    and "\<forall>x\<in>set nt. tp_waits (current_bar_prices (eng_state e)) x"
  shows "current_bar_prices (eng_state e') = current_bar_prices (eng_state e) \<and>
    (\<forall>x\<in>set (take_profit_heap (exit_book e')). tp_waits (current_bar_prices (eng_state e)) x)"
  using assms
proof (induction rule: process_take_profit_induct)
  case (stop nt e)
  have "set (fold (heap_push tp_greater) nt []) = set nt"
    using tp_heap.pq.elems_push_all [of nt "[]"] by (metis add.right_neutral mset.simps(1) set_mset_mset)
  then show ?case using stop by (simp add: put_tp_def)
next
  case (trigger nt e x p e1 e')
  then show ?case using run_order_prices [OF trigger(5)] by (simp add: pop_tp_def)
next
  case (wait nt e x p e')
  then have "tp_waits (current_bar_prices (eng_state e)) x" by (simp add: tp_waits_def)
  then show ?case using wait by (simp add: pop_tp_def)
qed (simp add: pop_tp_def)

lemma reduce_take_profit_from:
  assumes "x \<in> set (take_profit_heap (reduce_exit_orders_by_fill_uuid w q book))"
  shows "\<exists>y\<in>set (take_profit_heap book). \<exists>c. x = y\<lparr>tp_trigger_quantity := c\<rparr>"
proof -
  have "x \<in># (\<Sum>e\<in>#mset (take_profit_heap book). mset_option (tp_reduce w q e))"
    using assms mset_reduce_exit_orders(2) [of w q book] by (metis set_mset_mset)
  then obtain y where y: "y \<in> set (take_profit_heap book)" "tp_reduce w q y = Some x"
    by (auto simp: mset_option_def split: option.splits)
  have "y = y\<lparr>tp_trigger_quantity := tp_trigger_quantity y\<rparr>" by simp
  then show ?thesis using y by (metis tp_reduce_def option.inject option.distinct(1))
qed

lemma reduce_take_profit_waits:
  "\<forall>x\<in>set (take_profit_heap book). tp_waits prices x \<Longrightarrow>
   \<forall>x\<in>set (take_profit_heap (reduce_exit_orders_by_fills cs book)). tp_waits prices x"
proof (induction cs arbitrary: book)
  case Nil
  then show ?case by (simp add: reduce_exit_orders_by_fills_def)
next
  case (Cons c cs)
  obtain w q where c: "c = (w, q)" by (cases c)
  have "\<forall>x\<in>set (take_profit_heap (reduce_exit_orders_by_fill_uuid w q book)). tp_waits prices x"
    using Cons.prems reduce_take_profit_from [of _ w q book] by fastforce
  then show ?case using Cons.IH by (simp add: reduce_exit_orders_by_fills_def c)
qed

lemma take_profits_keep_stop_losses:
  assumes "process_take_profit_loop u hp nt e = Inr e'"
    and "\<forall>x\<in>set (stop_loss_heap (exit_book e)). sl_waits prices x"
  shows "\<forall>x\<in>set (stop_loss_heap (exit_book e')). sl_waits prices x"
  using assms
proof (induction rule: process_take_profit_induct)
  case (trigger nt e x p e1 e')
  have "\<forall>x\<in>set (stop_loss_heap (exit_book e1)). sl_waits prices x"
  proof (cases rule: run_order_cases [of u "pop_tp e" "tp_to_close_instruction x" hp])
    case error
    then show ?thesis using trigger by (auto simp: pop_tp_def)
  next
    case (success r e2)
    have "res_exit_orders r = []" using success(1) by (rule execute_order_no_exits) simp_all
    then have "exit_book e1 = reduce_exit_orders_by_fills
      (if fill_is_sell (res_fill r) then find_buy_fill_uuids_closed_by_sell (res_fill r) (eng_state (pop_tp e))
       else if fill_is_buy (res_fill r) then find_sell_fill_uuids_closed_by_buy (res_fill r) (eng_state (pop_tp e)) else [])
      (exit_book (pop_tp e))"
      using success(2,5) trigger(5) by (simp add: exit_book_after_def)
    moreover have "\<forall>x\<in>set (stop_loss_heap (exit_book (pop_tp e))). sl_waits prices x"
      using trigger by (simp add: pop_tp_def)
    ultimately show ?thesis using reduce_stop_loss_waits by simp
  qed
  then show ?case using trigger by blast
qed (simp_all add: pop_tp_def put_tp_def)

lemma exit_orders_wait:
  assumes "execute_exit_orders u hp e = Inr e'"
  shows "(\<forall>x\<in>set (stop_loss_heap (exit_book e')). sl_waits (current_bar_prices (eng_state e')) x) \<and>
    (\<forall>x\<in>set (take_profit_heap (exit_book e')). tp_waits (current_bar_prices (eng_state e')) x)"
proof -
  obtain e1 where 1: "process_stop_loss_loop u hp [] e = Inr e1" and 2: "process_take_profit_loop u hp [] e1 = Inr e'"
    using assms by (auto simp: execute_exit_orders_def process_stop_loss_heap_def process_take_profit_heap_def bindR_eq_Inr)
  note a = stop_loss_loop_waits [OF 1, simplified]
  note b = take_profit_loop_waits [OF 2, simplified]
  show ?thesis using a b take_profits_keep_stop_losses [OF 2] by metis
qed

section \<open>A loop that does not return\<close>

text \<open>
  Under a cap by volume the rest of a partly filled order is scheduled again, without slippage
  at the time of the bar itself.  On a bar without volume nothing is filled, so the order comes
  back unchanged: the loop repeats and records an empty fill each time.  A flat commission would be
  charged each time and drain the cash; a commission per share or by percentage is none for an empty fill.
\<close>

definition uncosted :: "host_params \<Rightarrow> bool" where
  "uncosted hp \<longleftrightarrow>
     (hp_slippage_model hp = None \<or> hp_slippage_model hp = Some ''none'') \<and>
     (case value_or (hp_commission hp) 0 of Fin c \<Rightarrow> c = 0 \<or> hp_commission_type hp \<noteq> Some ''flat'' | _ \<Rightarrow> False) \<and>
     \<not> value_or (hp_max_leverage hp) 1 < 1 \<and>
     hp_allow_fractional_shares hp = Some True"

definition stuck :: "bar \<Rightarrow> string \<Rightarrow> int \<Rightarrow> engine \<Rightarrow> bool" where
  "stuck b symbol n e \<longleftrightarrow>
     (case order_book e of
        [s] \<Rightarrow>
          sched_fill_at_ns s \<le> bar_unix_ts_ns b \<and>
          current_timestamp_ns (eng_state e) \<le> bar_unix_ts_ns b \<and>
          omap_has (current_bar_prices (eng_state e)) symbol \<and>
          omap_find (current_bar_volumes (eng_state e)) symbol = Some 0 \<and>
          \<not> omap_has (positions (eng_state e)) symbol \<and>
          order_symbol (sched_order s) = symbol \<and> order_quantity (sched_order s) = Fin (of_int n) \<and>
          order_is_buy (sched_order s) \<and> \<not> is_limit_order (sched_order s) \<and>
          \<not> order_is_exit_order (sched_order s) \<and> order_leverage (sched_order s) = None
      | _ \<Rightarrow> False)"

lemma EPSILON_pos: "0 < EPSILON"
  by code_simp

lemma one_f64: "(0::f64) + 0 = 0" "\<not> (1::f64) < 1" "(0::f64) \<le> 0" "\<not> (0::f64) < 0"
  by code_simp+

lemma f64_zero_mul_Fin: "0 * Fin c = 0"
  by (rule f64_mul_0_left) simp_all

lemma uncosted_commission:
  assumes "uncosted hp" "fill_quantity f = 0"
  shows "calculate_commision f hp = Money 0"
proof -
  obtain c where c: "value_or (hp_commission hp) 0 = Fin c" "c = 0 \<or> hp_commission_type hp \<noteq> Some ''flat''"
    using assms(1) by (auto simp: uncosted_def split: f64.splits)
  have "f64_eq (Fin 0) 0" by code_simp
  then show ?thesis
    using c assms(2) money_mul_0 zero_money_mul [of "Fin c"]
    by (auto simp: calculate_commision_def Let_def value_or_def zero_money_def split: option.splits if_splits)
qed

lemma execute_empty:
  assumes "hp_fill_max_pct_of_volume hp = Some (Fin c)" "uncosted hp" "0 < n" "n < 2 ^ 53"
    and "omap_find (current_bar_prices st) (order_symbol ord) = Some prices"
    and "omap_find (current_bar_volumes st) (order_symbol ord) = Some 0"
    and "omap_find (positions st) (order_symbol ord) = None"
    and "order_quantity ord = Fin (of_int n)" "order_is_buy ord" "\<not> order_is_exit_order ord" "order_leverage ord = None"
  shows "\<exists>r. execute_order w ord hp st = Exec_success r \<and>
    res_partial_order r = Some (ord\<lparr>order_quantity := Fin (of_int n), order_created_at_ns := current_timestamp_ns st\<rparr>) \<and>
    res_position r = mk_position (order_symbol ord) 0 (Money 0)"
proof -
  have rest: "Fin (of_int n) - 0 = Fin (of_int n)"
    using assms(3,4) f64_of_rat_int [of n] by (simp add: zero_f64_def minus_f64_def)
  have pos: "0 < Fin (of_int n)" "\<not> Fin (of_int n) \<le> 0" using assms(3) by (simp_all add: zero_f64_def)
  have g: "get_fillable_and_remaining_quantities ord hp 0 = (0, Fin (of_int n))"
    using assms(1,8) pos rest by (simp add: get_fillable_and_remaining_quantities_def Let_def f64_zero_mul_Fin)
  have held: "held_quantity (order_symbol ord) st = 0" using assms(7) by (simp add: held_quantity_def)
  have open_q: "opening_quantity ord st 0 = 0"
    using assms(9) by (simp add: opening_quantity_def calculate_position_opening_quantity_def held one_f64)
  have comm: "order_commission ord hp st 0 p = Money 0" for p
    unfolding order_commission_def by (rule uncosted_commission [OF assms(2)]) (simp add: mk_fill_def)
  have marg: "order_margin ord hp st 0 p = Money 0" for p
    by (simp add: order_margin_def open_q not_EPSILON_less_0)
  have val: "validate_margin ord p (Money 0) hp st 0 0 (Money 0) 0 = None" for p
    using assms(2,9,11) order_not_both [of ord] not_EPSILON_less_0
    by (simp add: validate_margin_def uncosted_def Let_def one_f64 less_money_def plus_money_def minus_money_def
        money_operator_defs)
  have p: "calculate_position ord 0 q st = mk_position (order_symbol ord) 0 (Money 0)" for q
    using assms(7,9) EPSILON_pos
    by (simp add: calculate_position_def Let_def mk_position_def one_f64) (simp add: zero_f64_def)
  show ?thesis
    using assms(2,5,6,8,10) pos g
    by (simp add: execute_order_def uncosted_def execute_fillable_cases open_q comm marg held val p
        signed_quantity_def assms(9) one_f64 mk_success_def)
qed

lemma stuck_round:
  assumes "hp_fill_max_pct_of_volume hp = Some (Fin c)" "uncosted hp" "0 < n" "n < 2 ^ 53" "stuck b k n e"
  shows "\<exists>e'. order_book_round u hp b e = Some (Inr e') \<and> stuck b k n e'"
proof -
  obtain s prices where s: "order_book e = [s]" "sched_fill_at_ns s \<le> bar_unix_ts_ns b"
    "current_timestamp_ns (eng_state e) \<le> bar_unix_ts_ns b"
    "omap_find (current_bar_prices (eng_state e)) k = Some prices"
    "omap_find (current_bar_volumes (eng_state e)) k = Some 0"
    "omap_find (positions (eng_state e)) k = None"
    "order_symbol (sched_order s) = k" "order_quantity (sched_order s) = Fin (of_int n)"
    "order_is_buy (sched_order s)" "\<not> is_limit_order (sched_order s)"
    "\<not> order_is_exit_order (sched_order s)" "order_leverage (sched_order s) = None"
    using assms(5) by (auto simp: stuck_def omap_has_def split: list.splits)
  let ?e1 = "e\<lparr>order_book := []\<rparr>"
  let ?ord = "sched_order s"
  have round: "order_book_round u hp b e = Some (run_order u hp ?ord ?e1)"
    using s(1,2) by (simp add: order_book_round_def heap_top_def heap_pop_def Let_def leD)
  obtain r where r: "execute_order (u (next_uuid e)) ?ord hp (eng_state e) = Exec_success r"
    "res_partial_order r = Some (?ord\<lparr>order_quantity := Fin (of_int n), order_created_at_ns := current_timestamp_ns (eng_state e)\<rparr>)"
    "res_position r = mk_position k 0 (Money 0)"
    using execute_empty [OF assms(1-4), of "eng_state e" ?ord prices "u (next_uuid e)"] s by auto
  show ?thesis
  proof (cases rule: run_order_cases [of u ?e1 ?ord hp])
    case error
    then show ?thesis using r by simp
  next
    case (success r' e')
    then have [simp]: "r' = r" using r by simp
    have nl: "\<not> is_limit_order (?ord\<lparr>order_quantity := q, order_created_at_ns := t\<rparr>)" for q t
      using s(10) by (simp add: is_limit_order_def)
    have "order_book e' = [\<lparr>sched_order = ?ord\<lparr>order_quantity := Fin (of_int n),
        order_created_at_ns := current_timestamp_ns (eng_state e)\<rparr>,
        sched_fill_at_ns = current_timestamp_ns (eng_state e)\<rparr>]"
      using handle_rest [OF success(3)] r(2) nl assms(2)
      by (simp add: create_scheduled_order_def calculate_slippage_time_ns_def uncosted_def heap_push_def bubble_up.simps)
    moreover have "omap_find (positions (eng_state e')) k = None"
      using success(4) r(3) s(6) by (simp add: mk_position_def f64_eq_def zero_f64_def)
    ultimately have "stuck b k n e'"
      using success(4) s by (simp add: stuck_def is_limit_order_def order_is_buy_def omap_has_def)
    then show ?thesis using round success(2) by simp
  qed
qed

lemma order_book_diverges:
  assumes "hp_fill_max_pct_of_volume hp = Some (Fin c)" "uncosted hp" "0 < n" "n < 2 ^ 53" "stuck b k n e"
  shows "execute_order_book u hp b e = None"
  unfolding execute_order_book_def
  by (rule loop_while_diverges [where P = "stuck b k n"]) (use assms stuck_round in blast)+

end
