(* ===== verification/Sized_Orders.thy ===== *)
theory Sized_Orders
  imports Book_Processing
begin

text \<open>
  Orders of bounded size.  Up to \<open>2 ^ 53\<close> shares every whole number is a double, so a rest that is
  smaller by a share is smaller as a double.  With whole shares only, a run whose plugin asks for no
  larger quantity never has a larger order or exit order in its books.
\<close>

section \<open>Small quantities\<close>

definition small :: "f64 \<Rightarrow> bool" where
  "small x \<longleftrightarrow> \<not> Fin (2 ^ 53) < x"

definition nonneg :: "f64 \<Rightarrow> bool" where
  "nonneg x \<longleftrightarrow> \<not> x < 0"

lemma small_simps [simp]: "small NaN" "small NInf" "\<not> small PInf" "small (Fin x) \<longleftrightarrow> x \<le> 2 ^ 53" "small 0"
  by (simp_all add: small_def less_f64_def zero_f64_def linorder_not_less)

lemma small_less: "x < y \<Longrightarrow> small y \<Longrightarrow> small x"
  unfolding small_def using f64_less_trans by blast

lemma rnd_rat_two53: "rnd_rat (2 ^ 53) = 2 ^ 53"
  using rnd_rat_pow2 [of 53] by (simp add: pow2_powi)

lemma f64_of_rat_small: "x \<le> 2 ^ 53 \<Longrightarrow> small (f64_of_rat x)"
proof (cases x rule: f64_of_rat_cases)
  case 1
  assume "x \<le> 2 ^ 53"
  moreover have "(2 ^ 53 :: rat) \<le> pow2 1000" using pow2_le [of 53 1000] by (simp add: pow2_powi)
  ultimately have "f64_of_rat x = Fin (rnd_rat x)" using 1 by (intro f64_of_rat_finite) linarith
  then show ?thesis using 1 by simp
next
  case 3
  assume "x \<le> 2 ^ 53"
  then have "rnd_rat x \<le> 2 ^ 53" using rnd_rat_mono [of x "2 ^ 53"] unfolding rnd_rat_two53 by simp
  then show ?thesis using 3 by simp
qed simp

lemma small_floor: "small x \<Longrightarrow> small (f64_floor x)"
  by (cases x) (auto intro: order_trans [OF of_int_floor_le])

lemma small_add: "small x \<Longrightarrow> \<not> 0 < y \<Longrightarrow> small (x + y)"
  by (cases x; cases y) (auto simp: plus_f64_def less_f64_def zero_f64_def intro!: f64_of_rat_small)

lemma small_diff: "small x \<Longrightarrow> nonneg y \<Longrightarrow> small (x - y)"
  by (cases x; cases y)
    (auto simp: minus_f64_def less_f64_def zero_f64_def nonneg_def intro!: f64_of_rat_small)

lemma small_max: "small x \<Longrightarrow> small y \<Longrightarrow> small (f64_max x y)"
  by (simp add: f64_max_def)

section \<open>What is left of a capped order\<close>

abbreviation whole_shares :: "host_params \<Rightarrow> bool" where
  "whole_shares hp \<equiv> \<not> value_or (hp_allow_fractional_shares hp) False"

definition order_size :: "order \<Rightarrow> nat" where
  "order_size ord = Suc (case order_quantity ord of Fin q \<Rightarrow> nat \<lceil>q\<rceil> | _ \<Rightarrow> 0)"

lemma diff_share:
  assumes "1 \<le> m" "m < q" "q \<le> 2 ^ 53" "Fin q - Fin m = Fin r"
  shows "r \<le> of_int (\<lceil>q\<rceil> - 1)"
proof -
  let ?n = "\<lceil>q\<rceil> - 1"
  have n: "0 \<le> ?n" "?n < 2 ^ 53" using assms(1-3) by (simp_all add: ceiling_le_iff le_ceiling_iff) 
  have le: "q - m \<le> of_int ?n" using assms(1) by (simp add: algebra_simps) linarith
  have "\<bar>q - m\<bar> \<le> pow2 1000"
  proof -
    have "(2 ^ 53 :: rat) \<le> pow2 1000" using pow2_le [of 53 1000] by (simp add: pow2_powi)
    then show ?thesis using assms(1-3) by linarith
  qed
  then have "r = rnd_rat (q - m)"
    using assms(4) f64_of_rat_finite [of "q - m"] by (simp add: minus_f64_def)
  also have "\<dots> \<le> rnd_rat (of_int ?n)" by (rule rnd_rat_mono [OF le])
  also have "\<dots> = of_int ?n" by (rule rnd_rat_of_int) (use n in linarith)
  finally show ?thesis .
qed

lemma partial_order_volume:
  assumes "execute_order u ord hp st = Exec_success r" "res_partial_order r = Some p" "whole_shares hp"
  shows "\<exists>vol. \<not> fillable_quantity ord hp vol \<le> 0 \<and> 0 < snd (get_fillable_and_remaining_quantities ord hp vol) \<and>
    order_quantity p = snd (get_fillable_and_remaining_quantities ord hp vol)"
  using assms(1)
proof (cases rule: execute_order_successE)
  case (1 prices vol)
  have "0 < snd (get_fillable_and_remaining_quantities ord hp vol) \<and>
      order_quantity p = snd (get_fillable_and_remaining_quantities ord hp vol)"
    using 1(6) assms(2) by (auto simp: execute_fillable_cases mk_success_def split: option.splits if_splits)
  then show ?thesis using 1(5) assms(3) by blast
qed

lemma partial_order_shrinks:
  assumes "execute_order u ord hp st = Exec_success r" "res_partial_order r = Some p"
    and "whole_shares hp" "small (order_quantity ord)"
  shows "small (order_quantity p) \<and> order_size p < order_size ord"
proof -
  obtain vol where v: "\<not> fillable_quantity ord hp vol \<le> 0"
    and p: "0 < snd (get_fillable_and_remaining_quantities ord hp vol)"
      "order_quantity p = snd (get_fillable_and_remaining_quantities ord hp vol)"
    using assms(1-3) partial_order_volume by blast
  then obtain m where m: "m < order_quantity ord" "\<not> f64_floor m \<le> 0" "order_quantity p = order_quantity ord - m"
    using assms(3) by (auto simp: get_fillable_and_remaining_quantities_def fillable_quantity_def Let_def
        split: option.splits if_splits)
  then obtain q x where q: "order_quantity ord = Fin q" "m = Fin x" "x < q"
    using assms(4) by (cases "order_quantity ord"; cases m) (auto simp: less_f64_def less_eq_f64_def zero_f64_def)
  have x: "1 \<le> x" using m(2) by (simp add: q less_eq_f64_def zero_f64_def linorder_not_le) 
  have d: "order_quantity p = Fin q - Fin x" using m(3) q by simp
  have small: "small (order_quantity p)"
    unfolding d by (rule small_diff) (use assms(4) x q(1) in \<open>simp_all add: nonneg_def zero_f64_def\<close>)
  then obtain r where r: "order_quantity p = Fin r"
    using p(1) unfolding p(2) [symmetric] by (cases "order_quantity p") (simp_all add: less_f64_def zero_f64_def)
  have "r \<le> of_int (\<lceil>q\<rceil> - 1)" using diff_share [OF x q(3)] assms(4) d r q(1) by simp
  then have "\<lceil>r\<rceil> \<le> \<lceil>q\<rceil> - 1" by (simp only: ceiling_le_iff)
  moreover have "1 \<le> \<lceil>q\<rceil>" using x q(3) by (simp add: le_ceiling_iff)
  ultimately show ?thesis using small by (simp add: order_size_def r q(1))
qed

section \<open>The invariant\<close>

definition active_ok :: "state \<Rightarrow> bool" where
  "active_ok st \<longleftrightarrow> (\<forall>k q. omap_find (active_buy_fills st) k = Some q \<longrightarrow> nonneg q) \<and>
     (\<forall>k q. omap_find (active_sell_fills st) k = Some q \<longrightarrow> nonneg q)"

definition sized :: "engine \<Rightarrow> bool" where
  "sized e \<longleftrightarrow>
     (\<forall>s\<in>set (order_book e). small (order_quantity (sched_order s))) \<and>
     (\<forall>k. \<forall>b\<in>set (heap_of (buy_limits (limit_book e)) k). small (order_quantity (lb_order b))) \<and>
     (\<forall>k. \<forall>a\<in>set (heap_of (sell_limits (limit_book e)) k). small (order_quantity (ls_order a))) \<and>
     (\<forall>x\<in>set (stop_loss_heap (exit_book e)). small (sl_trigger_quantity x)) \<and>
     (\<forall>y\<in>set (take_profit_heap (exit_book e)). small (tp_trigger_quantity y))"

lemma above_EPSILON_nonneg: "\<not> x \<le> EPSILON \<Longrightarrow> nonneg x"
  unfolding nonneg_def using f64_less_le_trans [OF _ EPSILON_bounds(2)] f64_less_imp_le by blast

lemma less_EPSILON_nonneg: "EPSILON < x \<Longrightarrow> nonneg x"
  by (rule above_EPSILON_nonneg) (metis f64_le_asym)

lemma fifo_loop_nonneg:
  assumes "\<And>k q. omap_find (fst al) k = Some q \<Longrightarrow> nonneg q"
  shows "omap_find (fst (fifo_loop side symbol fs remaining al)) k = Some q \<Longrightarrow> nonneg q"
  using assms
proof (induction side symbol fs remaining al rule: fifo_loop.induct)
  case (2 side symbol f fs remaining active led)
  show ?case
  proof (cases "\<not> remaining \<le> EPSILON \<and> fill_symbol f = symbol \<and> side f")
    case True
    show ?thesis
    proof (cases "omap_find active (fill_uuid f)")
      case None
      then show ?thesis using 2 True by simp
    next
      case (Some available)
      have "nonneg v" if "omap_find (close_active (fill_uuid f) (available - to_close) active) k' = Some v" for k' v to_close
        using that 2(5) above_EPSILON_nonneg by (auto simp: close_active_def split: if_splits)
      then show ?thesis using 2(2) [OF _ _ Some refl] 2(4) True Some by (simp add: Let_def)
    qed
  qed (use 2 in \<open>auto split: if_splits\<close>)
qed simp

lemma reduce_active_simps:
  "active_buy_fills (reduce_active_buy_fills_fifo symbol q st) =
     fst (fifo_loop fill_is_buy symbol (fills st) q (active_buy_fills st, ledger st))"
  "active_sell_fills (reduce_active_buy_fills_fifo symbol q st) = active_sell_fills st"
  "active_sell_fills (reduce_active_sell_fills_fifo symbol q st) =
     fst (fifo_loop fill_is_sell symbol (fills st) q (active_sell_fills st, ledger st))"
  "active_buy_fills (reduce_active_sell_fills_fifo symbol q st) = active_buy_fills st"
  by (simp_all add: reduce_active_buy_fills_fifo_def reduce_active_sell_fills_fifo_def split_beta)

lemma reduce_active_ok:
  assumes "active_ok st"
  shows "active_ok (reduce_active_buy_fills_fifo symbol q st)" "active_ok (reduce_active_sell_fills_fifo symbol q st)"
  using assms unfolding active_ok_def reduce_active_simps
  by (metis fifo_loop_nonneg fst_conv)+

lemma populate_active_ok:
  assumes "active_ok st" "nonneg (fill_quantity f)" "populate_active_fills f current_qty comparison st = (act, st')"
  shows "active_ok st' \<and> (\<forall>k q. act = Some (k, q) \<longrightarrow> nonneg q)"
  using assms reduce_active_ok less_EPSILON_nonneg
  by (auto simp: populate_active_fills_def Let_def split: if_splits)

lemma open_fill_active_ok: "active_ok st \<Longrightarrow> nonneg q \<Longrightarrow> active_ok (open_fill r (k, q) st)"
  by (simp add: active_ok_def open_fill_def Let_def)

lemma book_fill_active_ok:
  assumes "active_ok st" "nonneg (fill_quantity (res_fill r))"
  shows "active_ok (book_fill r st)"
proof -
  define cq where "cq = held_quantity (fill_symbol (res_fill r)) st"
  define cmp where "cmp = (if fill_is_buy (res_fill r) then cq < 0 else 0 < cq)"
  obtain act st' where p: "populate_active_fills (res_fill r) cq cmp st = (act, st')" by fastforce
  have b: "book_fill r st = (case act of None \<Rightarrow> st' | Some act \<Rightarrow> open_fill r act st')"
    unfolding book_fill_def Let_def cq_def [symmetric] cmp_def [symmetric] p by simp
  show ?thesis
    using populate_active_ok [OF assms p] open_fill_active_ok unfolding b by (cases act) auto
qed

lemma update_state_active_ok:
  assumes "active_ok st" "nonneg (fill_quantity (res_fill r))"
  shows "active_ok (update_state r st)"
proof -
  have "active_ok (st\<lparr>cash := c, fills := fs, new_fills := ns\<rparr>)" for c fs ns
    using assms(1) by (simp add: active_ok_def)
  then have "active_ok (book_fill r (st\<lparr>cash := c, fills := fs, new_fills := ns\<rparr>))" for c fs ns
    using book_fill_active_ok assms(2) by blast
  then show ?thesis by (simp add: update_state_def Let_def active_ok_def)
qed

lemma execute_whole_nonneg:
  assumes "execute_order u ord hp st = Exec_success r" "whole_shares hp"
  shows "nonneg (fill_quantity (res_fill r))"
  using assms(1)
proof (cases rule: execute_order_successE)
  case (1 prices vol)
  have "fill_quantity (res_fill r) = fillable_quantity ord hp vol"
    using 1(6) by (auto simp: execute_fillable_cases mk_success_def split: option.splits)
  then show ?thesis using 1(5) assms(2) f64_less_imp_le by (auto simp: nonneg_def)
qed

interpretation active: state_invariant "\<lambda>u hp n st. whole_shares hp \<longrightarrow> active_ok st"
proof unfold_locales
  show "whole_shares hp \<longrightarrow> active_ok (update_state r st)"
    if "whole_shares hp \<longrightarrow> active_ok st" "execute_order (u n) ord hp st = Exec_success r" for u hp n st ord r
    using that update_state_active_ok execute_whole_nonneg by blast
qed (auto simp: active_ok_def prepare_next_bar_state_def record_bar_equity_snapshot_def clear_previous_bar_state_def Let_def)

section \<open>Opening quantities\<close>

lemma f64_of_rat_uminus: "f64_neg (f64_of_rat x) = f64_of_rat (- x)"
  by (simp add: f64_of_rat_def Let_def rnd_rat_uminus)

lemma small_add_left: "small y \<Longrightarrow> \<not> 0 < x \<Longrightarrow> small (x + y)"
  by (cases x; cases y) (auto simp: plus_f64_def less_f64_def zero_f64_def intro!: f64_of_rat_small)

lemma small_neg_add: "small y \<Longrightarrow> \<not> x < 0 \<Longrightarrow> small (- (x + - y))"
  by (cases x; cases y)
    (auto simp: plus_f64_def uminus_f64_def less_f64_def zero_f64_def f64_of_rat_uminus intro!: f64_of_rat_small)

lemma opening_quantity_small: "small q \<Longrightarrow> small (opening_quantity ord st q)"
  unfolding opening_quantity_def calculate_position_opening_quantity_def signed_quantity_def
  by (auto intro!: small_max small_add_left small_neg_add dest: f64_less_imp_le)

lemma fillable_quantity_small:
  assumes "small (order_quantity ord)" "whole_shares hp"
  shows "small (fillable_quantity ord hp vol)"
proof -
  have "small (fst (get_fillable_and_remaining_quantities ord hp vol))"
    using assms(1) small_less
    by (auto simp: get_fillable_and_remaining_quantities_def Let_def split: option.splits)
  then show ?thesis using assms(2) by (simp add: fillable_quantity_def Let_def small_floor)
qed

section \<open>Exit orders\<close>

fun exit_small :: "exit_order \<Rightarrow> bool" where
  "exit_small (Exit_stop_loss x) = small (sl_trigger_quantity x)"
| "exit_small (Exit_take_profit y) = small (tp_trigger_quantity y)"

lemma create_exit_orders_small:
  "small q \<Longrightarrow> list_all exit_small (create_exit_orders ord f st q n)"
  by (auto simp: create_exit_orders_def Let_def mk_stop_loss_def mk_take_profit_def split: option.splits)

lemma execute_order_exits_small:
  assumes "execute_order u ord hp st = Exec_success r" "whole_shares hp" "small (order_quantity ord)"
  shows "list_all exit_small (res_exit_orders r)"
  using assms(1)
  by (cases rule: execute_order_resultE)
    (use create_exit_orders_small opening_quantity_small fillable_quantity_small assms(2,3) in metis)

definition exits_sized :: "exit_order_book \<Rightarrow> bool" where
  "exits_sized book \<longleftrightarrow> (\<forall>x\<in>set (stop_loss_heap book). small (sl_trigger_quantity x)) \<and>
     (\<forall>y\<in>set (take_profit_heap book). small (tp_trigger_quantity y))"

lemma add_exits_sized:
  "exits_sized book \<Longrightarrow> list_all exit_small xs \<Longrightarrow> exits_sized (fold add_exit_order xs book)"
proof (induction xs arbitrary: book)
  case (Cons x xs)
  have "exits_sized (add_exit_order x book)"
    using Cons.prems by (cases x) (auto simp: exits_sized_def add_exit_order_def)
  then show ?case using Cons by simp
qed simp

lemma in_sum_option: "y \<in># (\<Sum>x\<in>#M. mset_option (f x)) \<longleftrightarrow> (\<exists>x\<in>#M. f x = Some y)"
  by (induction M) (auto simp: mset_option_def split: option.splits)

lemma set_reduce_exit_orders:
  "y \<in> set (stop_loss_heap (reduce_exit_orders_by_fill_uuid u q book)) \<longleftrightarrow>
     (\<exists>x\<in>set (stop_loss_heap book). sl_reduce u q x = Some y)"
  "z \<in> set (take_profit_heap (reduce_exit_orders_by_fill_uuid u q book)) \<longleftrightarrow>
     (\<exists>x\<in>set (take_profit_heap book). tp_reduce u q x = Some z)"
  unfolding set_mset_mset [symmetric] mset_reduce_exit_orders in_sum_option by simp_all

lemma reduce_exit_sized:
  assumes "exits_sized book" "nonneg q"
  shows "exits_sized (reduce_exit_orders_by_fill_uuid u q book)"
  using assms small_diff
  by (auto simp: exits_sized_def set_reduce_exit_orders sl_reduce_def tp_reduce_def split: if_splits)

lemma reduce_exits_sized:
  "exits_sized book \<Longrightarrow> \<forall>c\<in>set cs. nonneg (snd c) \<Longrightarrow> exits_sized (reduce_exit_orders_by_fills cs book)"
proof (induction cs arbitrary: book)
  case (Cons c cs)
  have "exits_sized (reduce_exit_orders_by_fill_uuid (fst c) (snd c) book)"
    using Cons.prems by (intro reduce_exit_sized) simp_all
  then show ?case using Cons.IH Cons.prems(2) by (simp add: reduce_exit_orders_by_fills_def split_beta)
qed simp

lemma closed_fills_nonneg:
  assumes "\<And>k q. omap_find active k = Some q \<Longrightarrow> nonneg q"
  shows "\<forall>c\<in>set (closed_fills_loop side symbol active fs remaining). nonneg (snd c)"
  using assms
proof (induction side symbol active fs remaining rule: closed_fills_loop.induct)
  case (2 side symbol active f fs remaining)
  show ?case
  proof (cases "\<not> remaining \<le> EPSILON \<and> fill_symbol f = symbol \<and> side f")
    case True
    show ?thesis
    proof (cases "omap_find active (fill_uuid f)")
      case None
      then show ?thesis using 2(1) [OF _ _ None] 2(4) True by simp
    next
      case (Some available)
      have "nonneg (f64_min available remaining)"
        using f64_min_either [of available remaining] 2(4) [OF Some] above_EPSILON_nonneg [of remaining] True by auto
      then show ?thesis using 2(2) [OF _ _ Some refl] 2(4) True Some by (simp add: Let_def)
    qed
  qed (use 2 in auto)
qed simp

lemma exit_book_after_sized:
  assumes "exits_sized book" "active_ok st" "list_all exit_small (res_exit_orders r)"
  shows "exits_sized (exit_book_after r st book)"
proof -
  have a: "\<forall>c\<in>set (closed_fills_loop side k (active_buy_fills st) fs q). nonneg (snd c)"
    "\<forall>c\<in>set (closed_fills_loop side k (active_sell_fills st) fs q). nonneg (snd c)" for side k fs q
    using assms(2) unfolding active_ok_def by (intro closed_fills_nonneg; blast)+
  have c: "\<forall>c\<in>set (find_buy_fill_uuids_closed_by_sell f st). nonneg (snd c)"
    "\<forall>c\<in>set (find_sell_fill_uuids_closed_by_buy f st). nonneg (snd c)" for f
    unfolding find_buy_fill_uuids_closed_by_sell_def find_sell_fill_uuids_closed_by_buy_def
    using a by (cases "omap_find (positions st) (fill_symbol f)"; simp del: split_paired_All)+
  show ?thesis
    unfolding exit_book_after_def
    using c(1) [of "res_fill r"] c(2) [of "res_fill r"] by (intro add_exits_sized reduce_exits_sized assms(1,3)) auto
qed

section \<open>Keeping the books small\<close>

lemma sized_iff:
  "sized e \<longleftrightarrow> (\<forall>s\<in>set (order_book e). small (order_quantity (sched_order s))) \<and>
     (\<forall>k. \<forall>b\<in>set (heap_of (buy_limits (limit_book e)) k). small (order_quantity (lb_order b))) \<and>
     (\<forall>k. \<forall>a\<in>set (heap_of (sell_limits (limit_book e)) k). small (order_quantity (ls_order a))) \<and>
     exits_sized (exit_book e)"
  by (auto simp: sized_def exits_sized_def)

lemma schedule_order_sized:
  assumes "sized e" "small (order_quantity ord)" "schedule_order hp ord e = Inr e'"
  shows "sized e'"
  using assms
  by (auto simp: sized_iff schedule_order_def bindR_eq_Inr create_scheduled_limit_order_def add_limit_order_def
      create_scheduled_order_def Let_def split: if_splits option.splits)

lemma sized_simps [simp]:
  "sized (e\<lparr>next_uuid := n\<rparr>) = sized e" "sized (e\<lparr>eng_state := st\<rparr>) = sized e"
  by (simp_all add: sized_def)

lemma run_order_sized:
  assumes "sized e" "active_ok (eng_state e)" "whole_shares hp" "small (order_quantity ord)" "run_order u hp ord e = Inr e'"
  shows "sized e'"
proof (cases rule: run_order_cases [of u e ord hp])
  case error
  then show ?thesis using assms(1,5) by auto
next
  case (success r e2)
  have [simp]: "e2 = e'" using success(2) assms(5) by simp
  have x: "exits_sized (exit_book e')"
    using exit_book_after_sized [OF _ assms(2) execute_order_exits_small [OF success(1) assms(3,4)]] assms(1) success(5)
    by (simp add: sized_iff)
  have p: "small (order_quantity p)" if "res_partial_order r = Some p" for p
    using partial_order_shrinks [OF success(1) that assms(3,4)] by simp
  consider (none) "limit_book e' = limit_book e" "order_book e' = order_book e"
    | (limit) p slo where "res_partial_order r = Some p" "order_book e' = order_book e"
        "create_scheduled_limit_order p = Inr slo" "limit_book e' = add_limit_order slo (limit_book e)"
    | (market) p where "res_partial_order r = Some p" "limit_book e' = limit_book e"
        "order_book e' = heap_push sched_less (create_scheduled_order p hp (eng_state e)) (order_book e)"
    using handle_rest [OF success(3)] by auto
  then show ?thesis
  proof cases
    case none
    then show ?thesis using x assms(1) by (simp add: sized_iff)
  next
    case limit
    then show ?thesis using x assms(1) p [OF limit(1)]
      by (auto simp: sized_iff create_scheduled_limit_order_def add_limit_order_def Let_def split: option.splits if_splits)
  next
    case market
    then show ?thesis using x assms(1) p [OF market(1)] by (auto simp: sized_iff create_scheduled_order_def)
  qed
qed

lemma sized_pop_order:
  assumes "sized e" "heap_top (order_book e) = Some s"
  shows "small (order_quantity (sched_order s)) \<and> sized (e\<lparr>order_book := heap_pop sched_less (order_book e)\<rparr>)"
  using assms set_heap_pop [of sched_less "order_book e"] by (auto simp: sized_iff heap_top_Some)

lemma sized_pop_buy:
  assumes "sized e" "heap_top (heap_of (buy_limits (limit_book e)) k) = Some lo"
  shows "small (order_quantity (lb_order lo)) \<and> sized (e\<lparr>limit_book := (limit_book e)\<lparr>buy_limits :=
    omap_upd k (heap_pop lb_greater (heap_of (buy_limits (limit_book e)) k)) (buy_limits (limit_book e))\<rparr>\<rparr>)"
proof -
  have "small (order_quantity (lb_order b))" if "b \<in> set (heap_pop lb_greater (heap_of (buy_limits (limit_book e)) k))" for b
    using that assms(1) set_heap_pop [of lb_greater "heap_of (buy_limits (limit_book e)) k"] by (auto simp: sized_iff)
  moreover have "lo \<in> set (heap_of (buy_limits (limit_book e)) k)" using assms(2) by (simp add: heap_top_Some)
  ultimately show ?thesis using assms by (auto simp: sized_iff)
qed

lemma sized_pop_sell:
  assumes "sized e" "heap_top (heap_of (sell_limits (limit_book e)) k) = Some lo"
  shows "small (order_quantity (ls_order lo)) \<and> sized (e\<lparr>limit_book := (limit_book e)\<lparr>sell_limits :=
    omap_upd k (heap_pop ls_less (heap_of (sell_limits (limit_book e)) k)) (sell_limits (limit_book e))\<rparr>\<rparr>)"
proof -
  have "small (order_quantity (ls_order b))" if "b \<in> set (heap_pop ls_less (heap_of (sell_limits (limit_book e)) k))" for b
    using that assms(1) set_heap_pop [of ls_less "heap_of (sell_limits (limit_book e)) k"] by (auto simp: sized_iff)
  moreover have "lo \<in> set (heap_of (sell_limits (limit_book e)) k)" using assms(2) by (simp add: heap_top_Some)
  ultimately show ?thesis using assms by (auto simp: sized_iff)
qed

lemma sized_exits:
  assumes "sized e"
  shows "heap_top (stop_loss_heap (exit_book e)) = Some x \<Longrightarrow> small (sl_trigger_quantity x)"
    and "heap_top (take_profit_heap (exit_book e)) = Some y \<Longrightarrow> small (tp_trigger_quantity y)"
    and "sized (e\<lparr>exit_book := (exit_book e)\<lparr>stop_loss_heap := heap_pop sl_less (stop_loss_heap (exit_book e))\<rparr>\<rparr>)"
    and "sized (e\<lparr>exit_book := (exit_book e)\<lparr>take_profit_heap := heap_pop tp_greater (take_profit_heap (exit_book e))\<rparr>\<rparr>)"
  using assms set_heap_pop [of sl_less "stop_loss_heap (exit_book e)"] set_heap_pop [of tp_greater "take_profit_heap (exit_book e)"]
  by (auto simp: sized_iff exits_sized_def heap_top_Some)

interpretation sized: guarded_invariant "\<lambda>u hp e. whole_shares hp \<longrightarrow> active_ok (eng_state e) \<and> sized e"
  "\<lambda>hp ord. whole_shares hp \<longrightarrow> small (order_quantity ord)" "\<lambda>hp x. whole_shares hp \<longrightarrow> small (sl_trigger_quantity x)"
  "\<lambda>hp y. whole_shares hp \<longrightarrow> small (tp_trigger_quantity y)"
proof (unfold_locales, goal_cases)
  case (1 u hp e ord e')
  then show ?case using active.run_order_keeps [of hp e u ord e'] run_order_sized by blast
next
  case (2 u hp e ord e')
  then show ?case using schedule_order_sized schedule_order_Inr [of hp ord e] by auto
next
  case (3 u hp e s)
  then show ?case using sized_pop_order [of e s] by simp
next
  case (4 u hp e k lo)
  then show ?case using sized_pop_buy [of e k lo] by simp
next
  case (5 u hp e k a)
  then show ?case using sized_pop_sell [of e k a] by simp
next
  case (6 u hp e x)
  then show ?case using sized_exits(1,3) [of e] by (simp add: sl_to_close_instruction_def mk_order_def)
next
  case (7 u hp e y)
  then show ?case using sized_exits(2,4) [of e] by (simp add: tp_to_close_instruction_def mk_order_def)
next
  case (8 u hp e x)
  then show ?case by (simp add: sized_def)
next
  case (9 u hp e y)
  then show ?case by (simp add: sized_def)
next
  case (10 u hp e b)
  then show ?case using active.next_bar by simp
next
  case (11 u hp e)
  then show ?case using active.clear active.snapshot by simp
qed

section \<open>The loops return\<close>

text \<open>
  Fills are not capped, or shares are whole and every quantity is small.  Then executing an order
  leaves at most an order of smaller size, and the total size of a book falls from round to round.
\<close>

definition fits :: "host_params \<Rightarrow> engine \<Rightarrow> bool" where
  "fits hp e \<longleftrightarrow> hp_fill_max_pct_of_volume hp = None \<or> whole_shares hp \<and> active_ok (eng_state e) \<and> sized e"

definition fits_order :: "host_params \<Rightarrow> order \<Rightarrow> bool" where
  "fits_order hp ord \<longleftrightarrow> hp_fill_max_pct_of_volume hp = None \<or> whole_shares hp \<and> small (order_quantity ord)"

lemma fits_uncapped: "hp_fill_max_pct_of_volume hp = None \<Longrightarrow> fits hp e"
  by (simp add: fits_def)

lemma fits_run_order:
  assumes "fits hp e" "fits_order hp ord" "run_order u hp ord e = Inr e'"
  shows "fits hp e'"
  using assms sized.keep_run_order [of hp e ord u e'] by (auto simp: fits_def fits_order_def)

lemma fits_rest:
  assumes "fits_order hp ord" "execute_order u ord hp st = Exec_success r" "res_partial_order r = Some p"
  shows "order_size p < order_size ord"
  using assms no_cap_no_partial [OF assms(2)] partial_order_shrinks [OF assms(2,3)] by (auto simp: fits_order_def)

lemma run_order_rest:
  assumes "fits_order hp ord" "run_order u hp ord e = Inr e'"
  obtains "order_book e' = order_book e" "limit_book e' = limit_book e"
    | s where "order_book e' = heap_push sched_less s (order_book e)" "order_size (sched_order s) < order_size ord"
      "limit_book e' = limit_book e"
    | slo p where "order_book e' = order_book e" "limit_book e' = add_limit_order slo (limit_book e)"
      "create_scheduled_limit_order p = Inr slo" "order_size p < order_size ord"
proof (cases rule: run_order_cases [of u e ord hp])
  case error
  then show thesis using assms(2) that(1) by auto
next
  case (success r e2)
  have [simp]: "e2 = e'" using success(2) assms(2) by simp
  have "sched_order (create_scheduled_order p hp st) = p" for p st by (simp add: create_scheduled_order_def)
  then show thesis using handle_rest [OF success(3)] fits_rest [OF assms(1) success(1)] that by auto
qed

definition book_size :: "('a \<Rightarrow> order) \<Rightarrow> 'a list \<Rightarrow> nat" where
  "book_size f xs = (\<Sum>x\<in>#mset xs. order_size (f x))"

lemma book_size_push [simp]: "book_size f (heap_push bef x xs) = order_size (f x) + book_size f xs"
  by (simp add: book_size_def)

lemma book_size_pop: "heap_top xs = Some x \<Longrightarrow> book_size f xs = order_size (f x) + book_size f (heap_pop bef xs)"
  unfolding book_size_def by (rule mset_pop_sum)

lemma order_size_pos: "0 < order_size ord"
  by (simp add: order_size_def)

lemma fits_pop_order:
  "fits hp e \<Longrightarrow> heap_top (order_book e) = Some s \<Longrightarrow>
   fits_order hp (sched_order s) \<and> fits hp (e\<lparr>order_book := heap_pop sched_less (order_book e)\<rparr>)"
  using sized_pop_order [of e s] by (auto simp: fits_def fits_order_def)

lemma order_book_returns:
  assumes "fits hp e"
  shows "\<exists>e'. execute_order_book u hp b e = Some (Inr e')"
  unfolding execute_order_book_def
proof (rule loop_while_total [where P = "fits hp" and m = "\<lambda>e. book_size sched_order (order_book e)"])
  fix s r assume s: "fits hp s" and "order_book_round u hp b s = Some r"
  then obtain t where t: "heap_top (order_book s) = Some t"
    and r: "r = run_order u hp (sched_order t) (s\<lparr>order_book := heap_pop sched_less (order_book s)\<rparr>)"
    by (auto simp: order_book_round_def split: option.splits if_splits)
  then obtain s' where s': "r = Inr s'" using run_order_total by blast
  have f: "fits_order hp (sched_order t)" "fits hp (s\<lparr>order_book := heap_pop sched_less (order_book s)\<rparr>)"
    using fits_pop_order [OF s t] by auto
  have "book_size sched_order (order_book s') < book_size sched_order (order_book s)"
    using run_order_rest [OF f(1) r [unfolded s', symmetric]] order_size_pos [of "sched_order t"]
    by (cases; simp add: book_size_pop [OF t, where bef = sched_less])
  then show "\<exists>s'. r = Inr s' \<and> fits hp s' \<and> book_size sched_order (order_book s') < book_size sched_order (order_book s)"
    using s' fits_run_order [OF f(2,1) r [unfolded s', symmetric]] by blast
qed (rule assms)

lemma fits_pop_limits:
  assumes "fits hp e"
  shows "heap_top (heap_of (buy_limits (limit_book e)) k) = Some lo \<Longrightarrow>
      fits_order hp (lb_order lo) \<and> fits hp (e\<lparr>limit_book := (limit_book e)\<lparr>buy_limits :=
        omap_upd k (heap_pop lb_greater (heap_of (buy_limits (limit_book e)) k)) (buy_limits (limit_book e))\<rparr>\<rparr>)"
    and "heap_top (heap_of (sell_limits (limit_book e)) k) = Some hi \<Longrightarrow>
      fits_order hp (ls_order hi) \<and> fits hp (e\<lparr>limit_book := (limit_book e)\<lparr>sell_limits :=
        omap_upd k (heap_pop ls_less (heap_of (sell_limits (limit_book e)) k)) (sell_limits (limit_book e))\<rparr>\<rparr>)"
  using assms sized_pop_buy [of e k lo] sized_pop_sell [of e k hi] by (auto simp: fits_def fits_order_def)

text \<open>The rest of a limit order goes to one heap of the limit book.\<close>

lemma add_limit_order_size:
  assumes "create_scheduled_limit_order p = Inr slo" "order_size p < n"
  shows "book_size lb_order (heap_of (buy_limits (add_limit_order slo book)) k) < n + book_size lb_order (heap_of (buy_limits book) k)"
    and "book_size ls_order (heap_of (sell_limits (add_limit_order slo book)) k) < n + book_size ls_order (heap_of (sell_limits book) k)"
  using assms
  by (auto simp: create_scheduled_limit_order_def add_limit_order_def Let_def split: option.splits if_splits)

lemma buy_limit_loop_returns:
  assumes "fits hp e"
  shows "\<exists>e'. loop_while (buy_limit_round u hp k low) e = Some (Inr e') \<and> fits hp e'"
proof -
  let ?m = "\<lambda>e. book_size lb_order (heap_of (buy_limits (limit_book e)) k)"
  let ?pop = "\<lambda>s. s\<lparr>limit_book := (limit_book s)\<lparr>buy_limits :=
      omap_upd k (heap_pop lb_greater (heap_of (buy_limits (limit_book s)) k)) (buy_limits (limit_book s))\<rparr>\<rparr>"
  have round: "\<exists>s'. r = Inr s' \<and> fits hp s' \<and> ?m s' < ?m s"
    if s: "fits hp s" and rd: "buy_limit_round u hp k low s = Some r" for s r
  proof -
    obtain t where t: "heap_top (heap_of (buy_limits (limit_book s)) k) = Some t"
      and r: "r = run_order u hp (lb_order t) (?pop s)"
      using rd by (auto simp: buy_limit_round_def Let_def split: option.splits if_splits)
    obtain s' where s': "r = Inr s'" using r run_order_total by blast
    have f: "fits_order hp (lb_order t)" "fits hp (?pop s)" using fits_pop_limits(1) [OF s t] by auto
    have "?m s' < ?m s"
      using run_order_rest [OF f(1) r [unfolded s', symmetric]]
    proof cases
      case (3 slo p)
      then show ?thesis
        using add_limit_order_size(1) [OF 3(3,4), of "limit_book (?pop s)" k]
        by (simp add: book_size_pop [OF t, where bef = lb_greater])
    qed (use order_size_pos [of "lb_order t"] in \<open>simp_all add: book_size_pop [OF t, where bef = lb_greater]\<close>)
    then show ?thesis using s' fits_run_order [OF f(2,1) r [unfolded s', symmetric]] by blast
  qed
  obtain e' where e': "loop_while (buy_limit_round u hp k low) e = Some (Inr e')"
    using loop_while_total [of "fits hp" e "buy_limit_round u hp k low" ?m] assms round by blast
  moreover have "fits hp e'" using loop_while_inv [OF e', of "fits hp"] assms round by blast
  ultimately show ?thesis by blast
qed

lemma sell_limit_loop_returns:
  assumes "fits hp e"
  shows "\<exists>e'. loop_while (sell_limit_round u hp k high) e = Some (Inr e') \<and> fits hp e'"
proof -
  let ?m = "\<lambda>e. book_size ls_order (heap_of (sell_limits (limit_book e)) k)"
  let ?pop = "\<lambda>s. s\<lparr>limit_book := (limit_book s)\<lparr>sell_limits :=
      omap_upd k (heap_pop ls_less (heap_of (sell_limits (limit_book s)) k)) (sell_limits (limit_book s))\<rparr>\<rparr>"
  have round: "\<exists>s'. r = Inr s' \<and> fits hp s' \<and> ?m s' < ?m s"
    if s: "fits hp s" and rd: "sell_limit_round u hp k high s = Some r" for s r
  proof -
    obtain t where t: "heap_top (heap_of (sell_limits (limit_book s)) k) = Some t"
      and r: "r = run_order u hp (ls_order t) (?pop s)"
      using rd by (auto simp: sell_limit_round_def Let_def split: option.splits if_splits)
    obtain s' where s': "r = Inr s'" using r run_order_total by blast
    have f: "fits_order hp (ls_order t)" "fits hp (?pop s)" using fits_pop_limits(2) [OF s t] by auto
    have "?m s' < ?m s"
      using run_order_rest [OF f(1) r [unfolded s', symmetric]]
    proof cases
      case (3 slo p)
      then show ?thesis
        using add_limit_order_size(2) [OF 3(3,4), of "limit_book (?pop s)" k]
        by (simp add: book_size_pop [OF t, where bef = ls_less])
    qed (use order_size_pos [of "ls_order t"] in \<open>simp_all add: book_size_pop [OF t, where bef = ls_less]\<close>)
    then show ?thesis using s' fits_run_order [OF f(2,1) r [unfolded s', symmetric]] by blast
  qed
  obtain e' where e': "loop_while (sell_limit_round u hp k high) e = Some (Inr e')"
    using loop_while_total [of "fits hp" e "sell_limit_round u hp k high" ?m] assms round by blast
  moreover have "fits hp e'" using loop_while_inv [OF e', of "fits hp"] assms round by blast
  ultimately show ?thesis by blast
qed

lemma buy_limit_symbols_returns: "fits hp e \<Longrightarrow> \<exists>e'. buy_limit_symbols u hp ks e = Some (Inr e') \<and> fits hp e'"
proof (induction ks arbitrary: e)
  case (Cons k ks)
  show ?case
  proof (cases "has_symbol_prices (eng_state e) k")
    case True
    then obtain p :: bar_prices where p: "get_symbol_low (eng_state e) k = Inr (bp_low p)" using symbol_prices_known by blast
    obtain e1 where "loop_while (buy_limit_round u hp k (bp_low p)) e = Some (Inr e1)" "fits hp e1"
      using buy_limit_loop_returns [OF Cons.prems] by blast
    then show ?thesis using Cons.IH p True by simp
  qed (use Cons in simp)
qed simp

lemma sell_limit_symbols_returns: "fits hp e \<Longrightarrow> \<exists>e'. sell_limit_symbols u hp ks e = Some (Inr e') \<and> fits hp e'"
proof (induction ks arbitrary: e)
  case (Cons k ks)
  show ?case
  proof (cases "has_symbol_prices (eng_state e) k")
    case True
    then obtain p :: bar_prices where p: "get_symbol_high (eng_state e) k = Inr (bp_high p)" using symbol_prices_known by blast
    obtain e1 where "loop_while (sell_limit_round u hp k (bp_high p)) e = Some (Inr e1)" "fits hp e1"
      using sell_limit_loop_returns [OF Cons.prems] by blast
    then show ?thesis using Cons.IH p True by simp
  qed (use Cons in simp)
qed simp

lemma limit_orders_return:
  assumes "fits hp e"
  shows "\<exists>e'. execute_limit_orders u hp e = Some (Inr e')"
proof -
  obtain e1 where "process_buy_limits u hp e = Some (Inr e1)" "fits hp e1"
    unfolding process_buy_limits_def using buy_limit_symbols_returns [OF assms] by blast
  moreover obtain e2 where "process_sell_limits u hp e1 = Some (Inr e2)"
    unfolding process_sell_limits_def using sell_limit_symbols_returns [OF \<open>fits hp e1\<close>] by blast
  ultimately show ?thesis by (simp add: execute_limit_orders_def)
qed

section \<open>Orders of a plugin\<close>

text \<open>What the plugin asks for is small: its orders, and its signals by the maximal position size.\<close>

definition asks_small :: "host_params \<Rightarrow> plugin_result \<Rightarrow> bool" where
  "asks_small hp r \<longleftrightarrow> hp_fill_max_pct_of_volume hp = None \<or>
     whole_shares hp \<and> (\<exists>m. hp_max_position_size hp = Some m \<and> m \<le> Fin (2 ^ 53)) \<and>
     (\<forall>c\<in>set (pr_instructions r). case c of CInstr_order x \<Rightarrow> small (cord_quantity x) | _ \<Rightarrow> True)"

lemma signal_to_order_small:
  assumes "signal_to_order s hp st = Inr ord" "hp_max_position_size hp = Some m" "m \<le> Fin (2 ^ 53)"
  shows "small (order_quantity ord)"
proof -
  have "small q" if "\<not> m < q" for q
    using that assms(3) unfolding small_def using f64_le_less_trans by blast
  moreover have "small m" using assms(3) f64_le_asym unfolding small_def by blast
  ultimately show ?thesis
    using assms(1,2)
    by (auto simp: signal_to_order_def bindR_eq_Inr calculate_signal_position_size_def Let_def mk_order_def split: if_splits)
qed

lemma asks_small_only:
  assumes "asks_small hp r" "hp_fill_max_pct_of_volume hp \<noteq> None"
  shows "asks_only (\<lambda>hp ord. whole_shares hp \<longrightarrow> small (order_quantity ord)) hp now r"
  unfolding asks_only_def
proof (intro allI impI)
  fix c i ord st
  assume c: "c \<in> set (pr_instructions r)" and i: "to_instruction now c = Inr i" and o: "order_of_instruction hp st i = Inr ord"
  show "small (order_quantity ord)"
  proof (cases c)
    case (CInstr_signal s)
    then show ?thesis using i o assms signal_to_order_small
      by (auto simp: asks_small_def to_instruction_def order_of_instruction_def)
  next
    case (CInstr_order x)
    then show ?thesis using c i o assms
      by (force simp: asks_small_def to_instruction_def order_of_instruction_def order_of_corder_def)
  qed (use i in \<open>simp add: to_instruction_def\<close>)
qed

end
