(* ===== verification/Completion.thy ===== *)
theory Completion
  imports Sized_Orders
begin

text \<open>
  When a back test completes: the plugin reports no error and only sends orders, or signals for
  the symbol of the bar it is shown, and either fills are not capped by volume, or shares are whole
  and quantities small.
\<close>

section \<open>Prices stay known\<close>

interpretation priced: state_invariant "\<lambda>u hp n st. omap_has (current_bar_prices st) k" for k
  by unfold_locales (auto simp: prepare_next_bar_state_def record_bar_equity_snapshot_def
      clear_previous_bar_state_def Let_def omap_has_def)

lemma next_bar_priced: "omap_has (current_bar_prices (prepare_next_bar_state b st)) (bar_symbol b)"
  by (simp add: prepare_next_bar_state_def)

section \<open>Instructions that schedule\<close>

definition instruction_ok :: "bar \<Rightarrow> cinstruction \<Rightarrow> bool" where
  "instruction_ok b c =
     (case c of CInstr_order x \<Rightarrow> True | CInstr_signal s \<Rightarrow> csig_symbol s = bar_symbol b | CInstr_other t \<Rightarrow> False)"

definition result_ok :: "bar \<Rightarrow> plugin_result \<Rightarrow> bool" where
  "result_ok b r \<longleftrightarrow> pr_code r = 0 \<and> (\<forall>c\<in>set (pr_instructions r). instruction_ok b c)"

text \<open>The answer of a plugin is a result with a property, and no exception.\<close>

definition answers :: "(plugin_result \<Rightarrow> bool) \<Rightarrow> plugin_result result \<Rightarrow> bool" where
  "answers Q x \<longleftrightarrow> (case x of Inl err \<Rightarrow> False | Inr r \<Rightarrow> Q r)"

lemma signal_to_order_Inr:
  assumes "omap_has (current_bar_prices st) (signal_symbol s)"
  shows "\<exists>ord. signal_to_order s hp st = Inr ord"
proof -
  obtain c where c: "get_symbol_close st (signal_symbol s) = Inr c"
    using assms by (auto simp: get_symbol_close_def omap_at_def omap_has_def)
  have "\<exists>x. calculate_signal_stop_loss_price s hp st = Inr x"
    by (auto simp: calculate_signal_stop_loss_price_def c split: option.splits)
  moreover have "\<exists>x. calculate_signal_take_profit_price s hp st = Inr x"
    by (auto simp: calculate_signal_take_profit_price_def c split: option.splits)
  moreover have "\<exists>x. calculate_signal_position_size s hp st = Inr x"
    by (simp add: calculate_signal_position_size_def c Let_def)
  ultimately show ?thesis by (auto simp: signal_to_order_def)
qed

lemma schedule_instruction_Inr:
  assumes "instruction_ok b c" "omap_has (current_bar_prices (eng_state e)) (bar_symbol b)"
  shows "\<exists>e'. schedule_instruction now hp c e = Inr e' \<and> eng_state e' = eng_state e"
proof -
  have s: "\<exists>e'. schedule_order hp ord e = Inr e' \<and> eng_state e' = eng_state e" for ord
    using schedule_order_Inr by blast
  show ?thesis
  proof (cases c)
    case (CInstr_signal x)
    then have "omap_has (current_bar_prices (eng_state e)) (signal_symbol (signal_of_csignal now x))"
      using assms by (simp add: instruction_ok_def signal_of_csignal_def)
    then obtain ord where "signal_to_order (signal_of_csignal now x) hp (eng_state e) = Inr ord"
      using signal_to_order_Inr by blast
    then show ?thesis using s CInstr_signal
      by (simp add: schedule_instruction_def to_instruction_def order_of_instruction_def)
  next
    case (CInstr_order x)
    then show ?thesis using s by (simp add: schedule_instruction_def to_instruction_def order_of_instruction_def)
  qed (use assms in \<open>simp add: instruction_ok_def\<close>)
qed

lemma schedule_instructions_Inr:
  assumes "\<forall>c\<in>set cs. instruction_ok b c" "omap_has (current_bar_prices (eng_state e)) (bar_symbol b)"
  shows "\<exists>e'. iterate_c_instructions (schedule_instruction now hp) cs e = Inr e'"
  using assms
proof (induction cs arbitrary: e)
  case (Cons c cs)
  then obtain e1 where "schedule_instruction now hp c e = Inr e1" "eng_state e1 = eng_state e"
    using schedule_instruction_Inr [of b c e now hp] by auto
  then show ?case using Cons.IH [of e1] Cons.prems by simp
qed simp

section \<open>Bars and runs\<close>

lemma fits_next_bar:
  assumes "fits hp e"
  shows "fits hp (e\<lparr>eng_state := prepare_next_bar_state b (eng_state e)\<rparr>)"
  using assms by (auto simp: fits_def active_ok_def prepare_next_bar_state_def)

lemma fits_order_book:
  assumes "fits hp e" "execute_order_book u hp b e = Some (Inr e')"
  shows "fits hp e'"
  using assms sized.keep_order_book [of hp e u b e'] by (auto simp: fits_def)

lemma run_bar_completes:
  assumes "fits hp e" "\<And>p c. answers (result_ok b) (fst (on_bar p b c))"
  shows "\<exists>e' p'. run_bar u now hp on_bar b (e, p) = Some (Inr (e', p'))"
proof (cases "is_within_market_hour_restrictions (bar_unix_ts_ns b) hp")
  case True
  let ?k = "bar_symbol b"
  obtain e1 where 1: "execute_order_book u hp b (e\<lparr>eng_state := prepare_next_bar_state b (eng_state e)\<rparr>) = Some (Inr e1)"
    using order_book_returns [OF fits_next_bar [OF assms(1)]] by blast
  obtain e2 where 2: "execute_limit_orders u hp e1 = Some (Inr e2)"
    using limit_orders_return [OF fits_order_book [OF fits_next_bar [OF assms(1)] 1]] by blast
  obtain e3 where 3: "execute_exit_orders u hp e2 = Inr e3" using exit_orders_return by blast
  have "omap_has (current_bar_prices (eng_state e1)) ?k"
    by (rule priced.eng.keep_order_book [OF _ 1]) (simp add: next_bar_priced)
  then have "omap_has (current_bar_prices (eng_state e3)) ?k"
    using priced.eng.keep_limit_orders [OF _ 2] priced.eng.keep_exit_orders [OF _ 3] by blast
  moreover obtain r p' where r: "on_bar p b (to_c_state (eng_state e3)) = (Inr r, p')" "result_ok b r"
    using assms(2) [of p "to_c_state (eng_state e3)"]
    by (cases "on_bar p b (to_c_state (eng_state e3))") (auto simp: answers_def split: sum.splits)
  ultimately obtain e4 where "schedule_plugin_instructions now hp r e3 = Inr e4"
    using schedule_instructions_Inr by (fastforce simp: schedule_plugin_instructions_def result_ok_def)
  then show ?thesis using True 1 2 3 r
    by (simp add: run_bar_def Let_def check_result_def result_ok_def)
qed (simp add: run_bar_def)

lemma fits_run_bar:
  assumes "fits hp e" "\<And>p c. answers (asks_small hp) (fst (on_bar p b c))"
    and "run_bar u now hp on_bar b (e, p) = Some (Inr (e', p'))"
  shows "fits hp e'"
proof (cases "hp_fill_max_pct_of_volume hp = None")
  case False
  then have "asks_only (\<lambda>hp ord. whole_shares hp \<longrightarrow> small (order_quantity ord)) hp now r"
    if "fst (on_bar p b c) = Inr r" for p c r
    using asks_small_only [of hp r now] assms(2) [of p c] that by (simp add: answers_def)
  then show ?thesis using sized.keep_run_bar [OF _ _ assms(3)] assms(1) False by (auto simp: fits_def)
qed (simp add: fits_uncapped)

lemma answers_conj: "answers (\<lambda>r. Q r \<and> R r) x \<Longrightarrow> answers Q x \<and> answers R x"
  by (cases x) (simp_all add: answers_def)

lemma run_bars_complete:
  assumes "\<And>b p c. b \<in> set bs \<Longrightarrow> answers (\<lambda>r. result_ok b r \<and> asks_small hp r) (fst (on_bar p b c))"
  shows "fits hp e \<Longrightarrow> \<exists>e' p'. run_bars u now hp on_bar bs (e, p) = Some (Inr (e', p'))"
  using assms
proof (induction bs arbitrary: e p)
  case (Cons b bs)
  obtain e1 p1 where 1: "run_bar u now hp on_bar b (e, p) = Some (Inr (e1, p1))"
    using run_bar_completes [OF Cons.prems(1), of b on_bar] answers_conj [OF Cons.prems(2)] by fastforce
  have "fits hp e1" using fits_run_bar [OF Cons.prems(1) _ 1] answers_conj [OF Cons.prems(2)] by simp
  then show ?case using Cons.IH [of e1 p1] Cons.prems(2) 1 by simp
qed simp

lemma fits_initial: "fits hp e \<Longrightarrow> fits hp (prepare_engine hp e)"
  by (auto simp: fits_def active_ok_def prepare_engine_def prepare_initial_state_def)

lemma run_complete:
  assumes "fits hp e" "\<And>b p c. b \<in> set bars \<Longrightarrow> answers (\<lambda>r. result_ok b r \<and> asks_small hp r) (fst (on_bar p b c))"
    and "\<And>p. answers (\<lambda>r. pr_code r = 0) (fst (on_end p))"
  shows "\<exists>e' p'. run_on_bars u now hp on_bar on_end free bars (e, p) =
    Some (Inr (e', p', \<lparr>some_value = ''some_value'', another_value = ''another_value''\<rparr>))"
proof -
  obtain e1 p1 where "run_bars u now hp on_bar bars (e, p) = Some (Inr (e1, p1))"
    using run_bars_complete [of bars hp on_bar] assms(1,2) by blast
  then show ?thesis using assms(3) [of p1]
    by (auto simp: run_on_bars_def Let_def check_result_def split_beta answers_def split: sum.splits)
qed

end
