(* ===== verification/Scenario.thy ===== *)
theory Scenario
  imports Completion
begin

text \<open>
  A small back test, evaluated by the simplifier: the inputs at which the hypotheses of the
  theorems are shown to hold together.

  The strategy buys ten shares on the first bar with a stop at 95 dollars.  The order is filled
  at the close of the second bar, the stop triggers on the third.
\<close>

definition demo_params :: host_params where
  "demo_params =
     \<lparr>hp_market_hours_only = None, hp_allow_fractional_shares = None, hp_monte_carlo_runs = 0,
      hp_monte_carlo_seed = 0, hp_commission = Some (Fin 1), hp_slippage = None,
      hp_initial_capital = int64_of_int 10000000000, hp_commission_type = Some ''flat'',
      hp_slippage_model = None, hp_default_currency = None, hp_timezone = None,
      hp_optimization_mode = None, hp_backtest_start_datetime = '''', hp_backtest_end_datetime = '''',
      hp_symbols = [], hp_position_sizing_method = None, hp_position_size_value = None,
      hp_max_position_size = None, hp_use_stop_loss = None, hp_stop_loss_pct = None,
      hp_use_take_profit = None, hp_take_profit_pct = None, hp_fill_max_pct_of_volume = None,
      hp_risk_free_rate = None, hp_allow_short_selling = Some False, hp_initial_margin_pct = None,
      hp_max_leverage = None\<rparr>"

definition demo_bar :: "int \<Rightarrow> rat \<Rightarrow> bar" where
  "demo_bar t c =
     \<lparr>bar_symbol = ''ABC'', bar_is_otc = False, bar_tx_count = 1, bar_volume = Fin 1000,
      bar_volume_weighted_price = Fin c, bar_open = Fin c, bar_close = Fin c, bar_high = Fin (c + 1),
      bar_low = Fin (c - 1), bar_unix_ts_ns = int64_of_int t\<rparr>"

definition demo_bars :: "bar list" where
  "demo_bars = [demo_bar 1 100, demo_bar 2 101, demo_bar 3 94]"

text \<open>The state of the plugin counts its calls.\<close>

definition demo_on_bar :: "int on_bar" where
  "demo_on_bar k b st =
     (Inr \<lparr>pr_code = 0, pr_message = None,
       pr_instructions = (if k = 0 then
         [CInstr_order \<lparr>cord_symbol = ''ABC'', cord_action = ''buy'', cord_quantity = Fin 10,
            cord_leverage = Fin 0, cord_limit_price = INT64_MIN,
            cord_stop_loss_price = int64_of_int 95000000, cord_take_profit_price = INT64_MIN,
            cord_order_type = ''market''\<rparr>]
         else [])\<rparr>, k + 1)"

definition demo_on_end :: "int on_end" where
  "demo_on_end k = (Inr \<lparr>pr_code = 0, pr_message = None, pr_instructions = []\<rparr>, Some ''{}'', k)"

definition demo_free :: "int free_string" where
  "demo_free k str = (case str of None \<Rightarrow> k | Some s \<Rightarrow> k + 1)"

definition demo_uuids :: "nat \<Rightarrow> string" where
  "demo_uuids n = replicate n CHR ''u''"

lemma demo_uuids_inj: "inj demo_uuids"
proof (rule injI)
  show "m = n" if "demo_uuids m = demo_uuids n" for m n
    using arg_cong [OF that, of length] by (simp add: demo_uuids_def)
qed

lemma demo_uncapped: "hp_fill_max_pct_of_volume demo_params = None"
  by (simp add: demo_params_def)

lemma demo_result_ok: "answers (result_ok b) (fst (demo_on_bar p b c))"
  by (simp add: demo_on_bar_def result_ok_def instruction_ok_def answers_def)

lemma demo_completes:
  obtains e p report where
    "run_on_bars demo_uuids 0 demo_params demo_on_bar demo_on_end demo_free demo_bars (prepare_engine demo_params empty_engine, 0) = Some (Inr (e, p, report))"
proof -
  have "asks_small demo_params r" for r by (simp add: asks_small_def demo_uncapped)
  then show thesis
    using run_complete [OF fits_uncapped [OF demo_uncapped], of demo_bars demo_on_bar demo_on_end demo_uuids 0 demo_free "prepare_engine demo_params empty_engine" 0]
      demo_result_ok that by (auto simp: demo_on_end_def answers_def split: sum.splits)
qed

text \<open>The same market, of which a bar fills at most a two-hundredth.\<close>

definition capped_run_params :: host_params where
  "capped_run_params =
     demo_params\<lparr>hp_fill_max_pct_of_volume := Some (f64_of_rat (1 / 200)), hp_max_position_size := Some (Fin 100)\<rparr>"

lemma empty_engine_sized: "active_ok (eng_state empty_engine) \<and> sized empty_engine"
  by (simp add: active_ok_def sized_def empty_engine_def empty_state_def empty_exit_order_book_def
      empty_limit_order_book_def heap_of_def omap_empty_def)

lemma capped_run_fits: "fits capped_run_params empty_engine"
  using empty_engine_sized by (simp add: fits_def capped_run_params_def demo_params_def)

lemma capped_run_small:
  "answers (\<lambda>r. result_ok b r \<and> asks_small capped_run_params r) (fst (demo_on_bar p b c))"
  by (simp add: answers_def result_ok_def instruction_ok_def asks_small_def capped_run_params_def demo_params_def demo_on_bar_def)

section \<open>Two executions\<close>

text \<open>The account on the first bar, and an order to buy ten shares with a stop.\<close>

definition demo_state :: state where
  "demo_state = prepare_next_bar_state (demo_bar 1 100) (prepare_initial_state demo_params empty_state)"

definition demo_order :: order where
  "demo_order = mk_order (Fin 10) 0 ''ABC'' ''buy'' MARKET None (Some (Money (int64_of_int 95000000))) None"

lemma demo_buy:
  obtains r where "execute_order ''u'' demo_order demo_params demo_state = Exec_success r"
    "fill_quantity (res_fill r) = Fin 10" "res_margin_used r = Money (int64_of_int 1000000000)"
proof -
  have "case execute_order ''u'' demo_order demo_params demo_state of
      Exec_error msg \<Rightarrow> False
    | Exec_success r \<Rightarrow> fill_quantity (res_fill r) = Fin 10 \<and> res_margin_used r = Money (int64_of_int 1000000000)"
    by code_simp
  then show thesis using that by (auto split: execution_result.splits)
qed

text \<open>An account that holds ten shares from one fill, on a later bar, and an order to sell four.\<close>

definition held_fill :: fill where
  "held_fill = mk_fill ''u'' ''ABC'' ''buy'' (Fin 10) (Money (int64_of_int 100000000)) 1 1 (Money (int64_of_int 1000000000))"

definition held_state :: state where
  "held_state =
     demo_state\<lparr>cash := Money (int64_of_int 8999000000),
       ledger := \<lparr>margin_in_use = Money (int64_of_int 1000000000),
         active_margin_for_fills = [(''u'', Money (int64_of_int 1000000000))],
         active_leverage_for_fills = [(''u'', Fin 1)]\<rparr>,
       positions := [(''ABC'', mk_position ''ABC'' (Fin 10) (Money (int64_of_int 100000000)))],
       fills := [held_fill], active_buy_fills := [(''u'', Fin 10)]\<rparr>"

definition held_order :: order where
  "held_order = mk_order (Fin 4) 0 ''ABC'' ''sell'' MARKET None None None"

lemma held_sell:
  obtains r where "execute_order ''v'' held_order demo_params held_state = Exec_success r"
    "fill_quantity (res_fill r) = Fin 4" "fill_price (res_fill r) = Money (int64_of_int 100000000)"
    "fill_is_sell (res_fill r)" "fill_symbol (res_fill r) = ''ABC''"
proof -
  have "case execute_order ''v'' held_order demo_params held_state of
      Exec_error msg \<Rightarrow> False
    | Exec_success r \<Rightarrow> fill_quantity (res_fill r) = Fin 4 \<and> fill_price (res_fill r) = Money (int64_of_int 100000000) \<and>
        fill_is_sell (res_fill r) \<and> fill_symbol (res_fill r) = ''ABC''"
    by code_simp
  then show thesis using that by (auto split: execution_result.splits)
qed

section \<open>Engines and parameters\<close>

definition demo_engine :: engine where
  "demo_engine =
     empty_engine\<lparr>eng_state := demo_state,
       order_book := [\<lparr>sched_order = demo_order, sched_fill_at_ns = 1\<rparr>,
                      \<lparr>sched_order = held_order, sched_fill_at_ns = int64_of_int 5\<rparr>]\<rparr>"

lemma demo_engine_ok: "books_ok demo_engine"
proof -
  have "is_heap sched_less (order_book demo_engine)" by code_simp
  then show ?thesis using books_ok_empty by (simp add: books_ok_def demo_engine_def)
qed

definition limit_engine :: engine where
  "limit_engine =
     (let buy = mk_order (Fin 10) 0 ''ABC'' ''buy'' LIMIT (Some (Money (int64_of_int 99500000))) None None;
          low = mk_order (Fin 10) 0 ''ABC'' ''buy'' LIMIT (Some (Money (int64_of_int 90000000))) None None
      in demo_engine\<lparr>limit_book := fold add_limit_order
           [Sched_limit_buy \<lparr>lb_order = low, lb_limit_price = Money (int64_of_int 90000000)\<rparr>,
            Sched_limit_buy \<lparr>lb_order = buy, lb_limit_price = Money (int64_of_int 99500000)\<rparr>] empty_limit_order_book\<rparr>)"

lemma limit_engine_ok: "books_ok limit_engine"
  using demo_engine_ok books_ok_empty
  by (simp add: books_ok_def limit_engine_def Let_def add_limit_order_ok limit_order_ok_def good_buy_def
      is_limit_order_def order_is_buy_def mk_order_def empty_engine_def BUY_def LIMIT_def)

definition exit_engine :: engine where
  "exit_engine =
     (let stop = (\<lambda>price. Exit_stop_loss (mk_stop_loss ''ABC'' (Fin 4) (Money (int64_of_int price))
                   (Money (int64_of_int 100000000)) 1 ''u'' False))
      in empty_engine\<lparr>eng_state := held_state,
           exit_book := fold add_exit_order [stop 99500000, stop 90000000] empty_exit_order_book\<rparr>)"

definition stuck_params :: host_params where
  "stuck_params = demo_params\<lparr>hp_fill_max_pct_of_volume := Some (Fin (1 / 2)), hp_commission_type := Some ''per_share'',
     hp_slippage_model := Some ''none'', hp_slippage := Some 0, hp_max_leverage := Some (Fin 2),
     hp_allow_fractional_shares := Some True\<rparr>"

definition stuck_engine :: engine where
  "stuck_engine = empty_engine\<lparr>eng_state := demo_state\<lparr>current_bar_volumes := [(''ABC'', 0)]\<rparr>,
     order_book := [\<lparr>sched_order = demo_order, sched_fill_at_ns = 1\<rparr>]\<rparr>"

definition limit_order :: order where
  "limit_order = mk_order (Fin 10) 0 ''ABC'' ''buy'' LIMIT (Some (Money (int64_of_int 99500000))) None None"

definition capped_params :: host_params where
  "capped_params = demo_params\<lparr>hp_fill_max_pct_of_volume := Some (Fin (1 / 125))\<rparr>"

end
