(* ===== verification/Backtest_Properties.thy ===== *)
theory Backtest_Properties
  imports Scenario
begin

text \<open>
  What a back test guarantees: the properties of whole runs, of the processing of one bar and of
  single executions, stated over the operations of the engine.
\<close>

section \<open>Runs\<close>

text \<open>C2: With short selling forbidden and whole shares only, a run over any bars that starts without a short
  position never holds one: at its end no position has a quantity below zero.\<close>

theorem run_never_short:
  assumes "hp_allow_short_selling hp = Some False" "\<not> value_or (hp_allow_fractional_shares hp) False"
    and "\<forall>x\<in>set (positions (eng_state e)). \<not> pos_quantity (snd x) < 0"
    and "run_on_bars u now hp on_bar on_end free bars (e, p) = Some (Inr (e', p', report))"
  shows "\<forall>x\<in>set (positions (eng_state e')). \<not> pos_quantity (snd x) < 0"
proof -
  have "no_shorts hp (eng_state e)" using assms(3) by (simp add: no_shorts_def)
  then have "no_shorts hp (eng_state e')" by (rule no_short.eng.keep_run) (rule assms(4))
  then show ?thesis using assms(1,2) by (simp add: no_shorts_def)
qed

theorem run_never_short_witness:
  "\<exists>e p report. run_on_bars demo_uuids 0 demo_params demo_on_bar demo_on_end demo_free demo_bars (prepare_engine demo_params empty_engine, 0) = Some (Inr (e, p, report)) \<and>
     (\<forall>x\<in>set (positions (eng_state e)). \<not> pos_quantity (snd x) < 0)"
proof -
  obtain e p report where r:
    "run_on_bars demo_uuids 0 demo_params demo_on_bar demo_on_end demo_free demo_bars (prepare_engine demo_params empty_engine, 0) = Some (Inr (e, p, report))"
    by (rule demo_completes)
  have "\<forall>x\<in>set (positions (eng_state e)). \<not> pos_quantity (snd x) < 0"
    by (rule run_never_short [OF _ _ _ r])
      (simp_all add: demo_params_def prepare_engine_def prepare_initial_state_def empty_engine_def empty_state_def
        value_or_def omap_empty_def)
  then show ?thesis using r by blast
qed

text \<open>C6: The equity curve of a run from a fresh engine: the peak is at least the initial capital
  and every recorded equity, the recorded drawdowns are not negative and never fall, and two
  neighbouring snapshots have different times.\<close>

theorem run_equity_curve:
  assumes "run_on_bars u now hp on_bar on_end free bars (prepare_engine hp empty_engine, p) = Some (Inr (e', p', report))"
  shows "Money (hp_initial_capital hp) \<le> peak_equity (eng_state e') \<and>
    (\<forall>s\<in>set (equity_curve (eng_state e')).
       eq_equity s \<le> peak_equity (eng_state e') \<and>
       0 \<le> eq_max_drawdown s \<and> eq_max_drawdown s \<le> max_drawdown (eng_state e')) \<and>
    0 \<le> max_drawdown (eng_state e') \<and>
    sorted_wrt (\<le>) (map eq_max_drawdown (equity_curve (eng_state e'))) \<and>
    successively (\<noteq>) (map eq_timestamp_ns (equity_curve (eng_state e')))"
proof -
  have "curve_ok hp (eng_state e')"
    by (rule curve.eng.keep_run [OF _ assms])
      (simp add: curve_ok_def prepare_engine_def prepare_initial_state_def empty_engine_def empty_state_def zero_f64_def)
  then show ?thesis by (auto simp: curve_ok_def)
qed

theorem run_equity_curve_witness:
  "\<exists>e p report. run_on_bars demo_uuids 0 demo_params demo_on_bar demo_on_end demo_free demo_bars (prepare_engine demo_params empty_engine, 0) = Some (Inr (e, p, report)) \<and>
     Money (hp_initial_capital demo_params) \<le> peak_equity (eng_state e)"
proof -
  obtain e p report where r:
    "run_on_bars demo_uuids 0 demo_params demo_on_bar demo_on_end demo_free demo_bars (prepare_engine demo_params empty_engine, 0) = Some (Inr (e, p, report))"
    by (rule demo_completes)
  then show ?thesis using run_equity_curve [OF r] by blast
qed



text \<open>C7: At the end of a run from a fresh engine the tops of the books are first in their order: the
  earliest scheduled order, the lowest stop price, the lowest target price, and per symbol the
  highest bid and the lowest ask, each of which rests at its own limit price under its own symbol.\<close>

theorem run_books_ordered:
  assumes "run_on_bars u now hp on_bar on_end free bars (prepare_engine hp empty_engine, p) = Some (Inr (e', p', report))"
  shows "(\<forall>t s. heap_top (order_book e') = Some t \<longrightarrow> s \<in> set (order_book e') \<longrightarrow> sched_fill_at_ns t \<le> sched_fill_at_ns s) \<and>
    (\<forall>t s. heap_top (stop_loss_heap (exit_book e')) = Some t \<longrightarrow> s \<in> set (stop_loss_heap (exit_book e')) \<longrightarrow>
       sl_stop_loss_price t \<le> sl_stop_loss_price s) \<and>
    (\<forall>t s. max_top (take_profit_heap (exit_book e')) = Some t \<longrightarrow> s \<in> set (take_profit_heap (exit_book e')) \<longrightarrow>
       tp_take_profit_price t \<le> tp_take_profit_price s) \<and>
    (\<forall>k t s. max_top (heap_of (buy_limits (limit_book e')) k) = Some t \<longrightarrow> s \<in> set (heap_of (buy_limits (limit_book e')) k) \<longrightarrow>
       lb_limit_price s \<le> lb_limit_price t \<and> order_symbol (lb_order s) = k \<and>
       order_limit_price (lb_order s) = Some (lb_limit_price s)) \<and>
    (\<forall>k t s. heap_top (heap_of (sell_limits (limit_book e')) k) = Some t \<longrightarrow> s \<in> set (heap_of (sell_limits (limit_book e')) k) \<longrightarrow>
       ls_limit_price t \<le> ls_limit_price s \<and> order_symbol (ls_order s) = k \<and>
       order_limit_price (ls_order s) = Some (ls_limit_price s))"
proof -
  have "books_ok (prepare_engine hp empty_engine)"
    using books_ok_empty by (simp add: books_ok_def prepare_engine_def)
  then have ok: "books_ok e'" by (rule books.keep_run) (rule assms)
  note b = side_okD [of lb_greater lb_order good_buy "buy_limits (limit_book e')"]
  note s = side_okD [of ls_less ls_order good_sell "sell_limits (limit_book e')"]
  show ?thesis
    using ok sched_heap.heap_top_first [of "order_book e'"] sl_heap.heap_top_first [of "stop_loss_heap (exit_book e')"]
      tp_heap.heap_top_first [of "take_profit_heap (exit_book e')"]
      b lb_heap.heap_top_first [OF b(1)] s ls_heap.heap_top_first [OF s(1)]
    unfolding books_ok_def exit_book_ok_def limit_book_ok_def
    by (simp add: model_order_defs good_buy_def good_sell_def not_less)
qed

theorem run_books_ordered_witness:
  "\<exists>e p report. run_on_bars demo_uuids 0 demo_params demo_on_bar demo_on_end demo_free demo_bars (prepare_engine demo_params empty_engine, 0) = Some (Inr (e, p, report)) \<and>
     (\<forall>t s. heap_top (order_book e) = Some t \<longrightarrow> s \<in> set (order_book e) \<longrightarrow> sched_fill_at_ns t \<le> sched_fill_at_ns s)"
proof -
  obtain e p report where r:
    "run_on_bars demo_uuids 0 demo_params demo_on_bar demo_on_end demo_free demo_bars (prepare_engine demo_params empty_engine, 0) = Some (Inr (e, p, report))"
    by (rule demo_completes)
  then show ?thesis using run_books_ordered [OF r] by blast
qed

text \<open>C3: The loop of \<^verbatim>\<open>BackTestEngine::run\<close> over its bars and the end of the back test return, with the report of the
  engine, when the plugin reports no error, its
  instructions are orders or signals for the symbol of the bar it is shown, and either fills are not
  capped by the volume of the bar, or shares are whole and no quantity exceeds \<open>2 ^ 53\<close>: then no loop over the books
  runs forever and nothing is thrown, whatever the bars are.  The read of the bars from the store, before the loop,
  is not part of this: it blocks.\<close>

theorem run_on_bars_completes:
  assumes "fits hp e"
    and "\<And>b p c. b \<in> set bars \<Longrightarrow> answers (\<lambda>r. result_ok b r \<and> asks_small hp r) (fst (on_bar p b c))"
    and "\<And>p. answers (\<lambda>r. pr_code r = 0) (fst (on_end p))"
  shows "\<exists>e' p'. run_on_bars u now hp on_bar on_end free bars (e, p) =
    Some (Inr (e', p', \<lparr>some_value = ''some_value'', another_value = ''another_value''\<rparr>))"
  using run_complete [of hp e bars on_bar on_end u now free p] assms by blast

theorem run_on_bars_completes_witness:
  "\<exists>e' p'. run_on_bars demo_uuids 0 capped_run_params demo_on_bar demo_on_end demo_free demo_bars (prepare_engine capped_run_params empty_engine, 0) =
     Some (Inr (e', p', \<lparr>some_value = ''some_value'', another_value = ''another_value''\<rparr>))"
  by (rule run_on_bars_completes [OF fits_initial [OF capped_run_fits]]) (rule capped_run_small, simp add: demo_on_end_def answers_def)

section \<open>The processing of a bar\<close>

text \<open>C10: After the order book has been executed, every order left in it is due after the bar.\<close>

theorem order_book_leaves_later_orders:
  assumes "books_ok e" "execute_order_book u hp b e = Some (Inr e')"
  shows "\<forall>s\<in>set (order_book e'). bar_unix_ts_ns b < sched_fill_at_ns s"
  using order_book_drained [OF assms] by blast

theorem order_book_leaves_later_orders_witness:
  "\<exists>e'. execute_order_book demo_uuids demo_params (demo_bar 1 100) demo_engine = Some (Inr e') \<and>
     (\<forall>s\<in>set (order_book e'). bar_unix_ts_ns (demo_bar 1 100) < sched_fill_at_ns s)"
proof -
  obtain e' where r: "execute_order_book demo_uuids demo_params (demo_bar 1 100) demo_engine = Some (Inr e')"
    using order_book_returns [OF fits_uncapped [OF demo_uncapped]] by blast
  then show ?thesis using order_book_leaves_later_orders [OF demo_engine_ok r] by blast
qed

text \<open>C11: After the limit orders of a bar, every buy limit of a symbol rests below the low of its bar
  and every sell limit above the high.\<close>

theorem limit_orders_rest_outside_bar:
  assumes "books_ok e" "execute_limit_orders u hp e = Some (Inr e')"
    and "omap_find (current_bar_prices (eng_state e')) k = Some prices"
  shows "(\<forall>lo\<in>set (heap_of (buy_limits (limit_book e')) k). lb_limit_price lo < bp_low prices) \<and>
    (\<forall>lo\<in>set (heap_of (sell_limits (limit_book e')) k). bp_high prices < ls_limit_price lo)"
  using limit_books_drained [OF assms(1,2), of k] assms(3) by (simp add: buys_drained_def sells_drained_def)

theorem limit_orders_rest_outside_bar_witness:
  "\<exists>e' prices. execute_limit_orders demo_uuids demo_params limit_engine = Some (Inr e') \<and>
     omap_find (current_bar_prices (eng_state e')) ''ABC'' = Some prices \<and>
     (\<forall>lo\<in>set (heap_of (buy_limits (limit_book e')) ''ABC''). lb_limit_price lo < bp_low prices)"
proof -
  obtain e' where r: "execute_limit_orders demo_uuids demo_params limit_engine = Some (Inr e')"
    using limit_orders_return [OF fits_uncapped [OF demo_uncapped]] by blast
  have "omap_has (current_bar_prices (eng_state limit_engine)) ''ABC''"
    by (simp add: limit_engine_def Let_def demo_engine_def demo_state_def prepare_next_bar_state_def demo_bar_def)
  then have "omap_has (current_bar_prices (eng_state e')) ''ABC''" by (rule priced.eng.keep_limit_orders [OF _ r])
  then obtain prices where p: "omap_find (current_bar_prices (eng_state e')) ''ABC'' = Some prices"
    by (auto simp: omap_has_def)
  then show ?thesis using r limit_orders_rest_outside_bar [OF limit_engine_ok r p] by blast
qed

text \<open>C12: After the exit orders of a bar, every stop loss and every take profit left in the book has a
  symbol with known prices whose bar does not touch it: the low of the bar is above the stop of a
  long position and the high below its target, and the other way round for a short position.\<close>

theorem exit_orders_left_untouched:
  assumes "execute_exit_orders u hp e = Inr e'"
  shows "(\<forall>x\<in>set (stop_loss_heap (exit_book e')).
      \<exists>prices. omap_find (current_bar_prices (eng_state e')) (sl_symbol x) = Some prices \<and>
        (if sl_is_short_position x then bp_high prices < sl_stop_loss_price x
         else sl_stop_loss_price x < bp_low prices)) \<and>
    (\<forall>x\<in>set (take_profit_heap (exit_book e')).
      \<exists>prices. omap_find (current_bar_prices (eng_state e')) (tp_symbol x) = Some prices \<and>
        (if tp_is_short_position x then tp_take_profit_price x < bp_low prices
         else bp_high prices < tp_take_profit_price x))"
  using exit_orders_wait [OF assms]
  by (fastforce simp: sl_waits_def tp_waits_def sl_should_trigger_def tp_should_trigger_def split: option.splits if_splits)

theorem exit_orders_left_untouched_witness:
  "\<exists>e'. execute_exit_orders demo_uuids demo_params exit_engine = Inr e' \<and>
    (\<forall>x\<in>set (stop_loss_heap (exit_book e')).
      \<exists>prices. omap_find (current_bar_prices (eng_state e')) (sl_symbol x) = Some prices \<and>
        (if sl_is_short_position x then bp_high prices < sl_stop_loss_price x
         else sl_stop_loss_price x < bp_low prices))"
proof -
  obtain e' where r: "execute_exit_orders demo_uuids demo_params exit_engine = Inr e'"
    using exit_orders_return by blast
  then show ?thesis using exit_orders_left_untouched [OF r] by blast
qed

text \<open>C13: The order book can keep a bar busy forever.  Take a cap by volume, fractional shares, no slippage, and a
  commission that is zero or not flat.  If a market order to buy a positive whole number of
  shares, without leverage, is due and alone in the book, the account has no position in its symbol, and the bar
  has no volume for it, then nothing is filled, the order is scheduled again for the same bar, and the loop never ends.\<close>

theorem order_book_loops_without_volume:
  assumes "hp_fill_max_pct_of_volume hp = Some (Fin c)" "uncosted hp" "0 < n" "n < 2 ^ 53" "stuck b k n e"
  shows "execute_order_book u hp b e = None"
  by (rule order_book_diverges [OF assms])

theorem order_book_loops_without_volume_witness:
  "hp_commission_type stuck_params = Some ''per_share'' \<and> hp_slippage_model stuck_params = Some ''none'' \<and>
   hp_max_leverage stuck_params = Some (Fin 2) \<and> stuck (demo_bar 1 100) ''ABC'' 10 stuck_engine \<and>
   execute_order_book demo_uuids stuck_params (demo_bar 1 100) stuck_engine = None"
proof -
  have s: "stuck (demo_bar 1 100) ''ABC'' 10 stuck_engine" and p: "uncosted stuck_params" by code_simp+
  have "execute_order_book demo_uuids stuck_params (demo_bar 1 100) stuck_engine = None"
    by (rule order_book_loops_without_volume [OF _ p _ _ s, where c = "1 / 2"]) (simp_all add: stuck_params_def)
  then show ?thesis using s by (simp add: stuck_params_def)
qed

end
