(* ===== verification/Execution_Properties.thy ===== *)
theory Execution_Properties
  imports Scenario
begin

text \<open>
  What single executions, the books and the calculators guarantee.
\<close>

section \<open>Executions\<close>

text \<open>C8: The list of fills that an execution closes, which shrinks the exit orders, is the list by
  which the account shrinks its active fills: reducing the active buys by the closed part of a
  sell takes off exactly the listed quantities.\<close>

theorem closed_fills_match_active:
  assumes "distinct (map fill_uuid (fills st))"
    and "omap_find (positions st) (fill_symbol f) = Some pos" "0 < pos_quantity pos"
  shows "active_buy_fills (reduce_active_buy_fills_fifo (fill_symbol f)
      (f64_min (fill_quantity f) (f64_abs (pos_quantity pos))) st) =
    fold (\<lambda>(u, q) m. close_active u (the (omap_find m u) - q) m)
      (find_buy_fill_uuids_closed_by_sell f st) (active_buy_fills st)"
proof -
  have "f64_abs (pos_quantity pos) = pos_quantity pos" "\<not> pos_quantity pos \<le> 0"
    using assms(3) by (cases "pos_quantity pos"; simp add: f64_ops)+
  then show ?thesis
    using assms(2) closed_fills_reduce_active [OF assms(1) agree_on_refl, of fill_is_buy "fill_symbol f"]
    by (simp add: find_buy_fill_uuids_closed_by_sell_def reduce_active_buy_fills_fifo_def split_beta)
qed

theorem closed_fills_match_active_witness:
  "\<exists>r. execute_order ''v'' held_order demo_params held_state = Exec_success r \<and>
     active_buy_fills (reduce_active_buy_fills_fifo ''ABC'' (f64_min (Fin 4) (f64_abs (Fin 10))) held_state) =
       fold (\<lambda>(u, q) m. close_active u (the (omap_find m u) - q) m)
         (find_buy_fill_uuids_closed_by_sell (res_fill r) held_state) (active_buy_fills held_state)"
proof -
  obtain r where r: "execute_order ''v'' held_order demo_params held_state = Exec_success r"
    "fill_quantity (res_fill r) = Fin 4" "fill_symbol (res_fill r) = ''ABC''" by (rule held_sell)
  have p: "omap_find (positions held_state) (fill_symbol (res_fill r)) = Some (mk_position ''ABC'' (Fin 10) (Money (int64_of_int 100000000)))"
    by (simp add: r(3) held_state_def omap_find_def)
  have "distinct (map fill_uuid (fills held_state))" by (simp add: held_state_def)
  then show ?thesis using closed_fills_match_active [OF _ p] r by (simp add: mk_position_def zero_f64_def)
qed

text \<open>C9: An order is only executed on a symbol with known price and volume, for an exit order only
  while its source fill is active, with a leverage between one and the maximum, and when it opens
  a quantity only if margin and commission do not exceed the available margin.\<close>

theorem executed_orders_are_admissible:
  assumes "execute_order u ord hp st = Exec_success r"
  shows "\<not> order_quantity ord \<le> 0 \<and> has_symbol_prices st (order_symbol ord) \<and> has_symbol_volume st (order_symbol ord) \<and>
    (order_is_exit_order ord \<longrightarrow> (\<forall>s. order_source_fill_uuid ord = Some s \<longrightarrow>
       omap_has (active_buy_fills st) s \<or> omap_has (active_sell_fills st) s)) \<and>
    \<not> res_leverage r < 1 \<and> \<not> value_or (hp_max_leverage hp) 1 < res_leverage r \<and>
    (EPSILON < opening_quantity ord st (fill_quantity (res_fill r)) \<longrightarrow>
       res_margin_used r + order_commission ord hp st (fill_quantity (res_fill r)) (fill_price (res_fill r))
         \<le> calculate_available_margin st)"
proof -
  have 1: "\<not> order_quantity ord \<le> 0" "has_symbol_prices st (order_symbol ord)" "has_symbol_volume st (order_symbol ord)"
    "\<And>s. order_is_exit_order ord \<Longrightarrow> order_source_fill_uuid ord = Some s \<Longrightarrow>
       omap_has (active_buy_fills st) s \<or> omap_has (active_sell_fills st) s"
    using assms by (cases rule: execute_order_successE; simp add: has_symbol_prices_def has_symbol_volume_def omap_has_def)+
  from assms show ?thesis
  proof (cases rule: execute_order_resultE)
    case (1 prices vol q price)
    have e: "\<not> x \<le> EPSILON" if "EPSILON < x" for x using that f64_le_asym f64_less_imp_le f64_le_less_trans by (metis f64_less_irrefl)
    have "\<not> value_or (order_leverage ord) 1 < 1 \<and> \<not> value_or (hp_max_leverage hp) 1 < value_or (order_leverage ord) 1 \<and>
        (EPSILON < opening_quantity ord st q \<longrightarrow>
          order_margin ord hp st q price + order_commission ord hp st q price \<le> calculate_available_margin st)"
      using 1(5) e by (auto simp: validate_margin_def Let_def not_less split: if_splits)
    then show ?thesis using 1 \<open>\<not> order_quantity ord \<le> 0\<close> \<open>has_symbol_prices st (order_symbol ord)\<close>
        \<open>has_symbol_volume st (order_symbol ord)\<close>
        \<open>\<And>s. order_is_exit_order ord \<Longrightarrow> order_source_fill_uuid ord = Some s \<Longrightarrow>
          omap_has (active_buy_fills st) s \<or> omap_has (active_sell_fills st) s\<close> by simp
  qed
qed

theorem executed_orders_are_admissible_witness:
  "\<exists>r. execute_order ''u'' demo_order demo_params demo_state = Exec_success r \<and>
     res_margin_used r + order_commission demo_order demo_params demo_state (fill_quantity (res_fill r)) (fill_price (res_fill r))
       \<le> calculate_available_margin demo_state"
proof -
  obtain r where r: "execute_order ''u'' demo_order demo_params demo_state = Exec_success r"
    "fill_quantity (res_fill r) = Fin 10" by (rule demo_buy)
  have "EPSILON < opening_quantity demo_order demo_state (Fin 10)" by code_simp
  then show ?thesis using executed_orders_are_admissible [OF r(1)] r by auto
qed

text \<open>C17: A market order is filled at the close of the bar; a limit order to buy neither above its limit
  nor above the close, any other limit order neither below its limit nor below the close.\<close>

theorem fill_price_respects_limit:
  assumes "execute_order u ord hp st = Exec_success r"
    and "omap_find (current_bar_prices st) (order_symbol ord) = Some prices"
  shows "(is_limit_order ord \<and> order_limit_price ord = Some l \<and> order_is_buy ord \<longrightarrow>
        fill_price (res_fill r) \<le> l \<and> fill_price (res_fill r) \<le> bp_close prices) \<and>
    (is_limit_order ord \<and> order_limit_price ord = Some l \<and> \<not> order_is_buy ord \<longrightarrow>
        l \<le> fill_price (res_fill r) \<and> bp_close prices \<le> fill_price (res_fill r)) \<and>
    (\<not> is_limit_order ord \<longrightarrow> fill_price (res_fill r) = bp_close prices)"
  using assms(1) by (cases rule: execute_order_resultE) (use assms(2) in \<open>auto simp: calculate_fill_price_def\<close>)

theorem fill_price_respects_limit_witness:
  "\<exists>r. execute_order ''u'' limit_order demo_params demo_state = Exec_success r \<and>
     fill_price (res_fill r) \<le> Money (int64_of_int 99500000)"
proof -
  have "case execute_order ''u'' limit_order demo_params demo_state of Exec_error msg \<Rightarrow> False | Exec_success r \<Rightarrow> True"
    by code_simp
  then obtain r where r: "execute_order ''u'' limit_order demo_params demo_state = Exec_success r"
    by (auto split: execution_result.splits)
  obtain prices where p: "omap_find (current_bar_prices demo_state) (order_symbol limit_order) = Some prices"
    using r by (cases rule: execute_order_successE) blast
  have "is_limit_order limit_order \<and> order_limit_price limit_order = Some (Money (int64_of_int 99500000)) \<and> order_is_buy limit_order"
    by (simp add: limit_order_def mk_order_def is_limit_order_def order_is_buy_def LIMIT_def BUY_def)
  then show ?thesis using fill_price_respects_limit [OF r p] r by blast
qed

section \<open>Books, caps and calendars\<close>

text \<open>C14: The heap of scheduled orders is a priority queue: orders pushed one by one on an empty heap
  and taken from the top until it is empty come out complete and by their fill time.\<close>

theorem order_heap_sorts:
  "mset (drain sched_less (fold (heap_push sched_less) orders [])) = mset orders \<and>
   sorted_wrt (\<le>) (map sched_fill_at_ns (drain sched_less (fold (heap_push sched_less) orders [])))"
proof -
  have h: "is_heap sched_less (fold (heap_push sched_less) orders [])" by (rule sched_heap.pq.inv_push_all) simp
  show ?thesis
    using sched_heap.drain_sorted [OF h] sched_heap.pq.elems_push_all [of orders "[]"]
    by (simp add: sorted_wrt_map sched_less_def not_less)
qed

text \<open>C16: Closing a quantity of a fill changes the exit orders of that fill and no other: each of its
  stop losses and take profits keeps the rest of its quantity, or goes if nothing is left, and
  both vectors are heaps again.\<close>

theorem exit_orders_shrink_with_fill:
  "mset (stop_loss_heap (reduce_exit_orders_by_fill_uuid w q book)) =
     (\<Sum>x\<in>#mset (stop_loss_heap book).
        if sl_fill_uuid x \<noteq> w then {#x#}
        else if q < sl_trigger_quantity x then {#x\<lparr>sl_trigger_quantity := sl_trigger_quantity x - q\<rparr>#} else {#}) \<and>
   mset (take_profit_heap (reduce_exit_orders_by_fill_uuid w q book)) =
     (\<Sum>x\<in>#mset (take_profit_heap book).
        if tp_fill_uuid x \<noteq> w then {#x#}
        else if q < tp_trigger_quantity x then {#x\<lparr>tp_trigger_quantity := tp_trigger_quantity x - q\<rparr>#} else {#}) \<and>
   is_heap sl_less (stop_loss_heap (reduce_exit_orders_by_fill_uuid w q book)) \<and>
   is_heap tp_greater (take_profit_heap (reduce_exit_orders_by_fill_uuid w q book))"
proof -
  have "mset_option (sl_reduce w q x) = (if sl_fill_uuid x \<noteq> w then {#x#}
      else if q < sl_trigger_quantity x then {#x\<lparr>sl_trigger_quantity := sl_trigger_quantity x - q\<rparr>#} else {#})" for x
    by (simp add: sl_reduce_def)
  moreover have "mset_option (tp_reduce w q x) = (if tp_fill_uuid x \<noteq> w then {#x#}
      else if q < tp_trigger_quantity x then {#x\<lparr>tp_trigger_quantity := tp_trigger_quantity x - q\<rparr>#} else {#})" for x
    by (simp add: tp_reduce_def)
  ultimately show ?thesis
    using mset_reduce_exit_orders [of w q book] reduce_exit_orders_ok [of w q book] by (simp add: exit_book_ok_def)
qed

text \<open>C18: Under a cap by volume, an order for more than the cap is filled with at most the cap, and what
  exceeds the cap stays as a rest with all other fields of the order.\<close>

theorem volume_caps_fill:
  assumes "execute_order w ord hp st = Exec_success r"
    and "hp_fill_max_pct_of_volume hp = Some pct"
    and "omap_find (current_bar_volumes st) (order_symbol ord) = Some vol"
    and "int64_to_f64 vol * pct < order_quantity ord"
  shows "fill_quantity (res_fill r) \<le> int64_to_f64 vol * pct \<and>
    (0 < order_quantity ord - int64_to_f64 vol * pct \<longrightarrow>
       res_partial_order r = Some (ord\<lparr>order_quantity := order_quantity ord - int64_to_f64 vol * pct,
                                       order_created_at_ns := current_timestamp_ns st\<rparr>))"
proof -
  have fl: "f64_floor x \<le> x \<and> x \<le> x" if "x < y" for x y
    using that by (cases x; cases y; simp add: f64_ops of_int_floor_le)
  show ?thesis
    using assms(1) by (cases rule: execute_order_resultE)
      (use assms(2-4) fl [OF assms(4)] in \<open>auto simp: fillable_quantity_def get_fillable_and_remaining_quantities_def Let_def\<close>)
qed

theorem volume_caps_fill_witness:
  "\<exists>r. execute_order ''u'' demo_order capped_params demo_state = Exec_success r \<and>
     fill_quantity (res_fill r) \<le> int64_to_f64 (int64_of_int 1000) * Fin (1 / 125)"
proof -
  have "case execute_order ''u'' demo_order capped_params demo_state of Exec_error msg \<Rightarrow> False | Exec_success r \<Rightarrow> True"
    by code_simp
  then obtain r where r: "execute_order ''u'' demo_order capped_params demo_state = Exec_success r"
    by (auto split: execution_result.splits)
  have "omap_find (current_bar_volumes demo_state) (order_symbol demo_order) = Some (int64_of_int 1000)"
    "int64_to_f64 (int64_of_int 1000) * Fin (1 / 125) < order_quantity demo_order" by code_simp+
  then show ?thesis
    using volume_caps_fill [OF r] r by (auto simp: capped_params_def)
qed

text \<open>A signal becomes a market order for its symbol and side without a limit price, stamped with the
  time of the bar, whose quantity is not above the maximal position size.\<close>

lemma signal_quantity_capped:
  assumes "signal_to_order sig hp st = Inr ord" "hp_max_position_size hp = Some m" "0 \<le> m"
  shows "\<not> m < order_quantity ord \<and> is_market_order ord \<and> order_limit_price ord = None \<and>
    order_symbol ord = signal_symbol sig \<and> order_action ord = signal_action sig \<and>
    order_created_at_ns ord = current_timestamp_ns st"
proof -
  have "\<not> m < q" if "calculate_signal_position_size sig hp st = Inr q" for q
  proof -
    have "\<not> m < 0" using assms(3) f64_le_asym by blast
    then show ?thesis
      using that assms(2) by (auto simp: calculate_signal_position_size_def bindR_eq_Inr Let_def split: if_splits)
  qed
  then show ?thesis
    using assms(1) by (auto simp: signal_to_order_def bindR_eq_Inr mk_order_def is_market_order_def)
qed

text \<open>C19: Market hours by the calendar: on the day \<open>d\<close> after a Thursday, at the hour \<open>h\<close> of UTC, the market
  is open unless the day is Saturday or Sunday or the hour lies outside of 9 to 16.\<close>

theorem market_hours_calendar:
  assumes "0 \<le> d" "d < 7" "0 \<le> h" "h < 24" "0 \<le> s" "s < NS_PER_HOUR"
    and "int_of_int64 t = (7 * w + d) * NS_PER_DAY + h * NS_PER_HOUR + s"
  shows "is_within_market_hours t \<longleftrightarrow> d \<noteq> 2 \<and> d \<noteq> 3 \<and> 9 \<le> h \<and> h < 16"
proof -
  have r: "0 \<le> h * NS_PER_HOUR + s" "h * NS_PER_HOUR + s < NS_PER_DAY"
    using assms by (simp_all add: NS_PER_DAY_def NS_PER_HOUR_def)
  have dp: "int_of_int64 t div NS_PER_DAY = 7 * w + d"
    using r unfolding assms(7) by (simp only: add.assoc) (simp add: NS_PER_DAY_def NS_PER_HOUR_def)
  have hour: "(int_of_int64 t - (7 * w + d) * NS_PER_DAY) div NS_PER_HOUR = h"
    using assms(5,6) unfolding assms(7) by (simp add: NS_PER_HOUR_def)
  have wd: "weekday_of_day (7 * w + d) = (d + 4) mod 7"
    unfolding weekday_of_day_def by presburger
  have "(d + 4) mod 7 = 0 \<longleftrightarrow> d = 3" "(d + 4) mod 7 = 6 \<longleftrightarrow> d = 2" using assms(1,2) by presburger+
  then show ?thesis
    unfolding is_within_market_hours_def Let_def dp hour wd by (auto simp: MARK_OPEN_HOUR_def MARKET_CLOSE_HOUR_def)
qed

theorem market_hours_calendar_witness:
  "is_within_market_hours (int64_of_int (10 * NS_PER_HOUR))"
proof -
  have "int_of_int64 (int64_of_int (10 * NS_PER_HOUR)) = (7 * 0 + 0) * NS_PER_DAY + 10 * NS_PER_HOUR + 0" by code_simp
  then show ?thesis
    using market_hours_calendar [of 0 10 0 "int64_of_int (10 * NS_PER_HOUR)" 0] by (simp add: NS_PER_HOUR_def)
qed

end
