(* ===== verification/Lot_Book.thy ===== *)
theory Lot_Book
  imports Run_Properties
begin

text \<open>
  The account of a back test as an implementation of a lot book.

  The account keeps its cash, the margin in use, maps of active quantities and of margins per fill, and
  positions, and changes them in \<^verbatim>\<open>execute_order\<close> and \<^verbatim>\<open>update_state\<close> with three separate loops over the
  log of fills.  The specification is what an accountant would write down: the open lots, oldest first,
  and an amount of money, both functions of the log alone.  For whole shares the account implements it
  through every operation of the engine.
\<close>

section \<open>Whole numbers of shares\<close>

definition whole :: "int \<Rightarrow> f64" where
  "whole n = Fin (of_int n)"

lemma whole_ord [simp]:
  "whole a < whole b \<longleftrightarrow> a < b" "whole a \<le> whole b \<longleftrightarrow> a \<le> b" "whole a = whole b \<longleftrightarrow> a = b"
  by (simp_all add: whole_def)

lemma whole_zero [simp]:
  "whole 0 = 0" "0 < whole a \<longleftrightarrow> 0 < a" "whole a < 0 \<longleftrightarrow> a < 0" "0 \<le> whole a \<longleftrightarrow> 0 \<le> a" "whole a \<le> 0 \<longleftrightarrow> a \<le> 0"
  by (simp_all add: whole_def zero_f64_def)

lemma whole_sign [simp]: "- whole a = whole (- a)" "f64_abs (whole a) = whole \<bar>a\<bar>"
  by (simp_all add: whole_def uminus_f64_def)

lemma whole_min_max [simp]:
  "f64_min (whole a) (whole b) = whole (min a b)" "f64_max 0 (whole b) = whole (max 0 b)"
  by (simp_all add: f64_min_def f64_max_def min_def max_def)

lemma whole_add: "\<bar>a + b\<bar> < 2 ^ 53 \<Longrightarrow> whole a + whole b = whole (a + b)"
  using f64_of_rat_int [of "a + b"] by (simp add: whole_def plus_f64_def)

lemma whole_diff: "\<bar>a - b\<bar> < 2 ^ 53 \<Longrightarrow> whole a - whole b = whole (a - b)"
  using f64_of_rat_int [of "a - b"] by (simp add: whole_def minus_f64_def)

lemma whole_EPSILON [simp]:
  "whole a \<le> EPSILON \<longleftrightarrow> a \<le> 0" "EPSILON < whole a \<longleftrightarrow> 0 < a" "whole a < EPSILON \<longleftrightarrow> a \<le> 0"
proof -
  let ?r = "rnd_rat (1 / 10000)"
  have r: "0 < ?r" "?r < 1" by code_simp+
  have "of_int a \<le> ?r \<longleftrightarrow> a \<le> 0" "of_int a < ?r \<longleftrightarrow> a \<le> 0"
    using r by (auto simp flip: of_int_le_iff of_int_less_iff intro: le_less_trans)
  then show "whole a \<le> EPSILON \<longleftrightarrow> a \<le> 0" "EPSILON < whole a \<longleftrightarrow> 0 < a" "whole a < EPSILON \<longleftrightarrow> a \<le> 0"
    unfolding EPSILON_bounds(1) whole_def by (simp_all add: not_le [symmetric])
qed

section \<open>The lot book\<close>

text \<open>
  A lot is a fill and the number of its shares that are still held.  A fill closes lots of its
  symbol that were opened by the other side, oldest first, and opens a lot with the shares that are
  left over.
\<close>

type_synonym lot = "fill \<times> int"

definition opposes :: "fill \<Rightarrow> fill \<Rightarrow> bool" where
  "opposes f g \<longleftrightarrow> fill_symbol g = fill_symbol f \<and>
     (fill_is_sell f \<and> fill_is_buy g \<or> fill_is_buy f \<and> fill_is_sell g)"

definition shares :: "fill \<Rightarrow> int" where
  "shares f = (case fill_quantity f of Fin x \<Rightarrow> \<lfloor>x\<rfloor> | _ \<Rightarrow> 0)"

fun close_lots :: "fill \<Rightarrow> int \<Rightarrow> lot list \<Rightarrow> lot list" where
  "close_lots f n [] = []"
| "close_lots f n ((g, k) # ls) =
     (if n \<le> 0 then (g, k) # ls
      else if \<not> opposes f g then (g, k) # close_lots f n ls
      else if k \<le> n then close_lots f (n - k) ls
      else (g, k - n) # ls)"

text \<open>The profit of closing \<open>n\<close> shares of a lot, with the rounding of the program's \<^verbatim>\<open>Money\<close>.\<close>

definition lot_profit :: "fill \<Rightarrow> fill \<Rightarrow> int \<Rightarrow> money" where
  "lot_profit f g n =
     money_mul (if fill_is_sell f then fill_price f - fill_price g else fill_price g - fill_price f) (whole n)"

fun lots_profit :: "fill \<Rightarrow> int \<Rightarrow> lot list \<Rightarrow> money" where
  "lots_profit f n [] = 0"
| "lots_profit f n ((g, k) # ls) =
     (if n \<le> 0 then 0
      else if \<not> opposes f g then lots_profit f n ls
      else lot_profit f g (min k n) + lots_profit f (n - min k n) ls)"

definition opposing :: "fill \<Rightarrow> lot list \<Rightarrow> int" where
  "opposing f ls = (\<Sum>(g, k)\<leftarrow>ls. if opposes f g then k else 0)"

definition closed_shares :: "fill \<Rightarrow> lot list \<Rightarrow> int" where
  "closed_shares f ls = min (shares f) (opposing f ls)"

text \<open>
  A fill that closes a position and opens one on the other side pays the margin of the opened
  shares, but the account only records the share of it that the opened shares have in the fill.
\<close>

definition lost_margin :: "fill \<Rightarrow> lot list \<Rightarrow> money" where
  "lost_margin f ls =
     (let c = closed_shares f ls in
      if 0 < c \<and> c < shares f
      then fill_margin_used f - money_mul (fill_margin_used f) (whole (shares f - c) / whole (shares f))
      else 0)"

definition trade :: "host_params \<Rightarrow> fill \<Rightarrow> money \<times> lot list \<Rightarrow> money \<times> lot list" where
  "trade hp f acc =
     (let (m, ls) = acc; c = closed_shares f ls in
      (m + lots_profit f c ls - calculate_commision f hp - lost_margin f ls,
       close_lots f c ls @ (if c < shares f then [(f, shares f - c)] else [])))"

definition settle :: "host_params \<Rightarrow> fill list \<Rightarrow> money \<times> lot list" where
  "settle hp fs = fold (trade hp) fs (Money (hp_initial_capital hp), [])"

text \<open>The shares of a symbol that the lots add up to, a bought share counting 1 and a sold one -1.\<close>

definition net_shares :: "string \<Rightarrow> lot list \<Rightarrow> int" where
  "net_shares s ls = (\<Sum>(g, k)\<leftarrow>ls. if fill_symbol g = s then (if fill_is_buy g then k else - k) else 0)"

definition one_side :: "fill \<Rightarrow> bool" where
  "one_side f \<longleftrightarrow> fill_is_buy f \<noteq> fill_is_sell f"

definition lots_ok :: "int \<Rightarrow> lot list \<Rightarrow> bool" where
  "lots_ok most ls \<longleftrightarrow>
     (\<forall>(g, k)\<in>set ls. 0 < k \<and> one_side g) \<and> (\<Sum>(g, k)\<leftarrow>ls. k) \<le> most \<and>
     (\<forall>(g, k)\<in>set ls. \<forall>(h, l)\<in>set ls. \<not> opposes g h)"

section \<open>The lot book alone\<close>

lemma opposing_simps [simp]:
  "opposing f [] = 0" "opposing f ((g, k) # ls) = (if opposes f g then k else 0) + opposing f ls"
  "opposing f (ls @ ls') = opposing f ls + opposing f ls'"
  by (simp_all add: opposing_def)

lemma net_shares_simps [simp]:
  "net_shares s [] = 0"
  "net_shares s ((g, k) # ls) = (if fill_symbol g = s then (if fill_is_buy g then k else - k) else 0) + net_shares s ls"
  "net_shares s (ls @ ls') = net_shares s ls + net_shares s ls'"
  by (simp_all add: net_shares_def)

lemma opposing_nonneg: "\<forall>(g, k)\<in>set ls. 0 < k \<Longrightarrow> 0 \<le> opposing f ls"
  by (induction ls) auto

lemma close_lots_none: "n \<le> 0 \<Longrightarrow> close_lots f n ls = ls"
  by (cases ls) auto

lemma close_lots_subset: "(g, k) \<in> set (close_lots f n ls) \<Longrightarrow> \<exists>l. (g, l) \<in> set ls"
  by (induction f n ls rule: close_lots.induct) (auto split: if_splits)

lemma close_lots_pos: "\<forall>(g, k)\<in>set ls. 0 < k \<Longrightarrow> (g, k) \<in> set (close_lots f n ls) \<Longrightarrow> 0 < k"
  by (induction f n ls rule: close_lots.induct) (auto split: if_splits)

lemma close_lots_opposing:
  assumes "\<forall>(g, k)\<in>set ls. 0 < k" "0 \<le> n" "n \<le> opposing f ls"
  shows "opposing f (close_lots f n ls) = opposing f ls - n"
  using assms by (induction f n ls rule: close_lots.induct) auto

lemma close_lots_total:
  assumes "\<forall>(g, k)\<in>set ls. 0 < k" "0 \<le> n" "n \<le> opposing f ls"
  shows "(\<Sum>(g, k)\<leftarrow>close_lots f n ls. k) = (\<Sum>(g, k)\<leftarrow>ls. k) - n"
  using assms by (induction f n ls rule: close_lots.induct) auto

lemma close_lots_net:
  assumes "\<forall>(g, k)\<in>set ls. 0 < k \<and> one_side g" "one_side f" "0 \<le> n" "n \<le> opposing f ls"
  shows "net_shares s (close_lots f n ls) =
    net_shares s ls + (if s = fill_symbol f then (if fill_is_buy f then n else - n) else 0)"
  using assms by (induction f n ls rule: close_lots.induct) (auto simp: opposes_def one_side_def)

lemma opposing_zero:
  assumes "\<forall>(g, k)\<in>set ls. 0 < k" "opposing f ls = 0" "(g, k) \<in> set ls"
  shows "\<not> opposes f g"
  using assms
proof (induction ls)
  case (Cons l ls)
  have "0 \<le> opposing f ls" using Cons.prems(1) by (intro opposing_nonneg) auto
  then show ?case using Cons by (cases l) (auto split: if_splits)
qed simp

text \<open>The lots of a symbol are on one side, so they oppose a fill by the whole position or not at all.\<close>

lemma opposing_none:
  assumes "\<forall>(g, k)\<in>set ls. 0 < k \<and> one_side g \<and> \<not> opposes f g" "one_side f"
  shows "opposing f ls = 0 \<and>
    (if fill_is_buy f then 0 \<le> net_shares (fill_symbol f) ls else net_shares (fill_symbol f) ls \<le> 0)"
  using assms by (induction ls) (auto simp: opposes_def one_side_def)

lemma opposing_all:
  assumes "\<forall>(g, k)\<in>set ls. 0 < k \<and> one_side g \<and> (fill_symbol g = fill_symbol f \<longrightarrow> opposes f g)" "one_side f"
  shows "0 \<le> opposing f ls \<and>
    net_shares (fill_symbol f) ls = (if fill_is_buy f then - opposing f ls else opposing f ls)"
  using assms by (induction ls) (auto simp: opposes_def one_side_def)

lemma opposing_net:
  assumes "lots_ok most ls" "one_side f"
  shows "opposing f ls =
    max 0 (if fill_is_buy f then - net_shares (fill_symbol f) ls else net_shares (fill_symbol f) ls)"
proof (cases "\<exists>(g, k)\<in>set ls. opposes f g")
  case True
  then obtain g k where g: "(g, k) \<in> set ls" "opposes f g" by blast
  have "opposes f h" if "(h, l) \<in> set ls" "fill_symbol h = fill_symbol f" for h l
    using that g assms unfolding lots_ok_def opposes_def one_side_def by fastforce
  then have "0 \<le> opposing f ls \<and>
      net_shares (fill_symbol f) ls = (if fill_is_buy f then - opposing f ls else opposing f ls)"
    using assms by (intro opposing_all) (auto simp: lots_ok_def)
  then show ?thesis by simp
next
  case False
  then have "opposing f ls = 0 \<and>
      (if fill_is_buy f then 0 \<le> net_shares (fill_symbol f) ls else net_shares (fill_symbol f) ls \<le> 0)"
    using assms by (intro opposing_none) (auto simp: lots_ok_def)
  then show ?thesis by simp
qed

lemma net_shares_bound: "\<forall>(g, k)\<in>set ls. 0 < k \<Longrightarrow> \<bar>net_shares s ls\<bar> \<le> (\<Sum>(g, k)\<leftarrow>ls. k)"
  by (induction ls) auto

lemma lots_ok_pos: "lots_ok most ls \<Longrightarrow> \<forall>(g, k)\<in>set ls. 0 < k"
  by (auto simp: lots_ok_def)

lemma lots_ok_net: "lots_ok most ls \<Longrightarrow> \<bar>net_shares s ls\<bar> \<le> most"
  using net_shares_bound [OF lots_ok_pos, of most ls s] by (simp add: lots_ok_def)

lemma lots_le_total: "\<forall>(g, k)\<in>set (ls :: lot list). 0 < k \<Longrightarrow> (g, k) \<in> set ls \<Longrightarrow> k \<le> (\<Sum>(g, k)\<leftarrow>ls. k)"
proof (induction ls)
  case (Cons l ls)
  have "0 \<le> (\<Sum>(g, k)\<leftarrow>ls. k)" using Cons.prems(1) net_shares_bound [of ls "[]"] by fastforce
  then show ?case using Cons by (cases l) fastforce
qed simp

lemma lots_ok_lot: "lots_ok most ls \<Longrightarrow> (g, k) \<in> set ls \<Longrightarrow> 0 < k \<and> k \<le> most"
  using lots_le_total [OF lots_ok_pos, of most ls g k] lots_ok_pos [of most ls] by (auto simp: lots_ok_def)

lemma trade_lots_ok:
  assumes "lots_ok most ls" "one_side f" "0 < shares f"
  shows "lots_ok (most + shares f) (snd (trade hp f (m, ls)))"
    and "net_shares s (snd (trade hp f (m, ls))) =
      net_shares s ls + (if s = fill_symbol f then (if fill_is_buy f then shares f else - shares f) else 0)"
proof -
  define c where "c = closed_shares f ls"
  have pos: "\<forall>(g, k)\<in>set ls. 0 < k" using assms(1) by (auto simp: lots_ok_def)
  then have c: "0 \<le> c" "c \<le> opposing f ls" "c \<le> shares f" "c < shares f \<Longrightarrow> c = opposing f ls"
    using opposing_nonneg [OF pos, of f] assms(3) by (auto simp: c_def closed_shares_def)
  have ls': "snd (trade hp f (m, ls)) = close_lots f c ls @ (if c < shares f then [(f, shares f - c)] else [])"
    by (simp add: trade_def c_def Let_def)
  show "net_shares s (snd (trade hp f (m, ls))) =
      net_shares s ls + (if s = fill_symbol f then (if fill_is_buy f then shares f else - shares f) else 0)"
    unfolding ls' using close_lots_net [of ls f c s] assms(1,2) c by (auto simp: lots_ok_def)
  have none: "\<not> opposes f g \<and> \<not> opposes g f" if "c < shares f" "(g, k) \<in> set (close_lots f c ls)" for g k
  proof -
    have "opposing f (close_lots f c ls) = 0" using close_lots_opposing [OF pos c(1,2)] c(4) that(1) by simp
    then have "\<not> opposes f g" using close_lots_pos [OF pos] that(2) by (intro opposing_zero) auto
    then show ?thesis by (auto simp: opposes_def)
  qed
  have self: "\<not> opposes f f" using assms(2) by (auto simp: opposes_def one_side_def)
  have old: "0 < k \<and> one_side g \<and> \<not> opposes g h"
    if "(g, k) \<in> set (close_lots f c ls)" "(h, l) \<in> set (close_lots f c ls)" for g k h l
    using close_lots_pos [OF pos that(1)] close_lots_subset [OF that(1)] close_lots_subset [OF that(2)] assms(1)
    unfolding lots_ok_def by fast
  have "(\<Sum>(g, k)\<leftarrow>close_lots f c ls. k) = (\<Sum>(g, k)\<leftarrow>ls. k) - c" using close_lots_total [OF pos c(1,2)] .
  moreover have "(\<Sum>(g, k)\<leftarrow>ls. k) \<le> most" using assms(1) by (simp add: lots_ok_def)
  ultimately show "lots_ok (most + shares f) (snd (trade hp f (m, ls)))"
    unfolding ls' lots_ok_def using old none self assms(2,3) c by auto
qed

section \<open>The active fills of the account\<close>

text \<open>The lots that an account records: the fills that are still active, in the order of the log.\<close>

fun lots_in :: "(fill \<Rightarrow> f64 option) \<Rightarrow> fill list \<Rightarrow> (fill \<times> f64) list" where
  "lots_in act [] = []"
| "lots_in act (f # fs) = (case act f of None \<Rightarrow> lots_in act fs | Some q \<Rightarrow> (f, q) # lots_in act fs)"

definition active_quantity :: "state \<Rightarrow> fill \<Rightarrow> f64 option" where
  "active_quantity st f = omap_find (if fill_is_buy f then active_buy_fills st else active_sell_fills st) (fill_uuid f)"

definition account_lots :: "state \<Rightarrow> (fill \<times> f64) list" where
  "account_lots st = lots_in (active_quantity st) (fills st)"

definition whole_lots :: "lot list \<Rightarrow> (fill \<times> f64) list" where
  "whole_lots ls = map (map_prod id whole) ls"

lemma whole_lots_simps [simp]:
  "whole_lots [] = []" "whole_lots ((g, k) # ls) = (g, whole k) # whole_lots ls"
  "whole_lots (ls @ ls') = whole_lots ls @ whole_lots ls'"
  by (simp_all add: whole_lots_def)

lemma whole_lots_Cons: "(g, q) # xs = whole_lots ls \<longleftrightarrow> (\<exists>k ls'. ls = (g, k) # ls' \<and> q = whole k \<and> xs = whole_lots ls')"
  by (cases ls) (auto simp: whole_lots_def)

lemma lots_in_cong: "(\<And>f. f \<in> set fs \<Longrightarrow> act f = act' f) \<Longrightarrow> lots_in act fs = lots_in act' fs"
  by (induction fs) (auto split: option.splits)

lemma lots_in_append [simp]: "lots_in act (fs @ fs') = lots_in act fs @ lots_in act fs'"
  by (induction fs) (auto split: option.splits)

text \<open>The executor's closing loop realizes the profit of the lots.\<close>

lemma closing_loop_profit:
  assumes "\<And>g. opposes f g \<longleftrightarrow> fill_symbol g = order_symbol ord \<and>
      (order_is_sell ord \<and> fill_is_buy g \<or> order_is_buy ord \<and> fill_is_sell g)"
    and f: "fill_is_sell f = order_is_sell ord" "fill_price f = price"
    and "\<And>g. opposes f g \<Longrightarrow> act g = omap_find active (fill_uuid g)"
    and "lots_in act fs = whole_lots ls" "\<forall>(g, k)\<in>set ls. 0 < k" "n < 2 ^ 53"
  shows "realized_pnl (closing_loop ord price active margins fs (whole n) info) = realized_pnl info + lots_profit f n ls"
  using assms(5-7)
proof (induction fs arbitrary: n ls info)
  case (Cons g fs)
  show ?case
  proof (cases "n \<le> 0 \<or> act g = None")
    case True
    then show ?thesis using Cons.IH [of ls n] Cons.prems assms(1,4) [of g]
      by (cases ls rule: list.exhaust; cases "act g") (auto simp: closing_loop_tiny)
  next
    case False
    then obtain k ls' where ls: "ls = (g, k) # ls'" "act g = Some (whole k)" "lots_in act fs = whole_lots ls'"
      using Cons.prems(1) by (auto simp: whole_lots_Cons)
    have k: "0 < k" using Cons.prems(2) ls by simp
    have d: "whole n - whole (min k n) = whole (n - min k n)" using k False Cons.prems(3) by (intro whole_diff) auto
    show ?thesis
    proof (cases "opposes f g")
      case True
      then have "omap_find active (fill_uuid g) = Some (whole k)" "fill_symbol g = order_symbol ord \<and>
          (order_is_sell ord \<and> fill_is_buy g \<or> order_is_buy ord \<and> fill_is_sell g)"
        using assms(1,4) [of g] ls(2) by simp_all
      then show ?thesis using False True ls(1) k d Cons.IH [OF ls(3)] Cons.prems by (simp add: Let_def lot_profit_def f)
    next
      case opp: False
      then show ?thesis using False ls(1) Cons.IH [OF ls(3), of n] Cons.prems assms(1) [of g] by (auto simp: Let_def)
    qed
  qed
qed (simp add: whole_lots_def)

text \<open>The account's closing loop leaves the lots that the lot book keeps.\<close>

lemma fifo_loop_other:
  "k \<notin> fill_uuid ` set fs \<Longrightarrow> omap_find (fst (fifo_loop side s fs rem (m, led))) k = omap_find m k"
  by (induction fs arbitrary: rem m led) (auto simp: Let_def split: option.splits)

lemma fifo_loop_tiny: "rem \<le> EPSILON \<Longrightarrow> fifo_loop side s fs rem (m, led) = (m, led)"
  by (cases fs) simp_all

lemma fifo_loop_lots:
  assumes "\<And>g. opposes f g \<longleftrightarrow> fill_symbol g = fill_symbol f \<and> side g"
    and "distinct (map fill_uuid fs)"
    and "lots_in (\<lambda>g. if side g then omap_find m (fill_uuid g) else other g) fs = whole_lots ls"
    and "\<forall>(g, k)\<in>set ls. 0 < k \<and> k < 2 ^ 53" "n < 2 ^ 53"
  shows "lots_in (\<lambda>g. if side g then omap_find (fst (fifo_loop side (fill_symbol f) fs (whole n) (m, led))) (fill_uuid g)
      else other g) fs = whole_lots (close_lots f n ls)"
  using assms(2-)
proof (induction fs arbitrary: n ls m led)
  case (Cons g fs)
  let ?act = "\<lambda>m g. if side g then omap_find m (fill_uuid g) else other g"
  let ?loop = "\<lambda>n m led. fst (fifo_loop side (fill_symbol f) fs (whole n) (m, led))"
  have fresh: "fill_uuid g \<notin> fill_uuid ` set fs" and d: "distinct (map fill_uuid fs)" using Cons.prems(1) by auto
  have head: "omap_find (?loop n m led) (fill_uuid g) = omap_find m (fill_uuid g)" for n m led
    using fresh by (rule fifo_loop_other)
  show ?case
  proof (cases "n \<le> 0")
    case True
    then have "fifo_loop side (fill_symbol f) (g # fs) (whole n) (m, led) = (m, led)" "close_lots f n ls = ls"
      by (simp_all add: fifo_loop_tiny close_lots_none)
    then show ?thesis using Cons.prems(2) by (simp only: fst_conv)
  next
    case pos: False
    show ?thesis
    proof (cases "?act m g")
      case None
      then have step: "fst (fifo_loop side (fill_symbol f) (g # fs) (whole n) (m, led)) = ?loop n m led"
        using pos by (auto split: if_splits)
      show ?thesis unfolding step using None Cons.IH [OF d, of m ls n led] Cons.prems head by (auto split: if_splits)
    next
      case (Some q)
      then obtain k ls' where ls: "ls = (g, k) # ls'" "q = whole k" "lots_in (?act m) fs = whole_lots ls'"
        using Cons.prems(2) by (auto simp: whole_lots_Cons)
      have k: "0 < k" "k < 2 ^ 53" "\<forall>(g, k)\<in>set ls'. 0 < k \<and> k < 2 ^ 53" using Cons.prems(3) ls by auto
      show ?thesis
      proof (cases "opposes f g")
        case False
        then have step: "fst (fifo_loop side (fill_symbol f) (g # fs) (whole n) (m, led)) = ?loop n m led"
          using pos assms(1) [of g] by auto
        show ?thesis unfolding step
          using Some ls pos False head Cons.IH [OF d ls(3) k(3) Cons.prems(4), of led] by (cases "side g") auto
      next
        case True
        define left where "left = close_active (fill_uuid g) (whole (k - min k n)) m"
        define led' where "led' = release_margin (fill_uuid g) (whole k) (whole (min k n)) led"
        have sg: "side g" "fill_symbol g = fill_symbol f" using True assms(1) by auto
        have e: "whole n - whole (min k n) = whole (n - min k n)" "whole k - whole (min k n) = whole (k - min k n)"
          using k pos Cons.prems(4) by (auto intro!: whole_diff)
        have step: "fst (fifo_loop side (fill_symbol f) (g # fs) (whole n) (m, led)) = ?loop (n - min k n) left led'"
          using pos sg Some ls by (simp add: Let_def e left_def led'_def)
        have "lots_in (?act left) fs = whole_lots ls'"
          unfolding ls(3) [symmetric] left_def
          by (intro lots_in_cong) (use fresh close_active_find in \<open>metis image_eqI\<close>)
        moreover have "omap_find left (fill_uuid g) = (if k \<le> n then None else Some (whole (k - n)))"
          by (simp add: left_def close_active_def)
        ultimately show ?thesis unfolding step
          using sg ls(1) pos True head [of "n - min k n" left led'] Cons.IH [OF d _ k(3), of left "n - min k n" led']
            Cons.prems(4) k
          by (cases "k \<le> n") (simp_all add: close_lots_none)
      qed
    qed
  qed
qed (simp add: whole_lots_def)

section \<open>The account implements the lot book\<close>

text \<open>
  Fills of whole shares, to buy or to sell, whose margin the account multiplies exactly.  In a log
  their shares together stay below \<open>2 ^ 53\<close>, so that all quantities are exact.
\<close>

definition whole_fill :: "fill \<Rightarrow> bool" where
  "whole_fill f \<longleftrightarrow> one_side f \<and> fill_quantity f = whole (shares f) \<and> 0 < shares f \<and>
     \<bar>int_of_int64 (to_microdollars (fill_margin_used f))\<bar> < 2 ^ 53"

definition whole_log :: "fill list \<Rightarrow> bool" where
  "whole_log fs \<longleftrightarrow> (\<forall>f\<in>set fs. whole_fill f) \<and> sum_list (map shares fs) < 2 ^ 53"

definition lot_book :: "host_params \<Rightarrow> state \<Rightarrow> bool" where
  "lot_book hp st \<longleftrightarrow>
     (let (m, ls) = settle hp (fills st) in
      account_lots st = whole_lots ls \<and> funds st = m \<and>
      (\<forall>s. held_quantity s st = whole (net_shares s ls)) \<and>
      (\<forall>s p. omap_find (positions st) s = Some p \<longrightarrow> pos_symbol p = s))"

lemma settle_snoc: "settle hp (fs @ [f]) = trade hp f (settle hp fs)"
  by (simp add: settle_def)

lemma settle_lots_ok: "\<forall>f\<in>set fs. whole_fill f \<Longrightarrow> lots_ok (sum_list (map shares fs)) (snd (settle hp fs))"
proof (induction fs rule: rev_induct)
  case Nil
  then show ?case by (simp add: settle_def lots_ok_def)
next
  case (snoc f fs)
  then show ?case
    using trade_lots_ok(1) [of "sum_list (map shares fs)" "snd (settle hp fs)" f hp "fst (settle hp fs)"]
    by (simp add: settle_snoc whole_fill_def)
qed

text \<open>The lots of a symbol add up to the shares that were bought less those that were sold.\<close>

lemma settle_net:
  "\<forall>f\<in>set fs. whole_fill f \<Longrightarrow> net_shares s (snd (settle hp fs)) =
    (\<Sum>f\<leftarrow>fs. if fill_symbol f = s then (if fill_is_buy f then shares f else - shares f) else 0)"
proof (induction fs rule: rev_induct)
  case Nil
  then show ?case by (simp add: settle_def)
next
  case (snoc f fs)
  then show ?case
    using trade_lots_ok(2) [where f = f and s = s and hp = hp and m = "fst (settle hp fs)" and ls = "snd (settle hp fs)",
        OF settle_lots_ok]
    by (simp add: settle_snoc whole_fill_def eq_commute)
qed

text \<open>An execution of whole shares on an account that holds the lots \<open>ls\<close>.\<close>

definition whole_execution :: "string \<Rightarrow> order \<Rightarrow> host_params \<Rightarrow> state \<Rightarrow> execution_success \<Rightarrow> lot list \<Rightarrow> bool" where
  "whole_execution u ord hp st r ls \<longleftrightarrow>
     execute_order u ord hp st = Exec_success r \<and> whole_fill (res_fill r) \<and>
     (\<exists>most. lots_ok most ls \<and> most + shares (res_fill r) < 2 ^ 53) \<and>
     (\<forall>s. held_quantity s st = whole (net_shares s ls)) \<and>
     distinct (map fill_uuid (fills st)) \<and> u \<notin> fill_uuid ` set (fills st) \<and>
     \<not> omap_has (active_buy_fills st) u \<and> \<not> omap_has (active_sell_fills st) u \<and>
     (\<forall>g\<in>set (fills st). one_side g) \<and> account_lots st = whole_lots ls"

lemma whole_execution_side:
  assumes "whole_execution u ord hp st r ls"
  shows "order_is_buy ord \<or> order_is_sell ord" "fill_is_buy (res_fill r) = order_is_buy ord"
    "fill_is_sell (res_fill r) = order_is_sell ord" "fill_symbol (res_fill r) = order_symbol ord" "fill_uuid (res_fill r) = u"
    "fill_quantity (res_fill r) = whole (shares (res_fill r))"
  using assms by (auto elim!: execute_order_resultE simp: whole_execution_def whole_fill_def one_side_def)

lemma whole_execution_bounds:
  fixes ord ls
  defines "h \<equiv> net_shares (order_symbol ord) ls"
  assumes "whole_execution u ord hp st r ls"
  shows "0 < shares (res_fill r)" "\<bar>h\<bar> + shares (res_fill r) < 2 ^ 53"
    "0 \<le> closed_shares (res_fill r) ls" "closed_shares (res_fill r) ls \<le> shares (res_fill r)"
    "closed_shares (res_fill r) ls = min (shares (res_fill r)) (max 0 (if order_is_buy ord then - h else h))"
proof -
  let ?n = "shares (res_fill r)"
  obtain most where ok: "lots_ok most ls" "most + ?n < 2 ^ 53" using assms(2) by (auto simp: whole_execution_def)
  have f: "one_side (res_fill r)" "0 < ?n" using assms(2) by (auto simp: whole_execution_def whole_fill_def)
  have "\<bar>h\<bar> \<le> most" unfolding h_def by (rule lots_ok_net [OF ok(1)])
  then show "0 < ?n" "\<bar>h\<bar> + ?n < 2 ^ 53" using f ok(2) by linarith+
  show "closed_shares (res_fill r) ls = min ?n (max 0 (if order_is_buy ord then - h else h))"
    using opposing_net [OF ok(1) f(1)] whole_execution_side [OF assms(2)] by (simp add: closed_shares_def h_def)
  then show "0 \<le> closed_shares (res_fill r) ls" "closed_shares (res_fill r) ls \<le> ?n" using f(2) by auto
qed

lemma whole_execution_opens:
  assumes "whole_execution u ord hp st r ls"
  shows "opening_quantity ord st (whole (shares (res_fill r))) = whole (shares (res_fill r) - closed_shares (res_fill r) ls)"
    "whole (shares (res_fill r)) - whole (shares (res_fill r) - closed_shares (res_fill r) ls) = whole (closed_shares (res_fill r) ls)"
proof -
  let ?n = "shares (res_fill r)" and ?h = "net_shares (order_symbol ord) ls"
  note b = whole_execution_bounds [OF assms] and side = whole_execution_side [OF assms]
  have held: "held_quantity s st = whole (net_shares s ls)" for s using assms by (simp add: whole_execution_def)
  have "whole ?h + whole ?n = whole (?h + ?n)" "whole ?h + whole (- ?n) = whole (?h - ?n)"
    using b(1,2) whole_add [of ?h ?n] whole_add [of ?h "- ?n"] by auto
  then show "opening_quantity ord st (whole ?n) = whole (?n - closed_shares (res_fill r) ls)"
    using b(1) side(1) order_not_both [of ord] unfolding b(5)
    by (auto simp: opening_quantity_def calculate_position_opening_quantity_def signed_quantity_def held)
  show "whole ?n - whole (?n - closed_shares (res_fill r) ls) = whole (closed_shares (res_fill r) ls)"
    using b by (simp add: whole_diff)
qed

text \<open>The account after the fill has closed what it closes.\<close>

definition after_closing :: "execution_success \<Rightarrow> lot list \<Rightarrow> state \<Rightarrow> state" where
  "after_closing r ls st =
     (if fill_is_buy (res_fill r) then reduce_active_sell_fills_fifo else reduce_active_buy_fills_fifo)
       (fill_symbol (res_fill r)) (whole (closed_shares (res_fill r) ls)) st"

lemma reduce_active_tiny:
  "q \<le> EPSILON \<Longrightarrow> reduce_active_buy_fills_fifo s q st = st" "q \<le> EPSILON \<Longrightarrow> reduce_active_sell_fills_fifo s q st = st"
  by (simp_all add: reduce_active_buy_fills_fifo_def reduce_active_sell_fills_fifo_def fifo_loop_tiny)

lemma whole_execution_books:
  assumes "whole_execution u ord hp st r ls"
    and st': "\<And>s. held_quantity s st' = held_quantity s st"
  shows "book_fill r st' =
    (if closed_shares (res_fill r) ls < shares (res_fill r)
     then open_fill r (u, whole (shares (res_fill r) - closed_shares (res_fill r) ls)) (after_closing r ls st')
     else after_closing r ls st')"
proof -
  let ?f = "res_fill r" and ?n = "shares (res_fill r)" and ?h = "net_shares (order_symbol ord) ls"
  note b = whole_execution_bounds [OF assms(1)] and side = whole_execution_side [OF assms(1)]
  have held: "held_quantity s st' = whole (net_shares s ls)" for s using assms by (simp add: whole_execution_def)
  show ?thesis
  proof (cases "if order_is_buy ord then ?h < 0 else 0 < ?h")
    case False
    then have "closed_shares ?f ls = 0" using b(1) unfolding b(5) by (auto split: if_splits)
    then show ?thesis
      using False side b(1)
      by (subst book_fill_opens) (auto simp: held after_closing_def reduce_active_tiny not_EPSILON_less_0)
  next
    case True
    then have c: "closed_shares ?f ls = min ?n \<bar>?h\<bar>" using b(5) by (auto split: if_splits)
    define k where "k = closed_shares ?f ls"
    have q: "f64_min (fill_quantity ?f) (f64_abs (held_quantity (fill_symbol ?f) st')) = whole k" "0 < k"
      using True side b(1) c by (auto simp: k_def held split: if_splits)
    have d: "fill_quantity ?f - whole k = whole (?n - k)" using b side(6) by (simp add: k_def whole_diff)
    have "(if fill_is_buy ?f then held_quantity (fill_symbol ?f) st' < 0 else 0 < held_quantity (fill_symbol ?f) st')"
      using True side by (simp add: held)
    then have "book_fill r st' = (case populate_active_fills ?f (held_quantity (fill_symbol ?f) st') True st' of
        (None, st2) \<Rightarrow> st2 | (Some act, st2) \<Rightarrow> open_fill r act st2)"
      by (auto simp: book_fill_def Let_def split: prod.split option.split)
    then show ?thesis
      unfolding k_def [symmetric] populate_active_fills_def Let_def q(1) d
      using q(2) side(5) by (simp add: after_closing_def k_def)
  qed
qed

text \<open>The money of a fill: the profit of the lots it closes, the commission, and what a reversal loses.\<close>

lemma order_commission_fill:
  "calculate_commision (mk_fill u (order_symbol ord) (order_action ord) q price t l m) hp = order_commission ord hp st q price"
  by (simp add: order_commission_def calculate_commision_def Let_def)

lemma whole_execution_profit:
  assumes "whole_execution u ord hp st r ls"
  shows "realized_pnl (calculate_closing_margin_info ord (fill_price (res_fill r)) (whole (closed_shares (res_fill r) ls)) st) =
    lots_profit (res_fill r) (closed_shares (res_fill r) ls) ls"
proof -
  note b = whole_execution_bounds [OF assms] and side = whole_execution_side [OF assms]
  have "account_lots st = whole_lots ls" using assms by (simp add: whole_execution_def)
  moreover have "\<forall>(g, k)\<in>set ls. 0 < k" using assms lots_ok_pos [of _ ls] unfolding whole_execution_def by blast
  ultimately show ?thesis
    unfolding calculate_closing_margin_info_eq account_lots_def
    using b side order_not_both [of ord] fill_not_both
    by (subst closing_loop_profit [where act = "active_quantity st" and ls = ls])
      (auto simp: opposes_def active_quantity_def zero_money_def)
qed

lemma after_closing_simps:
  assumes "whole_execution u ord hp st r ls"
    and "st' = st\<lparr>cash := m, fills := fills st @ [res_fill r], new_fills := nf\<rparr>"
  shows "ledger (after_closing r ls st') = closing_ledger ord (whole (closed_shares (res_fill r) ls)) st"
    and "active_buy_fills (after_closing r ls st') =
      (if order_is_buy ord then active_buy_fills st else fst (fifo_loop fill_is_buy (order_symbol ord) (fills st)
         (whole (closed_shares (res_fill r) ls)) (active_buy_fills st, ledger st)))"
    and "active_sell_fills (after_closing r ls st') =
      (if order_is_buy ord then fst (fifo_loop fill_is_sell (order_symbol ord) (fills st)
         (whole (closed_shares (res_fill r) ls)) (active_sell_fills st, ledger st)) else active_sell_fills st)"
  using whole_execution_side [OF assms(1)] order_not_both [of ord] fifo_loop_snoc [of fill_is_buy "res_fill r"]
    fifo_loop_snoc [of fill_is_sell "res_fill r"]
  unfolding assms(2)
  by (auto simp: after_closing_def closing_ledger_def reduce_active_buy_fills_fifo_def reduce_active_sell_fills_fifo_def split_beta)

lemma whole_execution_margin:
  assumes "whole_execution u ord hp st r ls"
  shows "res_margin_used r = fill_margin_used (res_fill r)"
    and "closed_shares (res_fill r) ls = shares (res_fill r) \<Longrightarrow> res_margin_used r = 0"
    and "closed_shares (res_fill r) ls < shares (res_fill r) \<Longrightarrow> res_margin_used r -
      money_mul (res_margin_used r) (whole (shares (res_fill r) - closed_shares (res_fill r) ls) / fill_quantity (res_fill r)) =
      lost_margin (res_fill r) ls"
proof -
  have ex: "execute_order u ord hp st = Exec_success r" using assms by (simp add: whole_execution_def)
  note b = whole_execution_bounds [OF assms] and side = whole_execution_side [OF assms]
  show m: "res_margin_used r = fill_margin_used (res_fill r)" using ex by (cases rule: execute_order_resultE) simp
  show "res_margin_used r = 0" if "closed_shares (res_fill r) ls = shares (res_fill r)"
    using ex
  proof (cases rule: execute_order_resultE)
    case (1 prices vol q price)
    then show ?thesis
      using whole_execution_opens(1) [OF assms] that side(6) not_EPSILON_less_0
      by (simp add: order_margin_def zero_money_def)
  qed
  have one: "money_mul (fill_margin_used (res_fill r)) (whole (shares (res_fill r)) / whole (shares (res_fill r))) =
      fill_margin_used (res_fill r)"
    using assms b(1) by (simp add: whole_def f64_ratio_self money_mul_1 whole_execution_def whole_fill_def)
  show "res_margin_used r -
      money_mul (res_margin_used r) (whole (shares (res_fill r) - closed_shares (res_fill r) ls) / fill_quantity (res_fill r)) =
      lost_margin (res_fill r) ls" if "closed_shares (res_fill r) ls < shares (res_fill r)"
    unfolding m lost_margin_def Let_def side(6) using that one b(3) by (cases "closed_shares (res_fill r) ls = 0") auto
qed

lemma whole_execution_funds:
  assumes "whole_execution u ord hp st r ls"
  shows "funds (update_state r st) = funds st + lots_profit (res_fill r) (closed_shares (res_fill r) ls) ls -
    calculate_commision (res_fill r) hp - lost_margin (res_fill r) ls"
proof -
  let ?n = "shares (res_fill r)" and ?c = "closed_shares (res_fill r) ls"
  have ex: "execute_order u ord hp st = Exec_success r" "distinct (map fill_uuid (fills st))"
    using assms by (simp_all add: whole_execution_def)
  note b = whole_execution_bounds [OF assms] and side = whole_execution_side [OF assms]
  from ex(1) have cd: "res_cash_delta r = margin_in_use (ledger st) - margin_in_use (closing_ledger ord (whole ?c) st) +
      lots_profit (res_fill r) ?c ls - res_margin_used r - calculate_commision (res_fill r) hp"
  proof (cases rule: execute_order_resultE)
    case (1 prices vol q price)
    have q: "q = whole ?n" "price = fill_price (res_fill r)" using 1(6) side(6) by simp_all
    have comm: "calculate_commision (res_fill r) hp = order_commission ord hp st q price"
      unfolding 1(6) by (rule order_commission_fill)
    show ?thesis
      unfolding 1(9) 1(7) [symmetric] comm [symmetric] unfolding q(1) whole_execution_opens [OF assms]
      unfolding cash_delta_eq [OF side(1)] whole_execution_opens(2) [OF assms] q(2) whole_execution_profit [OF assms]
        closing_info_releases [OF side(1) ex(2)] ..
  qed
  define st1 where "st1 = st\<lparr>cash := cash st + res_cash_delta r, fills := fills st @ [res_fill r],
    new_fills := new_fills st @ [res_fill r]\<rparr>"
  note close = after_closing_simps(1) [OF assms st1_def]
  have "held_quantity s st1 = held_quantity s st" for s by (simp add: st1_def held_quantity_def)
  note book = whole_execution_books [OF assms this]
  have "margin_in_use (ledger (book_fill r st1)) =
      margin_in_use (closing_ledger ord (whole ?c) st) + res_margin_used r - lost_margin (res_fill r) ls"
  proof (cases "?c < ?n")
    case True
    then show ?thesis
      unfolding whole_execution_margin(3) [OF assms True, symmetric]
      by (simp add: book) (simp add: open_fill_def Let_def close)
  next
    case False
    then show ?thesis using b(4) whole_execution_margin(2) [OF assms] by (simp add: book close lost_margin_def Let_def)
  qed
  then show ?thesis using cd by (simp add: funds_def st1_def)
qed

text \<open>The active fills and the position after a fill.\<close>

lemma open_fill_active:
  "active_buy_fills (open_fill r (k, q) st) =
     (if fill_is_buy (res_fill r) then omap_upd k q (active_buy_fills st) else active_buy_fills st)"
  "active_sell_fills (open_fill r (k, q) st) =
     (if fill_is_sell (res_fill r) then omap_upd k q (active_sell_fills st) else active_sell_fills st)"
  using fill_not_both [of "res_fill r"] by (auto simp: open_fill_def Let_def)

lemma whole_execution_lots:
  assumes "whole_execution u ord hp st r ls"
  shows "account_lots (update_state r st) = whole_lots (snd (trade hp (res_fill r) (m, ls)))"
proof -
  let ?f = "res_fill r" and ?n = "shares (res_fill r)" and ?c = "closed_shares (res_fill r) ls"
  define st1 where "st1 = st\<lparr>cash := cash st + res_cash_delta r, fills := fills st @ [?f], new_fills := new_fills st @ [?f]\<rparr>"
  note b = whole_execution_bounds [OF assms] and side = whole_execution_side [OF assms]
  have w: "distinct (map fill_uuid (fills st))" "u \<notin> fill_uuid ` set (fills st)" "account_lots st = whole_lots ls"
    "\<forall>g\<in>set (fills st). one_side g" "omap_find (active_buy_fills st) u = None" "omap_find (active_sell_fills st) u = None"
    using assms by (auto simp: whole_execution_def omap_has_def)
  obtain most where ok: "lots_ok most ls" "most + ?n < 2 ^ 53" using assms by (auto simp: whole_execution_def)
  have lots: "\<forall>(g, k)\<in>set ls. 0 < k \<and> k < 2 ^ 53" using lots_ok_lot [OF ok(1)] ok(2) b(1) by fastforce
  have c53: "?c < 2 ^ 53" using b by linarith
  have "held_quantity s st1 = held_quantity s st" for s by (simp add: st1_def held_quantity_def)
  note book = whole_execution_books [OF assms this] and close = after_closing_simps [OF assms st1_def]
  define after where "after side = (\<lambda>g. if side g then omap_find (fst (fifo_loop side (fill_symbol ?f) (fills st) (whole ?c)
      (if side = fill_is_buy then active_buy_fills st else active_sell_fills st, ledger st))) (fill_uuid g)
    else omap_find (if side = fill_is_buy then active_sell_fills st else active_buy_fills st) (fill_uuid g))" for side
  define side where "side = (if order_is_buy ord then fill_is_sell else fill_is_buy)"
  have sell_buy: "fill_is_sell \<noteq> fill_is_buy" using fill_not_both side(1-3) by metis
  have opp: "opposes ?f g \<longleftrightarrow> fill_symbol g = fill_symbol ?f \<and> side g" for g
    using side order_not_both [of ord] by (auto simp: opposes_def side_def)
  have "lots_in (after side) (fills st) = whole_lots (close_lots ?f ?c ls)"
    unfolding after_def
  proof (rule fifo_loop_lots [OF opp w(1) _ lots c53])
    show "lots_in (\<lambda>g. if side g then omap_find (if side = fill_is_buy then active_buy_fills st else active_sell_fills st) (fill_uuid g)
        else omap_find (if side = fill_is_buy then active_sell_fills st else active_buy_fills st) (fill_uuid g)) (fills st) = whole_lots ls"
      unfolding w(3) [symmetric] account_lots_def using w(4) sell_buy
      by (intro lots_in_cong) (auto simp: active_quantity_def one_side_def side_def)
  qed
  moreover have "lots_in (active_quantity (update_state r st)) (fills st) = lots_in (after side) (fills st)"
  proof (rule lots_in_cong)
    fix g assume g: "g \<in> set (fills st)"
    then have "fill_uuid g \<noteq> u" "one_side g" using w(2,4) by auto
    then show "active_quantity (update_state r st) g = after side g"
      using side order_not_both [of ord] sell_buy
      unfolding active_quantity_def update_state_active st1_def [symmetric] book
      by (auto simp: after_def side_def close open_fill_active one_side_def)
  qed
  moreover have "active_quantity (update_state r st) ?f = (if ?c < ?n then Some (whole (?n - ?c)) else None)"
    using side order_not_both [of ord] w(2,5,6) fifo_loop_other
    unfolding active_quantity_def update_state_active st1_def [symmetric] book
    by (auto simp: close open_fill_active)
  ultimately show ?thesis by (simp add: account_lots_def trade_def Let_def)
qed

lemma calculate_position_whole:
  assumes "held_quantity (order_symbol ord) st = whole h" "\<bar>h\<bar> + n < 2 ^ 53" "0 < n" "order_is_buy ord \<or> order_is_sell ord"
    and "\<And>p. omap_find (positions st) (order_symbol ord) = Some p \<Longrightarrow> pos_symbol p = order_symbol ord"
  shows "pos_quantity (calculate_position ord (whole n) price st) = whole (if order_is_buy ord then h + n else h - n)"
    and "pos_symbol (calculate_position ord (whole n) price st) = order_symbol ord"
proof -
  define pos where "pos = value_or (omap_find (positions st) (order_symbol ord)) (mk_position (order_symbol ord) 0 (Money 0))"
  have pos: "pos_quantity pos = whole h" "pos_symbol pos = order_symbol ord"
    using assms(1,5) by (auto simp: pos_def value_or_def held_quantity_def mk_position_def split: option.splits)
  have a: "whole h + whole n = whole (h + n)" "whole h - whole n = whole (h - n)"
    using assms(2,3) by (auto intro!: whole_add whole_diff)
  have z: "whole \<bar>x\<bar> < EPSILON \<longleftrightarrow> x = 0" for x by (simp only: whole_EPSILON) simp
  show "pos_quantity (calculate_position ord (whole n) price st) = whole (if order_is_buy ord then h + n else h - n)"
    "pos_symbol (calculate_position ord (whole n) price st) = order_symbol ord"
    using assms(4) order_not_both [of ord] pos a
    unfolding calculate_position_def Let_def pos_def [symmetric]
    by (auto simp: z simp del: whole_EPSILON)
qed

lemma whole_execution_position:
  assumes "whole_execution u ord hp st r ls"
    and sym: "\<And>s p. omap_find (positions st) s = Some p \<Longrightarrow> pos_symbol p = s"
  shows "held_quantity s (update_state r st) = whole (net_shares s (snd (trade hp (res_fill r) (m, ls))))"
    and "omap_find (positions (update_state r st)) s = Some p \<Longrightarrow> pos_symbol p = s"
proof -
  let ?n = "shares (res_fill r)" and ?h = "net_shares (order_symbol ord) ls"
  note b = whole_execution_bounds [OF assms(1)] and side = whole_execution_side [OF assms(1)]
  have held: "held_quantity s st = whole (net_shares s ls)" for s using assms(1) by (simp add: whole_execution_def)
  have ex: "execute_order u ord hp st = Exec_success r" using assms(1) by (simp add: whole_execution_def)
  obtain price where "res_position r = calculate_position ord (whole ?n) price st"
    using ex side(6) by (elim execute_order_resultE) simp
  then have pos: "pos_quantity (res_position r) = whole (if order_is_buy ord then ?h + ?n else ?h - ?n)"
      "pos_symbol (res_position r) = order_symbol ord"
    using calculate_position_whole [OF held b(2,1) side(1) sym] by simp_all
  obtain most where ok: "lots_ok most ls" using assms(1) by (auto simp: whole_execution_def)
  have "one_side (res_fill r)" using assms(1) by (simp add: whole_execution_def whole_fill_def)
  note net = trade_lots_ok(2) [OF ok this b(1), of s hp m]
  have eq0: "f64_eq (whole x) 0 \<longleftrightarrow> x = 0" for x by (simp add: f64_eq_def whole_def zero_f64_def)
  show "held_quantity s (update_state r st) = whole (net_shares s (snd (trade hp (res_fill r) (m, ls))))"
    unfolding net using pos held [of s] side by (auto simp: held_quantity_def eq0)
  show "pos_symbol p = s" if "omap_find (positions (update_state r st)) s = Some p"
    using that pos(2) sym by (auto split: if_splits)
qed

section \<open>Runs\<close>

lemma whole_log_snoc: "whole_log (fs @ [f]) \<Longrightarrow> whole_log fs \<and> whole_fill f"
proof -
  assume "whole_log (fs @ [f])"
  moreover from this have "0 < shares f" by (simp add: whole_log_def whole_fill_def)
  ultimately show ?thesis by (auto simp: whole_log_def)
qed

lemma lot_book_execute:
  assumes "account_ok u n st" "inj u" "execute_order (u n) ord hp st = Exec_success r"
    and "lot_book hp st" "whole_log (fills (update_state r st))"
  shows "lot_book hp (update_state r st)"
proof -
  obtain m ls where s: "settle hp (fills st) = (m, ls)" by fastforce
  have log: "whole_log (fills st)" "whole_fill (res_fill r)" using assms(5) whole_log_snoc by simp_all
  have lb: "account_lots st = whole_lots ls" "funds st = m" "\<And>s. held_quantity s st = whole (net_shares s ls)"
    "\<And>s p. omap_find (positions st) s = Some p \<Longrightarrow> pos_symbol p = s"
    using assms(4) by (simp_all add: lot_book_def s)
  have "lots_ok (sum_list (map shares (fills st))) ls"
    using settle_lots_ok [of "fills st" hp] log(1) by (simp add: s whole_log_def)
  moreover have "sum_list (map shares (fills st)) + shares (res_fill r) < 2 ^ 53"
    using assms(5) by (simp add: whole_log_def)
  moreover have a: "distinct (map fill_uuid (fills st))" "fill_uuid ` set (fills st) \<subseteq> u ` {..<n}"
    "\<And>k. omap_has (active_buy_fills st) k \<Longrightarrow> k \<in> fill_uuid ` set (fills st)"
    "\<And>k. omap_has (active_sell_fills st) k \<Longrightarrow> k \<in> fill_uuid ` set (fills st)"
    using assms(1,2) unfolding account_ok_def maps_ok_def uuids_of_def by blast+
  moreover have "u n \<notin> fill_uuid ` set (fills st)" using a(2) assms(2) by (auto simp: inj_def)
  moreover have "\<forall>g\<in>set (fills st). one_side g" using log(1) by (simp add: whole_log_def whole_fill_def)
  ultimately have w: "whole_execution (u n) ord hp st r ls"
    using assms(3) log(2) lb(1,3) unfolding whole_execution_def by blast
  have "fst (trade hp (res_fill r) (m, ls)) = funds (update_state r st)"
    using whole_execution_funds [OF w] lb(2) by (simp add: trade_def Let_def)
  then show ?thesis
    using whole_execution_lots [OF w, of m] whole_execution_position(1) [OF w lb(4), where m = m]
      whole_execution_position(2) [OF w lb(4)]
    by (cases "trade hp (res_fill r) (m, ls)") (simp add: lot_book_def settle_snoc s)
qed

lemma lot_book_cong:
  assumes "fills st' = fills st" "active_buy_fills st' = active_buy_fills st" "active_sell_fills st' = active_sell_fills st"
    and "cash st' = cash st" "ledger st' = ledger st" "positions st' = positions st"
  shows "lot_book hp st' = lot_book hp st"
proof -
  have "active_quantity st' = active_quantity st" using assms by (simp add: fun_eq_iff active_quantity_def)
  then show ?thesis using assms by (simp add: lot_book_def account_lots_def funds_def held_quantity_def)
qed

interpretation lots: state_invariant
  "\<lambda>u hp n st. account_ok u n st \<and> (inj u \<longrightarrow> whole_log (fills st) \<longrightarrow> lot_book hp st)"
proof unfold_locales
  show "account_ok u (Suc n) (update_state r st) \<and>
      (inj u \<longrightarrow> whole_log (fills (update_state r st)) \<longrightarrow> lot_book hp (update_state r st))"
    if "account_ok u n st \<and> (inj u \<longrightarrow> whole_log (fills st) \<longrightarrow> lot_book hp st)"
      "execute_order (u n) ord hp st = Exec_success r" for u hp n st ord r
    using that account.execute [of u n st ord hp r] lot_book_execute [of u n st ord hp r] whole_log_snoc by auto
  fix u hp n st
  assume I: "account_ok u n st \<and> (inj u \<longrightarrow> whole_log (fills st) \<longrightarrow> lot_book hp st)"
  then show "account_ok u (Suc n) st \<and> (inj u \<longrightarrow> whole_log (fills st) \<longrightarrow> lot_book hp st)"
    using account.draw by blast
  show "account_ok u n (prepare_next_bar_state b st) \<and> (inj u \<longrightarrow> whole_log (fills (prepare_next_bar_state b st)) \<longrightarrow>
      lot_book hp (prepare_next_bar_state b st))" for b
    using I account.next_bar lot_book_cong [of "prepare_next_bar_state b st" st hp] by simp
  show "account_ok u n (record_bar_equity_snapshot hp st) \<and> (inj u \<longrightarrow> whole_log (fills (record_bar_equity_snapshot hp st)) \<longrightarrow>
      lot_book hp (record_bar_equity_snapshot hp st))"
    using I account.snapshot lot_book_cong [of "record_bar_equity_snapshot hp st" st hp] by simp
  show "account_ok u n (clear_previous_bar_state st) \<and> (inj u \<longrightarrow> whole_log (fills (clear_previous_bar_state st)) \<longrightarrow>
      lot_book hp (clear_previous_bar_state st))"
    using I account.clear lot_book_cong [of "clear_previous_bar_state st" st hp] by simp
qed

lemma lot_book_initial: "lot_book hp (prepare_initial_state hp empty_state)"
  by (simp add: lot_book_def settle_def account_lots_def funds_def held_quantity_def prepare_initial_state_def
      empty_state_def empty_ledger_def zero_money_def [symmetric])
end
