(* ===== verification/Settlement_Properties.thy ===== *)
theory Settlement_Properties
  imports Scenario Lot_Book
begin

text \<open>
  What the lot book shows of executions and runs, with the inputs at which it is applied: an account
  that holds ten shares and sells twenty, a strategy that buys ten shares and sells four of them, and
  an account with a stop on each of two lots.
\<close>

section \<open>A reversal\<close>

definition short_params :: host_params where
  "short_params = demo_params\<lparr>hp_allow_short_selling := Some True\<rparr>"

definition reversing_order :: order where
  "reversing_order = mk_order (Fin 20) 0 ''ABC'' ''sell'' MARKET None None None"

lemma reversing_sell:
  obtains r where "whole_execution ''v'' reversing_order short_params held_state r [(held_fill, 10)]"
    "res_margin_used r = Money (int64_of_int 1000000000)" "closed_shares (res_fill r) [(held_fill, 10)] = 10"
    "shares (res_fill r) = 20" "lots_profit (res_fill r) 10 [(held_fill, 10)] = 0"
    "calculate_commision (res_fill r) short_params = Money (int64_of_int 1000000)"
proof -
  have "case execute_order ''v'' reversing_order short_params held_state of
      Exec_error msg \<Rightarrow> False
    | Exec_success r \<Rightarrow> whole_fill (res_fill r) \<and> res_margin_used r = Money (int64_of_int 1000000000) \<and>
        closed_shares (res_fill r) [(held_fill, 10)] = 10 \<and> shares (res_fill r) = 20 \<and>
        lots_profit (res_fill r) 10 [(held_fill, 10)] = 0 \<and>
        calculate_commision (res_fill r) short_params = Money (int64_of_int 1000000)"
    by code_simp
  then obtain r where r: "execute_order ''v'' reversing_order short_params held_state = Exec_success r" "whole_fill (res_fill r)"
    "res_margin_used r = Money (int64_of_int 1000000000)" "closed_shares (res_fill r) [(held_fill, 10)] = 10"
    "shares (res_fill r) = 20" "lots_profit (res_fill r) 10 [(held_fill, 10)] = 0"
    "calculate_commision (res_fill r) short_params = Money (int64_of_int 1000000)"
    by (auto split: execution_result.splits)
  have f: "one_side held_fill" "fill_is_buy held_fill" "\<not> fill_is_sell held_fill" "fill_symbol held_fill = ''ABC''" "fill_uuid held_fill = ''u''"
    by (simp_all add: held_fill_def one_side_def fill_is_buy_def fill_is_sell_def BUY_def SELL_def)
  have st: "fills held_state = [held_fill]" "active_buy_fills held_state = [(''u'', Fin 10)]" "active_sell_fills held_state = []"
    by (simp_all add: held_state_def demo_state_def prepare_initial_state_def empty_state_def omap_empty_def)
  have "held_quantity s held_state = whole (net_shares s [(held_fill, 10)])" for s
    using f by (simp add: held_quantity_def held_state_def mk_position_def omap_find_def whole_def zero_f64_def)
  moreover have "account_lots held_state = whole_lots [(held_fill, 10)]"
    using f by (simp add: account_lots_def st active_quantity_def whole_def omap_find_def)
  moreover have "lots_ok 10 [(held_fill, 10)]" using f by (simp add: lots_ok_def opposes_def)
  ultimately have "whole_execution ''v'' reversing_order short_params held_state r [(held_fill, 10)]"
    using r(1,2,5) f by (auto simp: whole_execution_def st omap_has_def omap_find_def intro!: exI [of _ 10])
  then show thesis using that r by blast
qed

section \<open>A run with two orders\<close>

text \<open>The strategy sends both orders on the first bar; they are executed on the second.\<close>

definition pair_on_bar :: "int on_bar" where
  "pair_on_bar k b st =
     (let ord = (\<lambda>action quantity. CInstr_order \<lparr>cord_symbol = ''ABC'', cord_action = action, cord_quantity = Fin quantity,
            cord_leverage = Fin 0, cord_limit_price = INT64_MIN, cord_stop_loss_price = INT64_MIN,
            cord_take_profit_price = INT64_MIN, cord_order_type = ''market''\<rparr>)
      in (Inr \<lparr>pr_code = 0, pr_message = None,
            pr_instructions = (if k = 0 then [ord ''buy'' 10, ord ''sell'' 4] else [])\<rparr>, k + 1))"

definition pair_state :: state where
  "pair_state = clear_previous_bar_state (record_bar_equity_snapshot demo_params demo_state)"

definition pair_engine :: engine where
  "pair_engine = empty_engine\<lparr>eng_state := demo_state,
     order_book := [\<lparr>sched_order = mk_order (Fin 10) 0 ''ABC'' ''buy'' MARKET None None None, sched_fill_at_ns = 1\<rparr>,
       \<lparr>sched_order = mk_order (Fin 4) 0 ''ABC'' ''sell'' MARKET None None None, sched_fill_at_ns = 1\<rparr>]\<rparr>"

lemma heap_top_Nil: "heap_top [] = None"
  by (simp add: heap_top_None)

lemma empty_order_book: "order_book e = [] \<Longrightarrow> execute_order_book u hp b e = Some (Inr e)"
  unfolding execute_order_book_def by (subst loop_while.simps) (simp add: order_book_round_def heap_top_Nil)

lemma bar_of_market_orders:
  assumes "is_within_market_hour_restrictions (bar_unix_ts_ns b) hp"
    and "execute_order_book u hp b (e\<lparr>eng_state := prepare_next_bar_state b (eng_state e)\<rparr>) = Some (Inr e1)"
    and "exit_book e1 = empty_exit_order_book" "limit_book e1 = empty_limit_order_book"
    and "on_bar p b (to_c_state (eng_state e1)) = (Inr r, p')" "pr_code r = 0"
    and "schedule_plugin_instructions now hp r e1 = Inr e2"
  shows "run_bar u now hp on_bar b (e, p) =
    Some (Inr (e2\<lparr>eng_state := clear_previous_bar_state (record_bar_equity_snapshot hp (eng_state e2))\<rparr>, p'))"
proof -
  have "execute_limit_orders u hp e1 = Some (Inr e1)"
    using assms(4) by (simp add: execute_limit_orders_def process_buy_limits_def process_sell_limits_def
        empty_limit_order_book_def omap_empty_def bindRO_def)
  moreover have "execute_exit_orders u hp e1 = Inr e1"
    using assms(3)
    by (cases e1) (simp add: execute_exit_orders_def process_stop_loss_heap_def process_take_profit_heap_def
        process_stop_loss_step process_take_profit_step put_sl_def put_tp_def empty_exit_order_book_def heap_top_Nil)
  ultimately show ?thesis
    using assms by (simp add: run_bar_def check_result_def bindRO_def)
qed

lemma pair_schedules:
  "schedule_plugin_instructions 0 demo_params (projr (fst (pair_on_bar 0 b c))) (empty_engine\<lparr>eng_state := demo_state\<rparr>) = Inr pair_engine"
  by code_simp

lemma pair_first_bar:
  "run_bar demo_uuids 0 demo_params pair_on_bar (demo_bar 1 100)
     (empty_engine\<lparr>eng_state := prepare_initial_state demo_params empty_state\<rparr>, 0) =
   Some (Inr (pair_engine\<lparr>eng_state := pair_state\<rparr>, 1))"
proof -
  let ?e = "empty_engine\<lparr>eng_state := demo_state\<rparr>"
  have "run_bar demo_uuids 0 demo_params pair_on_bar (demo_bar 1 100)
     (empty_engine\<lparr>eng_state := prepare_initial_state demo_params empty_state\<rparr>, 0) = Some (Inr
     (pair_engine\<lparr>eng_state := clear_previous_bar_state (record_bar_equity_snapshot demo_params (eng_state pair_engine))\<rparr>, 1))"
    by (rule bar_of_market_orders [where ?e1.0 = ?e and r = "projr (fst (pair_on_bar 0 b c))" for b c, OF _ _ _ _ _ _ pair_schedules])
      (simp_all add: is_within_market_hour_restrictions_def demo_params_def demo_state_def empty_order_book empty_engine_def
        pair_on_bar_def Let_def)
  then show ?thesis by (simp add: pair_state_def pair_engine_def)
qed

text \<open>The account at the second bar, as values.\<close>

definition pair_bar_state :: state where
  "pair_bar_state =
     (let dollars = (\<lambda>d. Money (int64_of_int (d * 1000000))) in
      empty_state\<lparr>cash := dollars 10000, current_timestamp_ns := int64_of_int 2,
        current_bar_prices := [(''ABC'', \<lparr>bp_close = dollars 101, bp_open = dollars 101, bp_high = dollars 102, bp_low = dollars 100\<rparr>)],
        current_bar_volumes := [(''ABC'', int64_of_int 1000)], equity_curve := [new_snapshot 1 (dollars 10000) 0 0],
        peak_equity := dollars 10000\<rparr>)"

lemma pair_second_state: "prepare_next_bar_state (demo_bar 2 101) pair_state = pair_bar_state"
  by code_simp

definition pair_buy :: fill where
  "pair_buy = mk_fill '''' ''ABC'' ''buy'' (Fin 10) (Money (int64_of_int 101000000)) (int64_of_int 2) 1 (Money (int64_of_int 1010000000))"

definition pair_bought :: engine where
  "pair_bought =
     (let margin = Money (int64_of_int 1010000000) in
      empty_engine\<lparr>eng_state := pair_bar_state\<lparr>cash := Money (int64_of_int 8989000000),
        ledger := \<lparr>margin_in_use = margin, active_margin_for_fills = [('''', margin)], active_leverage_for_fills = [('''', 1)]\<rparr>,
        positions := [(''ABC'', mk_position ''ABC'' (Fin 10) (Money (int64_of_int 101000000)))],
        fills := [pair_buy], new_fills := [pair_buy], active_buy_fills := [('''', Fin 10)]\<rparr>,
      order_book := tl (order_book pair_engine), next_uuid := 1\<rparr>)"

lemma pair_first_round:
  "order_book_round demo_uuids demo_params (demo_bar 2 101) (pair_engine\<lparr>eng_state := pair_bar_state\<rparr>) = Some (Inr pair_bought)"
  by code_simp

lemma order_book_next:
  "order_book_round u hp b e = Some (Inr e') \<Longrightarrow> execute_order_book u hp b e = execute_order_book u hp b e'"
  unfolding execute_order_book_def by (subst loop_while.simps) simp

lemma handle_full_fill:
  assumes "res_partial_order r = None" "res_exit_orders r = []"
    and "stop_loss_heap (exit_book e) = []" "take_profit_heap (exit_book e) = []"
  shows "handle_execution_result hp (Exec_success r) e = Inr (e\<lparr>eng_state := update_state r (eng_state e)\<rparr>)"
proof -
  have "reduce_exit_orders_by_fill_uuid u q book = book" if "stop_loss_heap book = []" "take_profit_heap book = []" for u q book
    using that by (cases book) (simp add: reduce_exit_orders_by_fill_uuid_def sl_reduce_loop.simps tp_reduce_loop.simps
        heap_top_def max_top_def)
  then have "reduce_exit_orders_by_fills xs book = book" if "stop_loss_heap book = []" "take_profit_heap book = []" for xs book
    using that by (induction xs) (auto simp: reduce_exit_orders_by_fills_def)
  then have "reduce_closed r e = e" using assms by (cases e) (simp add: reduce_closed_def Let_def)
  then show ?thesis using assms by (simp add: handle_execution_result_def Let_def has_exit_strategy_def)
qed

lemma pair_sell:
  "case execute_order (demo_uuids 1) (sched_order (hd (order_book pair_bought))) demo_params (eng_state pair_bought) of
     Exec_error msg \<Rightarrow> False
   | Exec_success r \<Rightarrow> whole_log [pair_buy, res_fill r] \<and> res_exit_orders r = [] \<and> res_partial_order r = None \<and>
       fill_quantity (res_fill r) = Fin 4 \<and> fill_is_sell (res_fill r) \<and> fill_symbol (res_fill r) = ''ABC''"
  by code_simp

lemma pair_completes:
  obtains e p report and f :: fill where
    "run_on_bars demo_uuids 0 demo_params pair_on_bar demo_on_end demo_free [demo_bar 1 100, demo_bar 2 101] (prepare_engine demo_params empty_engine, 0) = Some (Inr (e, p, report))"
    "fills (eng_state e) = [pair_buy, f]" "whole_log [pair_buy, f]" "fill_quantity f = Fin 4" "fill_is_sell f"
    "fill_symbol f = ''ABC''"
proof -
  obtain r where r: "execute_order (demo_uuids 1) (sched_order (hd (order_book pair_bought))) demo_params (eng_state pair_bought) = Exec_success r"
    "whole_log [pair_buy, res_fill r]" "res_exit_orders r = []" "res_partial_order r = None"
    "fill_quantity (res_fill r) = Fin 4" "fill_is_sell (res_fill r)" "fill_symbol (res_fill r) = ''ABC''"
    using pair_sell by (auto split: execution_result.splits)
  define e where "e = pair_bought\<lparr>order_book := [], next_uuid := 2, eng_state := update_state r (eng_state pair_bought)\<rparr>"
  have late: "\<not> bar_unix_ts_ns (demo_bar 2 101) < 1" by code_simp
  have "order_book_round demo_uuids demo_params (demo_bar 2 101) pair_bought = Some (Inr e)"
    using r(1) handle_full_fill [OF r(4,3)] late
    by (simp add: order_book_round_def run_order_def e_def pair_bought_def Let_def pair_engine_def empty_engine_def
        heap_top_def heap_pop_def empty_exit_order_book_def)
  then have "execute_order_book demo_uuids demo_params (demo_bar 2 101)
      (pair_engine\<lparr>eng_state := prepare_next_bar_state (demo_bar 2 101) (eng_state (pair_engine\<lparr>eng_state := pair_state\<rparr>))\<rparr>) = Some (Inr e)"
    using pair_first_round by (simp add: pair_second_state order_book_next empty_order_book e_def)
  then have "run_bar demo_uuids 0 demo_params pair_on_bar (demo_bar 2 101) (pair_engine\<lparr>eng_state := pair_state\<rparr>, 1) = Some (Inr
      (e\<lparr>eng_state := clear_previous_bar_state (record_bar_equity_snapshot demo_params (eng_state e))\<rparr>, 2))"
    by (intro bar_of_market_orders [where r = "projr (fst (pair_on_bar 1 undefined undefined))"])
      (simp_all add: is_within_market_hour_restrictions_def demo_params_def e_def pair_on_bar_def Let_def pair_bought_def empty_engine_def
        schedule_plugin_instructions_def)
  then have "run_on_bars demo_uuids 0 demo_params pair_on_bar demo_on_end demo_free [demo_bar 1 100, demo_bar 2 101] (prepare_engine demo_params empty_engine, 0) =
      Some (Inr (e\<lparr>eng_state := clear_previous_bar_state (record_bar_equity_snapshot demo_params (eng_state e))\<rparr>,
        demo_free 2 (Some ''{}''), \<lparr>some_value = ''some_value'', another_value = ''another_value''\<rparr>))"
    using pair_first_bar
    by (simp add: run_on_bars_def prepare_engine_def Let_def demo_on_end_def check_result_def bindRO_def empty_engine_def del: run_bar_def)
  then show thesis
    by (rule that [OF _ _ r(2,5,6,7)]) (simp add: e_def pair_bought_def Let_def)
qed

section \<open>Stops on two lots\<close>

text \<open>
  Ten shares with a stop at 90 dollars and four with a stop at 100.50, on a bar with a low of 100: the
  second stop is executed and closes four of the ten older shares.
\<close>

lemma process_stop_loss_waiting:
  assumes "process_stop_loss_loop u hp nt e = Inr e'"
  shows "set nt \<subseteq> set (stop_loss_heap (exit_book e'))"
  using assms
proof (induction rule: process_stop_loss_induct)
  case (stop nt e)
  have "set (fold (heap_push sl_less) xs h) = set xs \<union> set h" for xs h
    by (induction xs arbitrary: h) simp_all
  then show ?case by (simp add: put_sl_def)
next
  case (wait nt e x p e')
  then show ?case by simp
qed simp_all

definition second_fill :: fill where
  "second_fill = mk_fill ''w'' ''ABC'' ''buy'' (Fin 4) (Money (int64_of_int 100000000)) 1 1 (Money (int64_of_int 400000000))"

definition stop_of :: "string \<Rightarrow> rat \<Rightarrow> int \<Rightarrow> stop_loss_exit_order" where
  "stop_of uuid quantity price =
     mk_stop_loss ''ABC'' (Fin quantity) (Money (int64_of_int price)) (Money (int64_of_int 100000000)) 1 uuid False"

definition stops_state :: state where
  "stops_state =
     (let margin = Money (int64_of_int 400000000) in
      pair_bar_state\<lparr>
        ledger := \<lparr>margin_in_use = margin + margin, active_margin_for_fills = [(''u'', margin), (''w'', margin)],
          active_leverage_for_fills = [(''u'', 1), (''w'', 1)]\<rparr>,
        positions := [(''ABC'', mk_position ''ABC'' (Fin 14) (Money (int64_of_int 100000000)))],
        fills := [held_fill, second_fill], active_buy_fills := [(''u'', Fin 10), (''w'', Fin 4)]\<rparr>)"

definition stops_engine :: engine where
  "stops_engine = empty_engine\<lparr>eng_state := stops_state,
     exit_book := \<lparr>stop_loss_heap = [stop_of ''u'' 10 90000000, stop_of ''w'' 4 100500000], take_profit_heap = []\<rparr>\<rparr>"

lemma stops_execute:
  "case execute_order (demo_uuids 0) (sl_to_close_instruction (stop_of ''w'' 4 100500000)) demo_params stops_state of
     Exec_error msg \<Rightarrow> False
   | Exec_success r \<Rightarrow> whole_fill (res_fill r) \<and> shares (res_fill r) = 4 \<and> fill_is_sell (res_fill r) \<and>
       fill_symbol (res_fill r) = ''ABC'' \<and> res_exit_orders r = [] \<and> res_partial_order r = None"
  by code_simp

lemma stops_bar:
  "sl_should_trigger (stop_of ''w'' 4 100500000) (bp_low (snd (hd (current_bar_prices stops_state)))) (bp_high (snd (hd (current_bar_prices stops_state))))"
  "\<not> sl_should_trigger (stop_of ''u'' 10 90000000) (bp_low (snd (hd (current_bar_prices stops_state)))) (bp_high (snd (hd (current_bar_prices stops_state))))"
  by code_simp+

lemma bought_lot:
  assumes "f = mk_fill u ''ABC'' ''buy'' q p t l m"
  shows "fill_is_buy f" "\<not> fill_is_sell f" "one_side f" "fill_symbol f = ''ABC''" "fill_uuid f = u"
  using assms by (simp_all add: one_side_def fill_is_buy_def fill_is_sell_def BUY_def SELL_def)

lemmas stop_lots = bought_lot [OF held_fill_def] bought_lot [OF second_fill_def]

lemma stops_state_simps:
  "fills stops_state = [held_fill, second_fill]" "active_buy_fills stops_state = [(''u'', Fin 10), (''w'', Fin 4)]"
  "active_sell_fills stops_state = []" "positions stops_state = [(''ABC'', mk_position ''ABC'' (Fin 14) (Money (int64_of_int 100000000)))]"
  by (simp_all add: stops_state_def pair_bar_state_def Let_def empty_state_def omap_empty_def)

lemma stops_sell:
  obtains r where "whole_execution (demo_uuids 0) (sl_to_close_instruction (stop_of ''w'' 4 100500000)) demo_params stops_state r
      [(held_fill, 10), (second_fill, 4)]"
    "shares (res_fill r) = 4" "fill_is_sell (res_fill r)" "fill_symbol (res_fill r) = ''ABC''"
    "res_exit_orders r = []" "res_partial_order r = None"
proof -
  obtain r where r: "execute_order (demo_uuids 0) (sl_to_close_instruction (stop_of ''w'' 4 100500000)) demo_params stops_state = Exec_success r"
    "whole_fill (res_fill r)" "shares (res_fill r) = 4" "fill_is_sell (res_fill r)" "fill_symbol (res_fill r) = ''ABC''"
    "res_exit_orders r = []" "res_partial_order r = None"
    using stops_execute by (auto split: execution_result.splits)
  have "held_quantity s stops_state = whole (net_shares s [(held_fill, 10), (second_fill, 4)])" for s
    by (simp add: held_quantity_def stops_state_simps mk_position_def omap_find_def whole_def zero_f64_def stop_lots)
  moreover have "account_lots stops_state = whole_lots [(held_fill, 10), (second_fill, 4)]"
    by (simp add: account_lots_def stops_state_simps active_quantity_def whole_def omap_find_def stop_lots)
  moreover have "lots_ok 14 [(held_fill, 10), (second_fill, 4)]"
    by (simp add: lots_ok_def opposes_def stop_lots)
  ultimately have "whole_execution (demo_uuids 0) (sl_to_close_instruction (stop_of ''w'' 4 100500000)) demo_params stops_state r
      [(held_fill, 10), (second_fill, 4)]"
    using r(1-3) by (auto simp: whole_execution_def stops_state_simps stop_lots omap_has_def omap_find_def demo_uuids_def
        intro!: exI [of _ 14])
  then show thesis using that r by blast
qed

lemma stops_triggered:
  obtains e where "process_stop_loss_heap demo_uuids demo_params stops_engine = Inr e"
    "account_lots (eng_state e) = whole_lots [(held_fill, 6), (second_fill, 4)]"
proof -
  obtain r where r: "whole_execution (demo_uuids 0) (sl_to_close_instruction (stop_of ''w'' 4 100500000)) demo_params stops_state r
      [(held_fill, 10), (second_fill, 4)]"
    "shares (res_fill r) = 4" "fill_is_sell (res_fill r)" "fill_symbol (res_fill r) = ''ABC''"
    "res_exit_orders r = []" "res_partial_order r = None"
    by (rule stops_sell)
  have opp: "opposes (res_fill r) held_fill" "opposes (res_fill r) second_fill"
    using r(3,4) by (simp_all add: opposes_def stop_lots)
  then have lots: "account_lots (update_state r stops_state) = whole_lots [(held_fill, 6), (second_fill, 4)]"
    using whole_execution_lots [OF r(1), of "Money 0"] r(2) by (simp add: trade_def Let_def closed_shares_def)
  define e1 where "e1 = stops_engine\<lparr>exit_book := \<lparr>stop_loss_heap = [stop_of ''w'' 4 100500000], take_profit_heap = []\<rparr>\<rparr>"
  define e2 where "e2 = stops_engine\<lparr>exit_book := \<lparr>stop_loss_heap = [], take_profit_heap = []\<rparr>\<rparr>"
  define e3 where "e3 = e2\<lparr>next_uuid := 1, eng_state := update_state r stops_state\<rparr>"
  have sell: "run_order demo_uuids demo_params (sl_to_close_instruction (stop_of ''w'' 4 100500000)) e2 = Inr e3"
    using r(1) handle_full_fill [OF r(6,5)]
    by (simp add: run_order_def whole_execution_def e2_def e3_def stops_engine_def empty_engine_def)
  have "process_stop_loss_heap demo_uuids demo_params stops_engine = Inr (put_sl [stop_of ''u'' 10 90000000] e3)"
  proof -
    have price: "omap_find (current_bar_prices stops_state) ''ABC'' = Some (snd (hd (current_bar_prices stops_state)))"
      by (simp add: stops_state_def pair_bar_state_def Let_def omap_find_def)
    have sym: "sl_symbol (stop_of k q p) = ''ABC''" for k q p by (simp add: stop_of_def mk_stop_loss_def)
    have pop: "pop_sl stops_engine = e1" "pop_sl e1 = e2"
      by (simp_all add: pop_sl_def e1_def e2_def stops_engine_def heap_pop_def bubble_down.simps first_of_three_def Let_def)
    have st: "eng_state stops_engine = stops_state" "eng_state e1 = stops_state" "eng_state e2 = stops_state"
      by (simp_all add: stops_engine_def e1_def e2_def)
    have top: "heap_top (stop_loss_heap (exit_book stops_engine)) = Some (stop_of ''u'' 10 90000000)"
      "heap_top (stop_loss_heap (exit_book e1)) = Some (stop_of ''w'' 4 100500000)"
      "heap_top (stop_loss_heap (exit_book e3)) = None"
      by (simp_all add: stops_engine_def e1_def e2_def e3_def heap_top_def)
    have has: "has_symbol_position stops_state ''ABC''" "has_symbol_prices stops_state ''ABC''"
      using price by (simp_all add: has_symbol_position_def has_symbol_prices_def omap_has_def stops_state_simps omap_find_def)
    have "process_stop_loss_loop demo_uuids demo_params [] stops_engine =
        process_stop_loss_loop demo_uuids demo_params [stop_of ''u'' 10 90000000] e1"
      by (subst process_stop_loss_step) (simp add: top st sym has price pop stops_bar)
    also have "\<dots> = process_stop_loss_loop demo_uuids demo_params [stop_of ''u'' 10 90000000] e3"
      by (subst process_stop_loss_step) (simp add: top st sym has price pop stops_bar sell)
    also have "\<dots> = Inr (put_sl [stop_of ''u'' 10 90000000] e3)"
      by (subst process_stop_loss_step) (simp add: top)
    finally show ?thesis by (simp add: process_stop_loss_heap_def)
  qed
  moreover have "eng_state (put_sl xs e3) = update_state r stops_state" for xs by (simp add: put_sl_def e3_def)
  ultimately show thesis using lots that by metis
qed

section \<open>The properties\<close>

text \<open>C1: A run implements the lot book.  Where the uuids are all different and the log of a run from a
  fresh engine has only whole shares, less than \<open>2 ^ 53\<close> together, the log alone determines the account:
  cash and margin in use are the initial capital plus the profit of the lots that were closed, first in,
  first out, less the commissions and what reversals lose; the active fills are the open lots; and every
  position is the sum of the open lots of its symbol.\<close>

theorem run_implements_lot_book:
  assumes "inj u" "run_on_bars u now hp on_bar on_end free bars (prepare_engine hp empty_engine, p) = Some (Inr (e', p', report))"
    and "whole_log (fills (eng_state e'))"
    and "settle hp (fills (eng_state e')) = (m, ls)"
  shows "cash (eng_state e') + margin_in_use (ledger (eng_state e')) = m \<and>
    account_lots (eng_state e') = whole_lots ls \<and>
    (\<forall>s. held_quantity s (eng_state e') = whole (net_shares s ls))"
proof -
  have "account_ok u (next_uuid e') (eng_state e') \<and> (inj u \<longrightarrow> whole_log (fills (eng_state e')) \<longrightarrow> lot_book hp (eng_state e'))"
    by (rule lots.eng.keep_run [OF _ assms(2)])
      (use lot_book_initial in \<open>simp add: prepare_engine_def empty_engine_def account_ok_initial\<close>)
  then show ?thesis using assms(1,3,4) by (simp add: lot_book_def funds_def)
qed

theorem run_implements_lot_book_witness:
  "\<exists>e p report f. run_on_bars demo_uuids 0 demo_params pair_on_bar demo_on_end demo_free [demo_bar 1 100, demo_bar 2 101] (prepare_engine demo_params empty_engine, 0) =
       Some (Inr (e, p, report)) \<and>
     fills (eng_state e) = [pair_buy, f] \<and> fill_quantity f = Fin 4 \<and>
     cash (eng_state e) + margin_in_use (ledger (eng_state e)) = fst (settle demo_params [pair_buy, f]) \<and>
     held_quantity ''ABC'' (eng_state e) = whole 6"
proof -
  obtain e p report f where r:
    "run_on_bars demo_uuids 0 demo_params pair_on_bar demo_on_end demo_free [demo_bar 1 100, demo_bar 2 101] (prepare_engine demo_params empty_engine, 0) =
       Some (Inr (e, p, report))"
    "fills (eng_state e) = [pair_buy, f]" "whole_log [pair_buy, f]" "fill_quantity f = Fin 4" "fill_is_sell f" "fill_symbol f = ''ABC''"
    by (rule pair_completes)
  obtain m ls where s: "settle demo_params [pair_buy, f] = (m, ls)" by fastforce
  note 1 = run_implements_lot_book [OF demo_uuids_inj r(1), unfolded r(2), OF r(3) s]
  have "shares pair_buy = 10" "fill_is_buy pair_buy" "fill_symbol pair_buy = ''ABC''" "shares f = 4" "\<not> fill_is_buy f"
    using r(4,5) fill_not_both [of f] by (auto simp: shares_def pair_buy_def fill_is_buy_def BUY_def)
  then have "net_shares ''ABC'' ls = 6"
    using settle_net [of "[pair_buy, f]" "''ABC''" demo_params] r(3,6) by (simp add: s whole_log_def)
  then show ?thesis using r 1 s by auto
qed

text \<open>C5: An order for whole shares changes cash and margin together by the profit of the lots it closes
  less the commission; if it also opens a position on the other side, it loses a part of the margin of
  the new position: the cash pays all of it, the margin in use gains only the share that the opened
  shares have in the fill.\<close>

theorem execution_settles_lots:
  assumes "whole_execution u ord hp st r ls"
  shows "cash (update_state r st) + margin_in_use (ledger (update_state r st)) =
    cash st + margin_in_use (ledger st) + lots_profit (res_fill r) (closed_shares (res_fill r) ls) ls -
    calculate_commision (res_fill r) hp -
    (if 0 < closed_shares (res_fill r) ls \<and> closed_shares (res_fill r) ls < shares (res_fill r)
     then res_margin_used r - money_mul (res_margin_used r)
       (whole (shares (res_fill r) - closed_shares (res_fill r) ls) / whole (shares (res_fill r)))
     else 0)"
  using whole_execution_funds [OF assms] unfolding whole_execution_margin(1) [OF assms]
  by (simp add: funds_def lost_margin_def Let_def)

theorem execution_settles_lots_witness:
  "\<exists>r. execute_order ''v'' reversing_order short_params held_state = Exec_success r \<and>
     cash (update_state r held_state) + margin_in_use (ledger (update_state r held_state)) =
       cash held_state + margin_in_use (ledger held_state) - Money (int64_of_int 1000000) - Money (int64_of_int 500000000)"
proof -
  obtain r where r: "whole_execution ''v'' reversing_order short_params held_state r [(held_fill, 10)]"
    "res_margin_used r = Money (int64_of_int 1000000000)" "closed_shares (res_fill r) [(held_fill, 10)] = 10"
    "shares (res_fill r) = 20" "lots_profit (res_fill r) 10 [(held_fill, 10)] = 0"
    "calculate_commision (res_fill r) short_params = Money (int64_of_int 1000000)"
    by (rule reversing_sell)
  have "Money (int64_of_int 1000000000) - money_mul (Money (int64_of_int 1000000000)) (whole (20 - 10) / whole 20) =
      Money (int64_of_int 500000000)"
    by code_simp
  then show ?thesis using execution_settles_lots [OF r(1)] r by (auto simp: whole_execution_def)
qed

text \<open>C15: When the loop over the stops comes to a stop loss that the bar does not touch, of a symbol with a position and
  known prices, it sets it aside, and
  the stop comes back with the quantity it had then, as do those set aside before, although the stops that are
  executed afterwards may close shares of its fill.  Only a stop that still lies in the heap shrinks with its
  fill.\<close>

theorem waiting_stop_keeps_quantity:
  assumes "process_stop_loss_loop u hp not_triggered e = Inr e'"
    and "heap_top (stop_loss_heap (exit_book e)) = Some x"
    and "has_symbol_position (eng_state e) (sl_symbol x)"
    and "omap_find (current_bar_prices (eng_state e)) (sl_symbol x) = Some p"
    and "\<not> sl_should_trigger x (bp_low p) (bp_high p)"
  shows "insert x (set not_triggered) \<subseteq> set (stop_loss_heap (exit_book e'))"
proof -
  have "process_stop_loss_loop u hp (not_triggered @ [x]) (pop_sl e) = Inr e'"
    using assms by (subst (asm) process_stop_loss_step) (simp add: has_symbol_prices_def omap_has_def)
  then show ?thesis using process_stop_loss_waiting by fastforce
qed

theorem waiting_stop_keeps_quantity_witness:
  "\<exists>e. process_stop_loss_heap demo_uuids demo_params stops_engine = Inr e \<and>
     stop_of ''u'' 10 90000000 \<in> set (stop_loss_heap (exit_book e)) \<and>
     sl_trigger_quantity (stop_of ''u'' 10 90000000) = Fin 10 \<and>
     account_lots (eng_state e) = whole_lots [(held_fill, 6), (second_fill, 4)]"
proof -
  obtain e where e: "process_stop_loss_heap demo_uuids demo_params stops_engine = Inr e"
    "account_lots (eng_state e) = whole_lots [(held_fill, 6), (second_fill, 4)]"
    by (rule stops_triggered)
  have "insert (stop_of ''u'' 10 90000000) (set []) \<subseteq> set (stop_loss_heap (exit_book e))"
    by (rule waiting_stop_keeps_quantity [OF e(1) [unfolded process_stop_loss_heap_def] _ _ _ stops_bar(2)])
      (simp_all add: stops_engine_def stop_of_def mk_stop_loss_def heap_top_def has_symbol_position_def omap_has_def
        stops_state_simps omap_find_def stops_state_def pair_bar_state_def Let_def)
  then show ?thesis using e by (auto simp: stop_of_def mk_stop_loss_def)
qed

end
