(* ===== verification/String_Utils.thy ===== *)
theory String_Utils
  imports Money_Utils
begin

text \<open>
  \<^verbatim>\<open>utils/string_utils.cpp\<close>, and what the HTTP code uses of the C and C++ libraries on strings:
  \<^verbatim>\<open>tolower\<close>, \<^verbatim>\<open>strtol\<close> and the printing of integers.

  \<^verbatim>\<open>create_uuid\<close> draws a random uuid; the engine takes the sequence of its results as a parameter.
\<close>

section \<open>Library functions\<close>

text \<open>\<^verbatim>\<open>std::tolower\<close> in the C locale.\<close>

definition tolower :: "char \<Rightarrow> char" where
  "tolower c = (if 65 \<le> (of_char c :: nat) \<and> (of_char c :: nat) \<le> 90 then char_of ((of_char c :: nat) + 32) else c)"

definition NUL :: char where
  "NUL = CHR 0x00"

definition LONG_MAX :: int where "LONG_MAX = 2 ^ 63 - 1"
definition LONG_MIN :: int where "LONG_MIN = - (2 ^ 63)"

text \<open>
  \<^verbatim>\<open>std::strtol\<close> in base 10 on a string that ends at its first zero character: the value, clamped
  to the range of \<^verbatim>\<open>long\<close>, and the characters that were not consumed.
\<close>

definition strtol :: "string \<Rightarrow> int \<times> string" where
  "strtol s =
     (let t = takeWhile (\<lambda>c. c \<noteq> NUL) s;
          s1 = dropWhile is_space t;
          neg = (s1 \<noteq> [] \<and> hd s1 = CHR ''-'');
          s2 = (if s1 \<noteq> [] \<and> (hd s1 = CHR ''-'' \<or> hd s1 = CHR ''+'') then tl s1 else s1);
          ds = takeWhile is_digit s2;
          v = (if neg then - digits_val ds else digits_val ds)
      in if ds = [] then (0, t) else (max LONG_MIN (min LONG_MAX v), dropWhile is_digit s2))"

text \<open>\<^verbatim>\<open>std::to_string\<close> and \<^verbatim>\<open>operator<<\<close> of integers.\<close>

definition digit_char :: "nat \<Rightarrow> char" where
  "digit_char n = char_of (48 + n)"

fun show_nat :: "nat \<Rightarrow> string" where
  "show_nat n = (if n < 10 then [digit_char n] else show_nat (n div 10) @ [digit_char (n mod 10)])"

declare show_nat.simps [simp del]

definition show_int :: "int \<Rightarrow> string" where
  "show_int i = (if i < 0 then CHR ''-'' # show_nat (nat (- i)) else show_nat (nat i))"

section \<open>string\_utils.cpp\<close>

text \<open>The callback that appends \<^verbatim>\<open>size * nmemb\<close> characters of a buffer; \<^verbatim>\<open>size_t\<close> products wrap.\<close>

definition write_to_string :: "string \<Rightarrow> 64 word \<Rightarrow> 64 word \<Rightarrow> string \<Rightarrow> string \<times> 64 word" where
  "write_to_string ptr sz nmemb body =
     (let total = sz * nmemb in (body @ take (unat total) ptr, total))"

text \<open>The loop over both strings at once; \<open>n\<close> is the length of the buffer still to come.\<close>

fun ieq_prefix :: "string \<Rightarrow> nat \<Rightarrow> string \<Rightarrow> bool" where
  "ieq_prefix (b # buf) (Suc n) (k # key) =
     (if tolower b \<noteq> tolower k then False
      else if key = [] then True
      else ieq_prefix buf n key)"
| "ieq_prefix buf n key = False"

definition trim :: "string \<Rightarrow> string" where
  "trim s = (let s1 = dropWhile is_space s in rev (dropWhile is_space (rev s1)))"

definition append_to_path :: "string \<Rightarrow> string \<Rightarrow> string" where
  "append_to_path path str = path @ str"

definition is_blank :: "char \<Rightarrow> bool" where
  "is_blank c \<longleftrightarrow> c = CHR '' '' \<or> c = CHR 0x09"

text \<open>From \<^verbatim>\<open>find_first_not_of\<close> to \<^verbatim>\<open>find_last_not_of\<close> blanks; a token of blanks only is skipped.\<close>

definition strip_blanks :: "string \<Rightarrow> string" where
  "strip_blanks token = rev (dropWhile is_blank (rev (dropWhile is_blank token)))"

text \<open>\<open>sv\<close> is what follows the position \<^verbatim>\<open>start\<close>.\<close>

function split_comma_delimited_string :: "string \<Rightarrow> string list" where
  "split_comma_delimited_string sv =
     (let token = takeWhile (\<lambda>c. c \<noteq> CHR '','') sv;
          out = (if list_all is_blank token then [] else [strip_blanks token])
      in case dropWhile (\<lambda>c. c \<noteq> CHR '','') sv of
           [] \<Rightarrow> out
         | comma # rest \<Rightarrow> out @ split_comma_delimited_string rest)"
  by pat_completeness auto
termination
proof (relation "measure length", goal_cases)
  case (2 sv token out comma rest)
  then have "length (dropWhile (\<lambda>c. c \<noteq> CHR '','') sv) = Suc (length rest)" by simp
  then show ?case using length_dropWhile_le [of "\<lambda>c. c \<noteq> CHR '','' " sv] by simp
qed simp

declare split_comma_delimited_string.simps [simp del]

section \<open>Numbers\<close>

lemma digit_char: "n < 10 \<Longrightarrow> is_digit (digit_char n) \<and> digit_val (digit_char n) = int n"
  by (simp add: digit_char_def is_digit_def digit_val_def)

lemma show_nat_digits: "\<forall>c\<in>set (show_nat n). is_digit c"
  by (induction n rule: show_nat.induct) (subst show_nat.simps, auto simp: digit_char)

lemma show_nat_not_Nil [simp]: "show_nat n \<noteq> []"
  by (subst show_nat.simps) simp

lemma digits_val_show_nat: "digits_val (show_nat n) = int n"
proof (induction n rule: show_nat.induct)
  case (1 n)
  show ?case
  proof (cases "n < 10")
    case True
    then show ?thesis by (subst show_nat.simps) (simp add: digits_val_def digit_char)
  next
    case False
    have "digits_val (show_nat n) = digits_val (show_nat (n div 10) @ [digit_char (n mod 10)])"
      using False by (subst show_nat.simps) simp
    also have "\<dots> = int (n div 10) * 10 + int (n mod 10)"
      using 1 [OF False] by (simp add: digits_val_append digits_val_def [of "[_]"] digit_char)
    also have "\<dots> = int n" by presburger
    finally show ?thesis .
  qed
qed

lemma is_digit_not [simp]:
  "is_digit c \<Longrightarrow> \<not> is_space c" "is_digit c \<Longrightarrow> c \<noteq> NUL" "is_digit c \<Longrightarrow> c \<noteq> CHR ''-''" "is_digit c \<Longrightarrow> c \<noteq> CHR ''+''"
  "is_digit c \<Longrightarrow> \<not> is_blank c" "is_digit c \<Longrightarrow> c \<noteq> CHR '',''"
  by (auto simp: is_digit_def is_space_def is_blank_def NUL_def)

lemma takeWhile_all [simp]: "\<forall>x\<in>set xs. P x \<Longrightarrow> takeWhile P xs = xs" "\<forall>x\<in>set xs. P x \<Longrightarrow> dropWhile P xs = []"
  by (simp_all add: takeWhile_eq_all_conv)

lemma hd_digits: "ds \<noteq> [] \<Longrightarrow> \<forall>c\<in>set ds. is_digit c \<Longrightarrow> is_digit (hd ds)"
  by (cases ds) simp_all

lemma strtol_digits:
  assumes "ds \<noteq> []" "\<forall>c\<in>set ds. is_digit c" "digits_val ds \<le> LONG_MAX"
  shows "strtol ds = (digits_val ds, [])"
proof -
  have nul: "takeWhile (\<lambda>c. c \<noteq> NUL) ds = ds" using assms(2) by (intro takeWhile_all(1)) auto
  have "is_digit (hd ds)" using assms(1,2) by (rule hd_digits)
  then have hd: "\<not> is_space (hd ds)" "hd ds \<noteq> CHR ''-''" "hd ds \<noteq> CHR ''+''" by simp_all
  have "dropWhile is_space ds = ds" using hd(1) assms(1) by (cases ds) simp_all
  then show ?thesis
    using assms hd digits_val_nonneg [OF assms(2)]
    by (simp add: strtol_def nul Let_def LONG_MIN_def min_def max_def)
qed

lemma strtol_neg_digits:
  assumes "ds \<noteq> []" "\<forall>c\<in>set ds. is_digit c" "LONG_MIN \<le> - digits_val ds"
  shows "strtol (CHR ''-'' # ds) = (- digits_val ds, [])"
proof -
  have nul: "takeWhile (\<lambda>c. c \<noteq> NUL) ds = ds" using assms(2) by (intro takeWhile_all(1)) auto
  have "CHR ''-'' \<noteq> NUL" "\<not> is_space CHR ''-''" by (simp_all add: NUL_def is_space_def)
  then show ?thesis
    using assms digits_val_nonneg [OF assms(2)]
    by (simp add: strtol_def nul Let_def LONG_MAX_def min_def max_def)
qed

lemma strtol_show_int: "LONG_MIN \<le> i \<Longrightarrow> i \<le> LONG_MAX \<Longrightarrow> strtol (show_int i) = (i, [])"
  using strtol_digits [of "show_nat (nat i)"] strtol_neg_digits [of "show_nat (nat (- i))"]
    show_nat_digits digits_val_show_nat
  by (auto simp: show_int_def)

section \<open>Prefixes, blanks and tokens\<close>

lemma ieq_prefix_iff:
  "ieq_prefix buf n key \<longleftrightarrow>
     key \<noteq> [] \<and> length key \<le> n \<and> length key \<le> length buf \<and> map tolower (take (length key) buf) = map tolower key"
proof (induction buf n key rule: ieq_prefix.induct)
  case (1 b buf n k key)
  then show ?case by (cases key) auto
qed auto

lemma dropWhile_id: "(xs \<noteq> [] \<Longrightarrow> \<not> P (hd xs)) \<Longrightarrow> dropWhile P xs = xs"
  by (cases xs) auto

lemma strip_ends:
  assumes "s \<noteq> [] \<Longrightarrow> \<not> P (hd s) \<and> \<not> P (last s)"
  shows "rev (dropWhile P (rev (dropWhile P s))) = s"
proof (cases "s = []")
  case False
  then have "dropWhile P s = s" "dropWhile P (rev s) = rev s"
    using assms by (simp_all add: dropWhile_id hd_rev)
  then show ?thesis by simp
qed simp

lemma trim_id: "(s \<noteq> [] \<Longrightarrow> \<not> is_space (hd s) \<and> \<not> is_space (last s)) \<Longrightarrow> trim s = s"
  unfolding trim_def Let_def by (rule strip_ends) blast

lemma trim_blank_front: "is_space c \<Longrightarrow> trim (c # s) = trim s"
  by (simp add: trim_def)

lemma last_dropWhile: "dropWhile P xs \<noteq> [] \<Longrightarrow> last (dropWhile P xs) = last xs"
  by (induction xs) auto

lemma trim_ends: "trim s \<noteq> [] \<Longrightarrow> \<not> is_space (hd (trim s)) \<and> \<not> is_space (last (trim s))"
proof -
  define t where "t = dropWhile is_space s"
  assume ne: "trim s \<noteq> []"
  then have t: "dropWhile is_space (rev t) \<noteq> []" by (simp add: trim_def t_def)
  then have "\<not> is_space (hd (dropWhile is_space (rev t)))" by (rule hd_dropWhile)
  moreover have "last (dropWhile is_space (rev t)) = last (rev t)" using t by (rule last_dropWhile)
  moreover have "t \<noteq> []" using t by auto
  moreover have "\<not> is_space (hd t)" using \<open>t \<noteq> []\<close> hd_dropWhile [of is_space s] by (simp add: t_def)
  ultimately show ?thesis using t by (simp add: trim_def t_def [symmetric] hd_rev last_rev)
qed

lemma strip_blanks_id:
  assumes "s \<noteq> [] \<Longrightarrow> \<not> is_blank (hd s) \<and> \<not> is_blank (last s)"
  shows "strip_blanks s = s" "strip_blanks (CHR '' '' # s) = s"
proof -
  show 1: "strip_blanks s = s" unfolding strip_blanks_def by (rule strip_ends [OF assms])
  have "is_blank CHR '' ''" by (simp add: is_blank_def)
  then show "strip_blanks (CHR '' '' # s) = s" using 1 by (simp add: strip_blanks_def)
qed

text \<open>A list of tokens as a header has it.\<close>

fun join_comma :: "string list \<Rightarrow> string" where
  "join_comma [] = []"
| "join_comma [t] = t"
| "join_comma (t # ts) = t @ CHR '','' # CHR '' '' # join_comma ts"

definition token_ok :: "string \<Rightarrow> bool" where
  "token_ok t \<longleftrightarrow> t \<noteq> [] \<and> CHR '','' \<notin> set t \<and> \<not> is_blank (hd t) \<and> \<not> is_blank (last t)"

lemma split_token:
  assumes "CHR '','' \<notin> set t"
  shows "split_comma_delimited_string t = (if list_all is_blank t then [] else [strip_blanks t])"
    and "split_comma_delimited_string (t @ CHR '','' # rest) =
      (if list_all is_blank t then [] else [strip_blanks t]) @ split_comma_delimited_string rest"
proof -
  have all: "\<forall>c\<in>set t. c \<noteq> CHR '',''" using assms by auto
  show "split_comma_delimited_string t = (if list_all is_blank t then [] else [strip_blanks t])"
    using all by (subst split_comma_delimited_string.simps) simp
  have "takeWhile (\<lambda>c. c \<noteq> CHR '','') (t @ CHR '','' # rest) = t"
    "dropWhile (\<lambda>c. c \<noteq> CHR '','') (t @ CHR '','' # rest) = CHR '','' # rest"
    using all by (simp_all add: takeWhile_append2 dropWhile_append2)
  then show "split_comma_delimited_string (t @ CHR '','' # rest) =
      (if list_all is_blank t then [] else [strip_blanks t]) @ split_comma_delimited_string rest"
    by (subst split_comma_delimited_string.simps) simp
qed

lemma token_ok_strip:
  assumes "token_ok t"
  shows "\<not> list_all is_blank t" "strip_blanks t = t"
    "\<not> list_all is_blank (CHR '' '' # t)" "strip_blanks (CHR '' '' # t) = t" "CHR '','' \<notin> set (CHR '' '' # t)"
  using assms strip_blanks_id [of t] by (auto simp: token_ok_def list_all_iff)

lemma split_join:
  "\<forall>t\<in>set ts. token_ok t \<Longrightarrow> split_comma_delimited_string (join_comma ts) = ts \<and>
     (ts \<noteq> [] \<longrightarrow> split_comma_delimited_string (CHR '' '' # join_comma ts) = ts)"
proof (induction ts rule: join_comma.induct)
  case 1
  then show ?case using split_token(1) [of "[]"] by simp
next
  case (2 t)
  then have t: "token_ok t" by simp
  then have "CHR '','' \<notin> set t" by (simp add: token_ok_def)
  then show ?case using token_ok_strip [OF t] split_token(1) [of t] split_token(1) [of "CHR '' '' # t"] by simp
next
  case (3 t t' ts)
  then have t: "token_ok t" by simp
  then have "CHR '','' \<notin> set t" by (simp add: token_ok_def)
  then show ?case
    using 3 token_ok_strip [OF t] split_token(2) [of t] split_token(2) [of "CHR '' '' # t"] by simp
qed

lemma split_tokens_ok:
  "t \<in> set (split_comma_delimited_string s) \<Longrightarrow> token_ok t"
proof (induction s rule: split_comma_delimited_string.induct)
  case (1 sv)
  let ?tok = "takeWhile (\<lambda>c. c \<noteq> CHR '','') sv"
  have strip: "token_ok (strip_blanks ?tok)" if "\<not> list_all is_blank ?tok"
  proof -
    define u where "u = dropWhile is_blank ?tok"
    have u: "u \<noteq> []" using that by (auto simp: u_def list_all_iff)
    then have hu: "\<not> is_blank (hd u)" unfolding u_def by (rule hd_dropWhile)
    have "dropWhile is_blank (rev u) \<noteq> []" using u hu by (auto simp: dropWhile_eq_Nil_conv)
    then have "\<not> is_blank (hd (dropWhile is_blank (rev u)))" by (rule hd_dropWhile)
    moreover have "last (dropWhile is_blank (rev u)) = hd u"
      using last_dropWhile [OF \<open>dropWhile is_blank (rev u) \<noteq> []\<close>] u by (simp add: last_rev)
    moreover have "set (strip_blanks ?tok) \<subseteq> set ?tok"
      unfolding strip_blanks_def by (auto dest!: set_dropWhileD)
    ultimately show ?thesis
      using hu \<open>dropWhile is_blank (rev u) \<noteq> []\<close>
      by (auto simp: token_ok_def strip_blanks_def u_def [symmetric] hd_rev last_rev dest!: set_takeWhileD)
  qed
  show ?case
  proof (cases "dropWhile (\<lambda>c. c \<noteq> CHR '','') sv")
    case Nil
    then show ?thesis using 1(2) strip by (subst (asm) split_comma_delimited_string.simps) (auto split: if_splits)
  next
    case (Cons c rest)
    then show ?thesis
      using 1(2) 1(1) [OF refl refl Cons] strip
      by (subst (asm) split_comma_delimited_string.simps) (auto simp: Let_def split: if_splits)
  qed
qed

end
