(* ===== verification/Network_Cache.thy ===== *)
theory Network_Cache
  imports String_Utils
begin

text \<open>
  \<^verbatim>\<open>http/cache/network_cache.cpp\<close> with the structures of \<^verbatim>\<open>http/model/model.hpp\<close>: the file cache of
  responses, its metadata file, and the parsing of response headers.

  \<^verbatim>\<open>long\<close> is an integer here; what is read from text is clamped to its range by \<^verbatim>\<open>strtol\<close>.  The
  file system is a map from paths to contents together with what the operating system decides:
  which paths can be opened for writing and which writes succeed.  \<open>hash\<close> is \<^verbatim>\<open>std::hash\<close> on
  strings and \<open>now\<close> the clock reading in seconds.
\<close>

section \<open>Structures\<close>

record request =
  req_url :: string
  req_method :: string
  req_body :: string
  req_headers :: "string list"

record response =
  rate_limit_remaining :: int
  rate_limit_reset :: int
  status :: int
  body :: string
  effective_url :: string
  etag :: string
  last_modified :: string
  retry_after :: string
  cache_control :: string
  content_type :: string

definition empty_response :: response where
  "empty_response =
     \<lparr>rate_limit_remaining = -1, rate_limit_reset = -1, status = 0, body = [], effective_url = [],
      etag = [], last_modified = [], retry_after = [], cache_control = [], content_type = []\<rparr>"

record meta =
  meta_unix_ts_s :: int
  meta_status :: int
  meta_etag :: string
  meta_last_modified :: string
  meta_content_type :: string
  meta_cache_control :: string
  meta_retry_after :: string
  meta_rate_limit_remaining :: int
  meta_rate_limit_reset :: int

text \<open>A freshly constructed \<^verbatim>\<open>Meta\<close>; its timestamp has no initializer and is given.\<close>

definition empty_meta :: "int \<Rightarrow> meta" where
  "empty_meta ts =
     \<lparr>meta_unix_ts_s = ts, meta_status = 0, meta_etag = [], meta_last_modified = [], meta_content_type = [],
      meta_cache_control = [], meta_retry_after = [], meta_rate_limit_remaining = -1, meta_rate_limit_reset = -1\<rparr>"

record cache_policy =
  enable_caching :: bool
  ttl_s :: int

definition ONE_DAY_S :: int where
  "ONE_DAY_S = 60 * 60 * 24"

definition default_cache_policy :: cache_policy where
  "default_cache_policy = \<lparr>enable_caching = True, ttl_s = ONE_DAY_S\<rparr>"

text \<open>A hit holds the opened body file: its contents at the time it was opened.\<close>

record hit =
  hit_in :: string
  hit_url :: string
  hit_base_path :: string
  hit_meta :: meta

record file_system =
  files :: "string \<Rightarrow> string option"
  can_open :: "string \<Rightarrow> bool"
  can_write :: "string \<Rightarrow> bool"
  can_rename :: "string \<Rightarrow> bool"
  can_create_directories :: bool

section \<open>Files\<close>

definition BODY_FILE_EXT :: string where "BODY_FILE_EXT = ''.body''"
definition META_FILE_EXT :: string where "META_FILE_EXT = ''.meta''"

text \<open>
  The bytes go to a temporary file that is then renamed.  An exception keeps the file system it
  found or leaves a temporary file: after a failed write one of which nothing is known but that it exists,
  after a failed \<^verbatim>\<open>rename\<close> one with the bytes.
\<close>

definition write_atomic :: "string \<Rightarrow> string \<Rightarrow> file_system \<Rightarrow> file_system \<times> unit result" where
  "write_atomic p bytes fs =
     (let tmp = p @ ''.tmp'' in
      if \<not> can_open fs tmp then (fs, Inl (Runtime_error (''open failed: '' @ tmp)))
      else if \<not> can_write fs tmp
      then (fs\<lparr>files := (files fs)(tmp := Some [])\<rparr>, Inl (Runtime_error (''write failed: '' @ tmp)))
      else if \<not> can_rename fs p
      then (fs\<lparr>files := (files fs)(tmp := Some bytes)\<rparr>, Inl (Filesystem_error ''rename''))
      else (fs\<lparr>files := (files fs)(tmp := None, p := Some bytes)\<rparr>, Inr ()))"

definition NL :: string where "NL = [CHR 0x0A]"

definition meta_text :: "meta \<Rightarrow> string" where
  "meta_text m =
     ''status: '' @ show_int (meta_status m) @ NL @
     ''etag: '' @ meta_etag m @ NL @
     ''last_modified: '' @ meta_last_modified m @ NL @
     ''content_type: '' @ meta_content_type m @ NL @
     ''cache_control: '' @ meta_cache_control m @ NL @
     ''retry_after: '' @ meta_retry_after m @ NL @
     ''rate_limit_remaining: '' @ show_int (meta_rate_limit_remaining m) @ NL @
     ''rate_limit_reset: '' @ show_int (meta_rate_limit_reset m) @ NL @
     ''unix_ts_s: '' @ show_int (meta_unix_ts_s m) @ NL"

definition save_meta_atomic :: "string \<Rightarrow> meta \<Rightarrow> file_system \<Rightarrow> file_system \<times> unit result" where
  "save_meta_atomic p m fs = write_atomic p (meta_text m) fs"

text \<open>\<^verbatim>\<open>std::getline\<close> until it fails: the lines of a text, a last one without newline included.\<close>

function getlines :: "string \<Rightarrow> string list" where
  "getlines s =
     (if s = [] then []
      else let line = takeWhile (\<lambda>c. c \<noteq> CHR 0x0A) s in
           case dropWhile (\<lambda>c. c \<noteq> CHR 0x0A) s of
             [] \<Rightarrow> [line]
           | nl # rest \<Rightarrow> line # getlines rest)"
  by pat_completeness auto
termination
proof (relation "measure length", goal_cases)
  case (2 s line nl rest)
  then have "length (dropWhile (\<lambda>c. c \<noteq> CHR 0x0A) s) = Suc (length rest)" by simp
  then show ?case using length_dropWhile_le [of "\<lambda>c. c \<noteq> CHR 0x0A" s] by simp
qed simp

declare getlines.simps [simp del]

definition as_long :: "string \<Rightarrow> int \<Rightarrow> int" where
  "as_long s def = (let (v, rest) = strtol s in if rest = [] then v else def)"

definition load_meta_line :: "string \<Rightarrow> meta \<Rightarrow> meta" where
  "load_meta_line line out =
     (if CHR '':'' \<notin> set line then out
      else
        let key = trim (takeWhile (\<lambda>c. c \<noteq> CHR '':'') line);
            val = trim (tl (dropWhile (\<lambda>c. c \<noteq> CHR '':'') line))
        in if key = ''status'' then out\<lparr>meta_status := as_long val 0\<rparr>
           else if key = ''etag'' then out\<lparr>meta_etag := val\<rparr>
           else if key = ''last_modified'' then out\<lparr>meta_last_modified := val\<rparr>
           else if key = ''content_type'' then out\<lparr>meta_content_type := val\<rparr>
           else if key = ''cache_control'' then out\<lparr>meta_cache_control := val\<rparr>
           else if key = ''retry_after'' then out\<lparr>meta_retry_after := val\<rparr>
           else if key = ''rate_limit_remaining'' then out\<lparr>meta_rate_limit_remaining := as_long val (-1)\<rparr>
           else if key = ''rate_limit_reset'' then out\<lparr>meta_rate_limit_reset := as_long val (-1)\<rparr>
           else if key = ''unix_ts_s'' then out\<lparr>meta_unix_ts_s := as_long val 0\<rparr>
           else out)"

definition load_meta :: "string \<Rightarrow> file_system \<Rightarrow> meta \<Rightarrow> meta option" where
  "load_meta p fs out =
     (case files fs p of None \<Rightarrow> None | Some text \<Rightarrow> Some (fold load_meta_line (getlines text) out))"

section \<open>The cache\<close>

text \<open>The path of an entry without its extension.  The directory is created each time the path is asked for.\<close>

definition entry_path :: "(string \<Rightarrow> nat) \<Rightarrow> request \<Rightarrow> string" where
  "entry_path hash req = ''cache/http/'' @ show_nat (hash (req_url req))"

definition create_base_path :: "(string \<Rightarrow> nat) \<Rightarrow> request \<Rightarrow> file_system \<Rightarrow> string result" where
  "create_base_path hash req fs =
     (if \<not> can_create_directories fs then Inl (Filesystem_error ''create_directories'')
      else Inr (entry_path hash req))"

definition probe ::
  "(string \<Rightarrow> nat) \<Rightarrow> cache_policy \<Rightarrow> int \<Rightarrow> request \<Rightarrow> file_system \<Rightarrow> hit option result" where
  "probe hash policy ts req fs =
     (if \<not> enable_caching policy then Inr None
      else
        bindR (create_base_path hash req fs) (\<lambda>base_path.
          let body_path = append_to_path base_path BODY_FILE_EXT;
              meta_path = append_to_path base_path META_FILE_EXT
          in case load_meta meta_path fs (empty_meta ts) of
               None \<Rightarrow> Inr None
             | Some m \<Rightarrow>
                 (case files fs body_path of
                    None \<Rightarrow> Inr None
                  | Some contents \<Rightarrow>
                      Inr (Some \<lparr>hit_in = contents, hit_url = req_url req, hit_base_path = base_path, hit_meta = m\<rparr>))))"

definition get_cached_response :: "hit \<Rightarrow> response" where
  "get_cached_response h =
     \<lparr>rate_limit_remaining = meta_rate_limit_remaining (hit_meta h),
      rate_limit_reset = meta_rate_limit_reset (hit_meta h),
      status = meta_status (hit_meta h),
      body = hit_in h,
      effective_url = hit_url h,
      etag = meta_etag (hit_meta h),
      last_modified = meta_last_modified (hit_meta h),
      retry_after = meta_retry_after (hit_meta h),
      cache_control = meta_cache_control (hit_meta h),
      content_type = meta_content_type (hit_meta h)\<rparr>"

definition meta_of_response :: "int \<Rightarrow> response \<Rightarrow> meta" where
  "meta_of_response now resp =
     \<lparr>meta_unix_ts_s = now, meta_status = status resp, meta_etag = etag resp,
      meta_last_modified = last_modified resp, meta_content_type = content_type resp,
      meta_cache_control = cache_control resp, meta_retry_after = retry_after resp,
      meta_rate_limit_remaining = rate_limit_remaining resp, meta_rate_limit_reset = rate_limit_reset resp\<rparr>"

definition cache_response ::
  "(string \<Rightarrow> nat) \<Rightarrow> cache_policy \<Rightarrow> int \<Rightarrow> request \<Rightarrow> response \<Rightarrow> file_system \<Rightarrow> file_system \<times> unit result" where
  "cache_response hash policy now req resp fs =
     (if \<not> enable_caching policy then (fs, Inr ())
      else
        case create_base_path hash req fs of
          Inl x \<Rightarrow> (fs, Inl x)
        | Inr base_path \<Rightarrow>
            let body_path = append_to_path base_path BODY_FILE_EXT;
                meta_path = append_to_path base_path META_FILE_EXT
            in case write_atomic body_path (body resp) fs of
                 (fs1, Inl x) \<Rightarrow> (fs1, Inl x)
               | (fs1, Inr u) \<Rightarrow> save_meta_atomic meta_path (meta_of_response now resp) fs1)"

definition refresh_meta_timestamp :: "int \<Rightarrow> string \<Rightarrow> meta \<Rightarrow> file_system \<Rightarrow> meta \<times> file_system \<times> unit result" where
  "refresh_meta_timestamp now base_path m fs =
     (let m1 = m\<lparr>meta_unix_ts_s := now\<rparr>
      in (m1, save_meta_atomic (append_to_path base_path META_FILE_EXT) m1 fs))"

section \<open>Freshness\<close>

definition MAX_AGE_KEY :: string where "MAX_AGE_KEY = ''max-age''"
definition NO_CACHE_KEY :: string where "NO_CACHE_KEY = ''no-cache''"
definition NO_STORE_KEY :: string where "NO_STORE_KEY = ''no-store''"

text \<open>The value of a \<^verbatim>\<open>max-age\<close> directive, where the code accepts it.\<close>

definition directive_max_age :: "string \<Rightarrow> int option" where
  "directive_max_age trimmed_pair =
     (if CHR ''='' \<notin> set trimmed_pair then None
      else
        let value_str = trim (tl (dropWhile (\<lambda>c. c \<noteq> CHR ''='') trimmed_pair));
            (max_age, rest) = strtol value_str
        in if rest = [] \<and> 0 \<le> max_age then Some max_age else None)"

fun fresh_loop :: "int \<Rightarrow> int \<Rightarrow> string list \<Rightarrow> bool" where
  "fresh_loop ttl age [] = (age \<le> ttl)"
| "fresh_loop ttl age (pair # pairs) =
     (let trimmed_pair = trim pair; n = length trimmed_pair in
      if ieq_prefix trimmed_pair n NO_STORE_KEY then False
      else if ieq_prefix trimmed_pair n NO_CACHE_KEY then age \<le> 0
      else if ieq_prefix trimmed_pair n MAX_AGE_KEY then
        (case directive_max_age trimmed_pair of
           Some max_age \<Rightarrow> age \<le> min ttl max_age
         | None \<Rightarrow> fresh_loop ttl age pairs)
      else fresh_loop ttl age pairs)"

definition fresh_enough :: "cache_policy \<Rightarrow> int \<Rightarrow> meta \<Rightarrow> bool" where
  "fresh_enough policy now m =
     fresh_loop (ttl_s policy) (max (now - meta_unix_ts_s m) 0)
       (split_comma_delimited_string (meta_cache_control m))"

section \<open>Headers\<close>

definition ASCII_LOWERCASE_BIT :: nat where
  "ASCII_LOWERCASE_BIT = 32"

text \<open>The two characters agree once bit 5 of each is set.\<close>

definition ascii_fold :: "char \<Rightarrow> nat" where
  "ascii_fold c = or (of_char c :: nat) ASCII_LOWERCASE_BIT"

definition is_line_blank :: "char \<Rightarrow> bool" where
  "is_line_blank c \<longleftrightarrow> c = CHR 0x0D \<or> c = CHR 0x0A \<or> is_blank c"

text \<open>The common part of both overloads: the value of the header, where the key matches.\<close>

definition header_value :: "string \<Rightarrow> string \<Rightarrow> string option" where
  "header_value buffer key =
     (if length buffer < length key then None
      else if map ascii_fold (take (length key) buffer) \<noteq> map ascii_fold key then None
      else Some (rev (dropWhile is_line_blank (rev (dropWhile is_blank (drop (length key) buffer))))))"

definition extract_header_string :: "string \<Rightarrow> string \<Rightarrow> string \<Rightarrow> bool \<times> string" where
  "extract_header_string buffer key out_property =
     (case header_value buffer key of None \<Rightarrow> (False, out_property) | Some v \<Rightarrow> (True, v))"

definition extract_header_long :: "string \<Rightarrow> string \<Rightarrow> int \<Rightarrow> bool \<times> int" where
  "extract_header_long buffer key out_property =
     (case header_value buffer key of
        None \<Rightarrow> (False, out_property)
      | Some v \<Rightarrow>
          let (val, rest) = strtol v in
          if length rest = length (takeWhile (\<lambda>c. c \<noteq> NUL) v) then (False, out_property) else (True, val))"

section \<open>The metadata file reads back\<close>

lemma getlines_line:
  assumes "CHR 0x0A \<notin> set l"
  shows "getlines (l @ NL @ rest) = l # getlines rest"
proof -
  have "\<forall>c\<in>set l. c \<noteq> CHR 0x0A" using assms by auto
  then have "takeWhile (\<lambda>c. c \<noteq> CHR 0x0A) (l @ NL @ rest) = l"
    "dropWhile (\<lambda>c. c \<noteq> CHR 0x0A) (l @ NL @ rest) = CHR 0x0A # rest"
    by (simp_all add: NL_def takeWhile_append2 dropWhile_append2)
  then show ?thesis by (subst getlines.simps) (simp add: NL_def)
qed

lemma getlines_Nil [simp]: "getlines [] = []"
  by (simp add: getlines.simps)

text \<open>A value that survives the file: on one line and without white space at its ends.\<close>

definition field_ok :: "string \<Rightarrow> bool" where
  "field_ok v \<longleftrightarrow> CHR 0x0A \<notin> set v \<and> trim v = v"

lemma show_nat_set: "c \<in> set (show_nat n) \<Longrightarrow> is_digit c"
  using show_nat_digits by blast

lemma show_int_field: "field_ok (show_int i)"
proof -
  have d: "is_digit (hd (show_nat n))" "is_digit (last (show_nat n))" for n
    using show_nat_set hd_in_set last_in_set show_nat_not_Nil by blast+
  have "\<not> is_space (CHR ''-'')" by (simp add: is_space_def)
  then have "trim (show_int i) = show_int i"
    using d by (intro trim_id) (simp add: show_int_def)
  moreover have "CHR 0x0A \<notin> set (show_int i)"
    using show_nat_set [of "CHR 0x0A"] by (auto simp: show_int_def is_digit_def)
  ultimately show ?thesis by (simp add: field_ok_def)
qed

lemma as_long_show_int: "LONG_MIN \<le> i \<Longrightarrow> i \<le> LONG_MAX \<Longrightarrow> as_long (show_int i) def = i"
  by (simp add: as_long_def strtol_show_int)

text \<open>The key and the value that a line of the file gives.\<close>

lemma meta_line_parts:
  assumes "CHR '':'' \<notin> set key" "trim key = key" "field_ok v"
  shows "CHR '':'' \<in> set (key @ '': '' @ v)"
    and "trim (takeWhile (\<lambda>c. c \<noteq> CHR '':'') (key @ '': '' @ v)) = key"
    and "trim (tl (dropWhile (\<lambda>c. c \<noteq> CHR '':'') (key @ '': '' @ v))) = v"
proof -
  have "\<forall>c\<in>set key. c \<noteq> CHR '':''" using assms(1) by auto
  then have "takeWhile (\<lambda>c. c \<noteq> CHR '':'') (key @ '': '' @ v) = key"
    "dropWhile (\<lambda>c. c \<noteq> CHR '':'') (key @ '': '' @ v) = '': '' @ v"
    by (simp_all add: takeWhile_append2 dropWhile_append2)
  moreover have "is_space CHR '' ''" by (simp add: is_space_def)
  ultimately show "CHR '':'' \<in> set (key @ '': '' @ v)"
    "trim (takeWhile (\<lambda>c. c \<noteq> CHR '':'') (key @ '': '' @ v)) = key"
    "trim (tl (dropWhile (\<lambda>c. c \<noteq> CHR '':'') (key @ '': '' @ v))) = v"
    using assms(2,3) by (simp_all add: trim_blank_front field_ok_def)
qed

lemma trim_keys:
  "trim ''status'' = ''status''" "trim ''etag'' = ''etag''" "trim ''last_modified'' = ''last_modified''"
  "trim ''content_type'' = ''content_type''" "trim ''cache_control'' = ''cache_control''"
  "trim ''retry_after'' = ''retry_after''" "trim ''rate_limit_remaining'' = ''rate_limit_remaining''"
  "trim ''rate_limit_reset'' = ''rate_limit_reset''" "trim ''unix_ts_s'' = ''unix_ts_s''"
  by (simp_all add: trim_def is_space_def)

lemma load_meta_line:
  assumes "CHR '':'' \<notin> set key" "trim key = key" "field_ok v"
  shows "load_meta_line (key @ '': '' @ v) out =
    (if key = ''status'' then out\<lparr>meta_status := as_long v 0\<rparr>
     else if key = ''etag'' then out\<lparr>meta_etag := v\<rparr>
     else if key = ''last_modified'' then out\<lparr>meta_last_modified := v\<rparr>
     else if key = ''content_type'' then out\<lparr>meta_content_type := v\<rparr>
     else if key = ''cache_control'' then out\<lparr>meta_cache_control := v\<rparr>
     else if key = ''retry_after'' then out\<lparr>meta_retry_after := v\<rparr>
     else if key = ''rate_limit_remaining'' then out\<lparr>meta_rate_limit_remaining := as_long v (-1)\<rparr>
     else if key = ''rate_limit_reset'' then out\<lparr>meta_rate_limit_reset := as_long v (-1)\<rparr>
     else if key = ''unix_ts_s'' then out\<lparr>meta_unix_ts_s := as_long v 0\<rparr>
     else out)"
  unfolding load_meta_line_def Let_def meta_line_parts(2,3) [OF assms]
  using meta_line_parts(1) [OF assms] by simp

definition long_ok :: "int \<Rightarrow> bool" where
  "long_ok i \<longleftrightarrow> LONG_MIN \<le> i \<and> i \<le> LONG_MAX"

definition meta_ok :: "meta \<Rightarrow> bool" where
  "meta_ok m \<longleftrightarrow>
     list_all field_ok [meta_etag m, meta_last_modified m, meta_content_type m, meta_cache_control m, meta_retry_after m] \<and>
     list_all long_ok [meta_status m, meta_rate_limit_remaining m, meta_rate_limit_reset m, meta_unix_ts_s m]"

definition meta_lines :: "meta \<Rightarrow> string list" where
  "meta_lines m =
     [''status'' @ '': '' @ show_int (meta_status m),
      ''etag'' @ '': '' @ meta_etag m,
      ''last_modified'' @ '': '' @ meta_last_modified m,
      ''content_type'' @ '': '' @ meta_content_type m,
      ''cache_control'' @ '': '' @ meta_cache_control m,
      ''retry_after'' @ '': '' @ meta_retry_after m,
      ''rate_limit_remaining'' @ '': '' @ show_int (meta_rate_limit_remaining m),
      ''rate_limit_reset'' @ '': '' @ show_int (meta_rate_limit_reset m),
      ''unix_ts_s'' @ '': '' @ show_int (meta_unix_ts_s m)]"

lemma getlines_lines:
  "\<forall>l\<in>set ls. CHR 0x0A \<notin> set l \<Longrightarrow> getlines (concat (map (\<lambda>l. l @ NL) ls)) = ls"
  by (induction ls) (simp_all add: getlines_line)

lemma getlines_meta_text:
  assumes "meta_ok m"
  shows "getlines (meta_text m) = meta_lines m"
proof -
  have "meta_text m = concat (map (\<lambda>l. l @ NL) (meta_lines m))" by (simp add: meta_text_def meta_lines_def)
  moreover have "\<forall>l\<in>set (meta_lines m). CHR 0x0A \<notin> set l"
    using assms show_int_field by (auto simp: meta_lines_def meta_ok_def field_ok_def)
  ultimately show ?thesis using getlines_lines by metis
qed

lemma load_meta_text:
  assumes "meta_ok m"
  shows "fold load_meta_line (getlines (meta_text m)) out = m"
proof -
  have f: "field_ok (meta_etag m)" "field_ok (meta_last_modified m)" "field_ok (meta_content_type m)"
    "field_ok (meta_cache_control m)" "field_ok (meta_retry_after m)"
    using assms by (simp_all add: meta_ok_def)
  have l: "as_long (show_int (meta_status m)) d = meta_status m"
    "as_long (show_int (meta_rate_limit_remaining m)) d = meta_rate_limit_remaining m"
    "as_long (show_int (meta_rate_limit_reset m)) d = meta_rate_limit_reset m"
    "as_long (show_int (meta_unix_ts_s m)) d = meta_unix_ts_s m" for d
    using assms by (simp_all add: meta_ok_def long_ok_def as_long_show_int)
  have k: "load_meta_line (''status'' @ '': '' @ show_int i) x = x\<lparr>meta_status := as_long (show_int i) 0\<rparr>"
    "load_meta_line (''etag'' @ '': '' @ meta_etag m) x = x\<lparr>meta_etag := meta_etag m\<rparr>"
    "load_meta_line (''last_modified'' @ '': '' @ meta_last_modified m) x = x\<lparr>meta_last_modified := meta_last_modified m\<rparr>"
    "load_meta_line (''content_type'' @ '': '' @ meta_content_type m) x = x\<lparr>meta_content_type := meta_content_type m\<rparr>"
    "load_meta_line (''cache_control'' @ '': '' @ meta_cache_control m) x = x\<lparr>meta_cache_control := meta_cache_control m\<rparr>"
    "load_meta_line (''retry_after'' @ '': '' @ meta_retry_after m) x = x\<lparr>meta_retry_after := meta_retry_after m\<rparr>"
    "load_meta_line (''rate_limit_remaining'' @ '': '' @ show_int i) x = x\<lparr>meta_rate_limit_remaining := as_long (show_int i) (-1)\<rparr>"
    "load_meta_line (''rate_limit_reset'' @ '': '' @ show_int i) x = x\<lparr>meta_rate_limit_reset := as_long (show_int i) (-1)\<rparr>"
    "load_meta_line (''unix_ts_s'' @ '': '' @ show_int i) x = x\<lparr>meta_unix_ts_s := as_long (show_int i) 0\<rparr>" for i x
    by (subst load_meta_line; simp add: trim_keys show_int_field f)+
  show ?thesis
    unfolding getlines_meta_text [OF assms] meta_lines_def
    by (simp only: fold_simps comp_apply id_apply k l) (rule meta.equality; simp)
qed

section \<open>Writing and reading the cache\<close>

lemma tmp_differs: "p @ ''.tmp'' \<noteq> p"
  by simp

text \<open>A write replaces the contents of its path or leaves them, and touches no path but the temporary one.\<close>

lemma write_atomic_ok:
  "write_atomic p bytes fs = (fs', Inr u) \<Longrightarrow> files fs' = (files fs)(p @ ''.tmp'' := None, p := Some bytes)"
  unfolding write_atomic_def Let_def by (simp only: split: if_splits) auto

lemma write_atomic_fail:
  "write_atomic p bytes fs = (fs', Inl e) \<Longrightarrow> \<exists>tmp. files fs' = (files fs)(p @ ''.tmp'' := tmp)"
  unfolding write_atomic_def Let_def by (simp only: split: if_splits) (force intro: fun_upd_triv [symmetric])+

lemma write_atomic_directories: "can_create_directories (fst (write_atomic p bytes fs)) = can_create_directories fs"
  by (simp add: write_atomic_def Let_def)

lemma cache_paths_differ:
  "base @ BODY_FILE_EXT \<noteq> base @ META_FILE_EXT" "base @ BODY_FILE_EXT \<noteq> (base @ META_FILE_EXT) @ ''.tmp''"
  by (simp_all add: BODY_FILE_EXT_def META_FILE_EXT_def)

lemma cache_response_files:
  assumes "enable_caching policy" "cache_response hash policy now req resp fs = (fs', Inr ())"
  shows "files fs' (entry_path hash req @ BODY_FILE_EXT) = Some (body resp)"
    and "files fs' (entry_path hash req @ META_FILE_EXT) = Some (meta_text (meta_of_response now resp))"
    and "can_create_directories fs'"
proof -
  let ?base = "entry_path hash req"
  have d: "can_create_directories fs"
    using assms by (simp add: cache_response_def create_base_path_def split: if_splits)
  obtain fs1 where 1: "write_atomic (?base @ BODY_FILE_EXT) (body resp) fs = (fs1, Inr ())"
    and 2: "write_atomic (?base @ META_FILE_EXT) (meta_text (meta_of_response now resp)) fs1 = (fs', Inr ())"
    using assms d
    by (auto simp: cache_response_def create_base_path_def Let_def append_to_path_def save_meta_atomic_def
        split: prod.splits sum.splits)
  show "can_create_directories fs'"
    using d 1 2 write_atomic_directories by (metis fst_conv)
  have b: "files fs1 (?base @ BODY_FILE_EXT) = Some (body resp)" using write_atomic_ok [OF 1] by simp
  show "files fs' (?base @ META_FILE_EXT) = Some (meta_text (meta_of_response now resp))"
    using write_atomic_ok [OF 2] by simp
  show "files fs' (?base @ BODY_FILE_EXT) = Some (body resp)"
    unfolding write_atomic_ok [OF 2] using b cache_paths_differ [of ?base]
    by (simp only: fun_upd_apply if_False simp_thms)
qed

definition response_ok :: "response \<Rightarrow> bool" where
  "response_ok resp \<longleftrightarrow>
     list_all field_ok [etag resp, last_modified resp, content_type resp, cache_control resp, retry_after resp] \<and>
     list_all long_ok [status resp, rate_limit_remaining resp, rate_limit_reset resp]"

lemma probe_cached:
  assumes "enable_caching policy" "cache_response hash policy now req resp fs = (fs', Inr ())"
    and "response_ok resp" "long_ok now"
  shows "probe hash policy ts req fs' =
    Inr (Some \<lparr>hit_in = body resp, hit_url = req_url req, hit_base_path = entry_path hash req,
               hit_meta = meta_of_response now resp\<rparr>)"
proof -
  have "meta_ok (meta_of_response now resp)"
    using assms(3,4) by (simp add: meta_ok_def response_ok_def meta_of_response_def)
  then show ?thesis
    using assms(1) cache_response_files [OF assms(1,2)]
    by (simp add: probe_def create_base_path_def append_to_path_def load_meta_def load_meta_text)
qed

section \<open>Freshness\<close>

lemma fresh_loop_within_ttl: "0 \<le> ttl \<Longrightarrow> fresh_loop ttl age pairs \<Longrightarrow> age \<le> ttl"
  by (induction pairs) (auto simp: Let_def split: if_splits option.splits)

lemma fresh_loop_no_store:
  "pair \<in> set pairs \<Longrightarrow> 0 < age \<Longrightarrow> ieq_prefix (trim pair) (length (trim pair)) NO_STORE_KEY \<Longrightarrow>
   \<forall>q\<in>set pairs. \<not> ieq_prefix (trim q) (length (trim q)) MAX_AGE_KEY \<Longrightarrow> \<not> fresh_loop ttl age pairs"
  by (induction pairs) (auto simp: Let_def split: if_splits)

end
