(* ===== verification/Http_Client.thy ===== *)
theory Http_Client
  imports Network_Cache
begin

text \<open>
  \<^verbatim>\<open>http/client/curl_easy.cpp\<close>: a request through the cache, with retries.

  libcurl is not part of the repository.  What the client uses of it is the environment: a
  transfer for a url with headers, the clock, sleeping, and the random jitter, all over a state
  \<open>'w\<close> of the outside world.  A transfer fails with a message, possibly after some header
  lines, or delivers a status code, an effective url (or a null pointer), the header lines and the
  body.  Setting an option does not fail.  A timestamp that a metadata file does not set is 0.
\<close>

section \<open>State\<close>

record retry_policy =
  max_tries :: nat
  base_delay :: int
  max_delay :: int

definition BASE_DELAY_MS :: int where "BASE_DELAY_MS = 300"
definition MAX_DELAY_MS :: int where "MAX_DELAY_MS = 1500"

definition default_retry_policy :: retry_policy where
  "default_retry_policy = \<lparr>max_tries = 3, base_delay = BASE_DELAY_MS, max_delay = MAX_DELAY_MS\<rparr>"

record transferred =
  tr_code :: int
  tr_effective_url :: "string option"
  tr_headers :: "string list"
  tr_body :: string

datatype transfer = Transfer_failed string "string list" | Transferred transferred

record 'w environment =
  env_perform :: "string \<Rightarrow> string list \<Rightarrow> 'w \<Rightarrow> transfer \<times> 'w"
  env_now :: "'w \<Rightarrow> int"
  env_sleep :: "int \<Rightarrow> 'w \<Rightarrow> 'w"
  env_jitter :: "int \<Rightarrow> 'w \<Rightarrow> int \<times> 'w"

record curl_easy =
  last_content_length :: int
  last_rl_remaining :: int
  last_rl_reset :: int
  last_etag :: string
  last_last_modified :: string
  last_retry_after :: string
  last_content_type :: string
  last_cache_control :: string
  last_response_headers :: "string list"

definition new_curl_easy :: curl_easy where
  "new_curl_easy =
     \<lparr>last_content_length = -1, last_rl_remaining = -1, last_rl_reset = -1, last_etag = [],
      last_last_modified = [], last_retry_after = [], last_content_type = [], last_cache_control = [],
      last_response_headers = []\<rparr>"

text \<open>The client with the disk its cache is on and the outside world.\<close>

record 'w client =
  curl :: curl_easy
  disk :: file_system
  world :: 'w

section \<open>One request\<close>

definition CONTENT_LENGTH :: string where "CONTENT_LENGTH = ''content-length:''"
definition CONTENT_TYPE :: string where "CONTENT_TYPE = ''content-type:''"
definition ETAG :: string where "ETAG = ''etag:''"
definition LAST_MODIFIED :: string where "LAST_MODIFIED = ''last-modified:''"
definition RETRY_AFTER :: string where "RETRY_AFTER = ''retry-after:''"
definition X_RATELIMIT_REMAINING :: string where "X_RATELIMIT_REMAINING = ''x-ratelimit-remaining:''"
definition X_RATELIMIT_RESET :: string where "X_RATELIMIT_RESET = ''x-ratelimit-reset:''"
definition CACHE_CONTROL :: string where "CACHE_CONTROL = ''cache-control:''"

definition header_cb :: "string \<Rightarrow> curl_easy \<Rightarrow> curl_easy" where
  "header_cb buffer c =
     c\<lparr>last_content_length := snd (extract_header_long buffer CONTENT_LENGTH (last_content_length c)),
       last_rl_remaining := snd (extract_header_long buffer X_RATELIMIT_REMAINING (last_rl_remaining c)),
       last_rl_reset := snd (extract_header_long buffer X_RATELIMIT_RESET (last_rl_reset c)),
       last_etag := snd (extract_header_string buffer ETAG (last_etag c)),
       last_last_modified := snd (extract_header_string buffer LAST_MODIFIED (last_last_modified c)),
       last_retry_after := snd (extract_header_string buffer RETRY_AFTER (last_retry_after c)),
       last_content_type := snd (extract_header_string buffer CONTENT_TYPE (last_content_type c)),
       last_cache_control := snd (extract_header_string buffer CACHE_CONTROL (last_cache_control c)),
       last_response_headers := last_response_headers c @ [buffer]\<rparr>"

text \<open>Neither the rate limits nor the strings of the last response are cleared here.\<close>

definition prepare_for_new_request :: "curl_easy \<Rightarrow> curl_easy" where
  "prepare_for_new_request c = c\<lparr>last_response_headers := [], last_content_length := -1\<rparr>"

text \<open>The strings are moved out of the client; a moved-from string is empty.\<close>

definition make_response :: "transferred \<Rightarrow> curl_easy \<Rightarrow> response \<times> curl_easy" where
  "make_response t c =
     (\<lparr>rate_limit_remaining = last_rl_remaining c, rate_limit_reset = last_rl_reset c, status = tr_code t,
       body = tr_body t, effective_url = (case tr_effective_url t of None \<Rightarrow> [] | Some u \<Rightarrow> u),
       etag = last_etag c, last_modified = last_last_modified c, retry_after = last_retry_after c,
       cache_control = last_cache_control c, content_type = last_content_type c\<rparr>,
      c\<lparr>last_etag := [], last_last_modified := [], last_retry_after := [], last_content_type := [],
        last_cache_control := []\<rparr>)"

definition conditional_headers :: "hit option \<Rightarrow> string list \<Rightarrow> string list" where
  "conditional_headers h hdrs =
     (case h of
        None \<Rightarrow> hdrs
      | Some h \<Rightarrow>
          hdrs @ (if meta_etag (hit_meta h) \<noteq> [] then [''If-None-Match: '' @ meta_etag (hit_meta h)] else []) @
          (if meta_last_modified (hit_meta h) \<noteq> [] then [''If-Modified-Since: '' @ meta_last_modified (hit_meta h)] else []))"

definition NOT_MODIFIED :: int where "NOT_MODIFIED = 304"
definition TOO_MANY_REQUESTS :: int where "TOO_MANY_REQUESTS = 429"
definition BAD_GATEWAY :: int where "BAD_GATEWAY = 502"
definition SERVICE_UNAVAILABLE :: int where "SERVICE_UNAVAILABLE = 503"
definition GATEWAY_TIMEOUT :: int where "GATEWAY_TIMEOUT = 504"

text \<open>
  What follows a transfer: a response that is not modified refreshes the entry and answers from
  it, any other one is written to the cache.
\<close>

definition finish_get ::
  "'w environment \<Rightarrow> (string \<Rightarrow> nat) \<Rightarrow> cache_policy \<Rightarrow> request \<Rightarrow> hit option \<Rightarrow> response \<Rightarrow> 'w client \<Rightarrow> 'w client \<times> response result" where
  "finish_get env hash policy req h r s =
     (case (if status r = NOT_MODIFIED then h else None) of
        Some hit \<Rightarrow>
          (case refresh_meta_timestamp (env_now env (world s)) (hit_base_path hit) (hit_meta hit) (disk s) of
             (m, fs, Inl x) \<Rightarrow> (s\<lparr>disk := fs\<rparr>, Inl x)
           | (m, fs, Inr u) \<Rightarrow> (s\<lparr>disk := fs\<rparr>, Inr (get_cached_response (hit\<lparr>hit_meta := m\<rparr>))))
      | None \<Rightarrow>
          (case cache_response hash policy (env_now env (world s)) req r (disk s) of
             (fs, Inl x) \<Rightarrow> (s\<lparr>disk := fs\<rparr>, Inl x)
           | (fs, Inr u) \<Rightarrow> (s\<lparr>disk := fs\<rparr>, Inr r)))"

definition fetch ::
  "'w environment \<Rightarrow> (string \<Rightarrow> nat) \<Rightarrow> cache_policy \<Rightarrow> request \<Rightarrow> hit option \<Rightarrow> 'w client \<Rightarrow> 'w client \<times> response result" where
  "fetch env hash policy req h s =
     (let hdrs = conditional_headers h (req_headers req);
          c = prepare_for_new_request (curl s);
          (t, w) = env_perform env (req_url req) hdrs (world s)
      in case t of
           Transfer_failed msg lines \<Rightarrow>
             (s\<lparr>curl := fold header_cb lines c, world := w\<rparr>,
              Inl (Runtime_error (''curl_easy_perform failed: '' @ msg)))
         | Transferred t \<Rightarrow>
             let (r, c) = make_response t (fold header_cb (tr_headers t) c)
             in finish_get env hash policy req h r (s\<lparr>curl := c, world := w\<rparr>))"

definition fresh_hit :: "cache_policy \<Rightarrow> int \<Rightarrow> hit option \<Rightarrow> hit option" where
  "fresh_hit policy now h =
     (case h of None \<Rightarrow> None | Some hit \<Rightarrow> if fresh_enough policy now (hit_meta hit) then Some hit else None)"

definition get ::
  "'w environment \<Rightarrow> (string \<Rightarrow> nat) \<Rightarrow> cache_policy \<Rightarrow> request \<Rightarrow> 'w client \<Rightarrow> 'w client \<times> response result" where
  "get env hash policy req s =
     (case probe hash policy 0 req (disk s) of
        Inl x \<Rightarrow> (s, Inl x)
      | Inr h \<Rightarrow>
          (case fresh_hit policy (env_now env (world s)) h of
             Some hit \<Rightarrow> (s, Inr (get_cached_response hit))
           | None \<Rightarrow> fetch env hash policy req h s))"

section \<open>Retries\<close>

definition is_retryable_http :: "int \<Rightarrow> bool" where
  "is_retryable_http code \<longleftrightarrow>
     code = TOO_MANY_REQUESTS \<or> code = BAD_GATEWAY \<or> code = SERVICE_UNAVAILABLE \<or> code = GATEWAY_TIMEOUT"

text \<open>Sleeps for the delay and a jitter of at most the base delay, and returns the next delay.\<close>

definition get_retry_delay :: "'w environment \<Rightarrow> retry_policy \<Rightarrow> int \<Rightarrow> 'w client \<Rightarrow> int \<times> 'w client" where
  "get_retry_delay env p delay s =
     (let (jitter, w) = env_jitter env (base_delay p) (world s)
      in (min (delay * 2) (max_delay p), s\<lparr>world := env_sleep env (delay + jitter) w\<rparr>))"

text \<open>\<open>k\<close> attempts follow the one at hand, so \<^verbatim>\<open>attempt < p.max_tries_\<close> is \<open>0 < k\<close>.\<close>

fun retry_loop ::
  "'w environment \<Rightarrow> (string \<Rightarrow> nat) \<Rightarrow> cache_policy \<Rightarrow> retry_policy \<Rightarrow> request \<Rightarrow> nat \<Rightarrow> int \<Rightarrow> 'w client \<Rightarrow>
   'w client \<times> response result" where
  "retry_loop env hash policy p req 0 delay s = (s, Inr empty_response)"
| "retry_loop env hash policy p req (Suc k) delay s =
     (case get env hash policy req s of
        (s1, Inl x) \<Rightarrow>
          if 0 < k then (let (d, s2) = get_retry_delay env p delay s1 in retry_loop env hash policy p req k d s2)
          else (s1, Inl x)
      | (s1, Inr resp) \<Rightarrow>
          if is_retryable_http (status resp) \<and> 0 < k
          then (let (d, s2) = get_retry_delay env p delay s1 in retry_loop env hash policy p req k d s2)
          else if status resp \<noteq> TOO_MANY_REQUESTS then (s1, Inr resp)
          else if retry_after resp \<noteq> [] then
            let sec = fst (strtol (retry_after resp));
                s2 = (if 0 < sec then s1\<lparr>world := env_sleep env (sec * 1000) (world s1)\<rparr> else s1)
            in retry_loop env hash policy p req k delay s2
          else if rate_limit_remaining resp = 0 \<and> 0 < rate_limit_reset resp then
            let now = env_now env (world s1);
                wait = (if now < rate_limit_reset resp then rate_limit_reset resp - now else 1);
                s2 = s1\<lparr>world := env_sleep env (wait * 1000) (world s1)\<rparr>
            in retry_loop env hash policy p req k delay s2
          else if 0 < k then (let (d, s2) = get_retry_delay env p delay s1 in retry_loop env hash policy p req k d s2)
          else (s1, Inr resp))"

definition get_with_retries ::
  "'w environment \<Rightarrow> (string \<Rightarrow> nat) \<Rightarrow> cache_policy \<Rightarrow> retry_policy \<Rightarrow> request \<Rightarrow> 'w client \<Rightarrow> 'w client \<times> response result" where
  "get_with_retries env hash policy p req s = retry_loop env hash policy p req (max_tries p) (base_delay p) s"

section \<open>Attempts\<close>

text \<open>What one attempt does to a measure of the world that only transfers raise.\<close>

definition counts_transfers :: "'w environment \<Rightarrow> ('w \<Rightarrow> nat) \<Rightarrow> bool" where
  "counts_transfers env c \<longleftrightarrow>
     (\<forall>u hs w. c (snd (env_perform env u hs w)) = Suc (c w)) \<and> (\<forall>ms w. c (env_sleep env ms w) = c w) \<and>
     (\<forall>b w. c (snd (env_jitter env b w)) = c w)"

lemma finish_get_world: "world (fst (finish_get env hash policy req h r s)) = world s"
  by (auto simp: finish_get_def split: option.splits prod.splits sum.splits)

lemma fetch_count:
  assumes "counts_transfers env c"
  shows "c (world (fst (fetch env hash policy req h s))) = Suc (c (world s))"
proof -
  let ?hs = "conditional_headers h (req_headers req)"
  obtain t w where t: "env_perform env (req_url req) ?hs (world s) = (t, w)" by fastforce
  have "c w = Suc (c (world s))" using assms t unfolding counts_transfers_def by (metis snd_conv)
  then show ?thesis
    using t by (simp add: fetch_def Let_def finish_get_world split: transfer.split prod.split)
qed

lemma get_count:
  assumes "counts_transfers env c"
  shows "c (world (fst (get env hash policy req s))) \<le> Suc (c (world s))"
  using fetch_count [OF assms] by (simp add: get_def split: option.split sum.split)

lemma get_retry_delay_count:
  "counts_transfers env c \<Longrightarrow> c (world (snd (get_retry_delay env p d s))) = c (world s)"
  by (auto simp: get_retry_delay_def counts_transfers_def Let_def split: prod.split) (metis snd_conv)

lemma retry_loop_count:
  assumes "counts_transfers env c"
  shows "c (world (fst (retry_loop env hash policy p req k d s))) \<le> c (world s) + k"
proof (induction k arbitrary: d s)
  case (Suc k)
  obtain s1 x where g: "get env hash policy req s = (s1, x)" by fastforce
  have 1: "c (world s1) \<le> Suc (c (world s))" using get_count [OF assms, of hash policy req s] g by simp
  have sleep: "c (env_sleep env ms w) = c w" for ms w using assms by (simp add: counts_transfers_def)
  have step: "c (world (fst (retry_loop env hash policy p req k d2 s2))) \<le> c (world s) + Suc k"
    if "c (world s2) = c (world s1)" for d2 s2
    using Suc.IH [of d2 s2] 1 that by simp
  have delay: "c (world (fst (case get_retry_delay env p d s1 of (d2, s2) \<Rightarrow> retry_loop env hash policy p req k d2 s2)))
      \<le> c (world s) + Suc k"
    using step get_retry_delay_count [OF assms, of p d s1] by (simp add: split_beta)
  show ?case
    using 1 step delay sleep by (cases x) (auto simp: g Let_def)
qed simp

lemma get_retry_delay_bounds:
  "0 \<le> d \<Longrightarrow> d \<le> m \<Longrightarrow> 0 \<le> max_delay p \<Longrightarrow> max_delay p \<le> m \<Longrightarrow>
   0 \<le> fst (get_retry_delay env p d s) \<and> fst (get_retry_delay env p d s) \<le> m"
  by (auto simp: get_retry_delay_def Let_def split: prod.split)

section \<open>A cached response answers the next request\<close>

lemma fresh_loop_Nil: "split_comma_delimited_string [] = []"
  by (simp add: split_comma_delimited_string.simps)

lemma get_after_cache:
  assumes "enable_caching policy" "cache_response hash policy now req resp fs = (fs', Inr ())"
    and "response_ok resp" "long_ok now" "disk s = fs'"
    and "fresh_enough policy (env_now env (world s)) (meta_of_response now resp)"
  shows "get env hash policy req s = (s, Inr (resp\<lparr>effective_url := req_url req\<rparr>))"
proof -
  have "probe hash policy 0 req (disk s) =
    Inr (Some \<lparr>hit_in = body resp, hit_url = req_url req, hit_base_path = entry_path hash req,
               hit_meta = meta_of_response now resp\<rparr>)"
    using probe_cached [OF assms(1-4)] assms(5) by simp
  then show ?thesis
    using assms(6) by (simp add: get_def Let_def fresh_hit_def get_cached_response_def meta_of_response_def)
qed

end
