(* ===== verification/Curl_Handle.thy ===== *)
theory Curl_Handle
  imports Http_Client
begin

text \<open>
  \<^verbatim>\<open>http/client/curl_easy.cpp\<close>: the libcurl handle behind a client, its options and its list of headers.

  What libcurl documents of \<^verbatim>\<open>curl_easy_setopt\<close> is used: the handle keeps the last value of each option,
  and setting one may fail with an error code, whose text the parameter \<open>lib\<close> gives.  A list of
  headers is a block of memory with an address; the handle only keeps the address, and reads the
  list when it performs the transfer.  Callbacks and buffers are names.
\<close>

section \<open>Options\<close>

datatype curl_option =
    CURLOPT_URL | CURLOPT_HTTPHEADER | CURLOPT_ERRORBUFFER | CURLOPT_FOLLOWLOCATION | CURLOPT_MAXREDIRS
  | CURLOPT_CONNECTTIMEOUT_MS | CURLOPT_TIMEOUT_MS | CURLOPT_NOPROGRESS | CURLOPT_USERAGENT | CURLOPT_NOSIGNAL
  | CURLOPT_TCP_KEEPALIVE | CURLOPT_TCP_KEEPIDLE | CURLOPT_TCP_KEEPINTVL | CURLOPT_ACCEPT_ENCODING
  | CURLOPT_HTTP_VERSION | CURLOPT_HTTPGET | CURLOPT_WRITEFUNCTION | CURLOPT_WRITEDATA
  | CURLOPT_HEADERFUNCTION | CURLOPT_HEADERDATA | CURLOPT_POST | CURLOPT_UPLOAD | CURLOPT_CUSTOMREQUEST

datatype option_value = Long int | Str string | Null | Slist nat | Named string

type_synonym libcurl = "curl_option \<Rightarrow> option_value \<Rightarrow> string option"

definition FOLLOW_LOCATION :: int where "FOLLOW_LOCATION = 1"
definition MAX_REDIRECTS :: int where "MAX_REDIRECTS = 10"
definition CONNECT_TIMEOUT_MS :: int where "CONNECT_TIMEOUT_MS = 10000"
definition TIMEOUT_MS :: int where "TIMEOUT_MS = 30000"
definition USER_AGENT :: string where "USER_AGENT = ''cpp-libcurl-client/1.0''"
definition ACCEPT_ENCODING :: string where "ACCEPT_ENCODING = []"
definition CURL_HTTP_VERSION_2TLS :: int where "CURL_HTTP_VERSION_2TLS = 4"
definition NO_PROGRESS :: int where "NO_PROGRESS = 1"
definition NO_SIGNAL :: int where "NO_SIGNAL = 1"
definition TCP_KEEPALIVE :: int where "TCP_KEEPALIVE = 1"
definition TCP_KEEPIDLE :: int where "TCP_KEEPIDLE = 120"
definition TCP_KEEPINTVL :: int where "TCP_KEEPINTVL = 60"
definition POST :: int where "POST = 0"
definition UPLOAD :: int where "UPLOAD = 0"
definition HTTP_GET :: int where "HTTP_GET = 1"

section \<open>The handle\<close>

record curl_handle =
  ch_options :: "curl_option \<Rightarrow> option_value option"
  ch_lists :: "nat \<Rightarrow> string list option"
  ch_next :: nat
  ch_headers :: "nat option"

definition empty_handle :: curl_handle where
  "empty_handle = \<lparr>ch_options = (\<lambda>opt. None), ch_lists = (\<lambda>a. None), ch_next = 0, ch_headers = None\<rparr>"

definition setopt :: "libcurl \<Rightarrow> curl_option \<Rightarrow> option_value \<Rightarrow> curl_handle \<Rightarrow> unit result \<times> curl_handle" where
  "setopt lib opt v h =
     (case lib opt v of
        Some strerror \<Rightarrow> (Inl (Runtime_error (''curl_easy_setopt failed: '' @ strerror)), h)
      | None \<Rightarrow> (Inr (), h\<lparr>ch_options := (ch_options h)(opt := Some v)\<rparr>))"

fun setopts :: "libcurl \<Rightarrow> (curl_option \<times> option_value) list \<Rightarrow> curl_handle \<Rightarrow> unit result \<times> curl_handle" where
  "setopts lib [] h = (Inr (), h)"
| "setopts lib ((opt, v) # ovs) h =
     (case setopt lib opt v h of
        (Inl x, h') \<Rightarrow> (Inl x, h')
      | (Inr u, h') \<Rightarrow> setopts lib ovs h')"

definition set_defaults_once :: "libcurl \<Rightarrow> curl_handle \<Rightarrow> unit result \<times> curl_handle" where
  "set_defaults_once lib =
     setopts lib [(CURLOPT_ERRORBUFFER, Named ''error_buf''), (CURLOPT_FOLLOWLOCATION, Long FOLLOW_LOCATION),
       (CURLOPT_MAXREDIRS, Long MAX_REDIRECTS), (CURLOPT_CONNECTTIMEOUT_MS, Long CONNECT_TIMEOUT_MS),
       (CURLOPT_TIMEOUT_MS, Long TIMEOUT_MS), (CURLOPT_NOPROGRESS, Long NO_PROGRESS), (CURLOPT_USERAGENT, Str USER_AGENT),
       (CURLOPT_NOSIGNAL, Long NO_SIGNAL)]"

text \<open>The constructor; \<open>init_ok\<close> says whether \<^verbatim>\<open>curl_easy_init\<close> gave a handle.\<close>

definition new_handle :: "libcurl \<Rightarrow> bool \<Rightarrow> unit result \<times> curl_handle" where
  "new_handle lib init_ok =
     (if \<not> init_ok then (Inl (Runtime_error ''Failed to create CURL easy handle''), empty_handle)
      else set_defaults_once lib empty_handle)"

definition slist_free_all :: "nat option \<Rightarrow> curl_handle \<Rightarrow> curl_handle" where
  "slist_free_all a h = (case a of None \<Rightarrow> h | Some a \<Rightarrow> h\<lparr>ch_lists := (ch_lists h)(a := None)\<rparr>)"

definition destroy_handle :: "curl_handle \<Rightarrow> curl_handle" where
  "destroy_handle h = slist_free_all (ch_headers h) h"

definition set_url :: "libcurl \<Rightarrow> string \<Rightarrow> curl_handle \<Rightarrow> unit result \<times> curl_handle" where
  "set_url lib u = setopt lib CURLOPT_URL (Str u)"

text \<open>Appending to a null list makes a new one; appending to a list keeps its address.\<close>

definition slist_append :: "string \<Rightarrow> curl_handle \<Rightarrow> curl_handle" where
  "slist_append x h =
     (case ch_headers h of
        None \<Rightarrow> h\<lparr>ch_lists := (ch_lists h)(ch_next h := Some [x]), ch_next := Suc (ch_next h), ch_headers := Some (ch_next h)\<rparr>
      | Some a \<Rightarrow> h\<lparr>ch_lists := (ch_lists h)(a := map_option (\<lambda>xs. xs @ [x]) (ch_lists h a))\<rparr>)"

definition set_headers :: "libcurl \<Rightarrow> string list \<Rightarrow> curl_handle \<Rightarrow> unit result \<times> curl_handle" where
  "set_headers lib hs h =
     (let h1 = (slist_free_all (ch_headers h) h)\<lparr>ch_headers := None\<rparr>;
          h2 = fold slist_append hs h1
      in case ch_headers h2 of
           None \<Rightarrow> (Inr (), h2)
         | Some a \<Rightarrow> setopt lib CURLOPT_HTTPHEADER (Slist a) h2)"

definition enable_keepalive :: "libcurl \<Rightarrow> curl_handle \<Rightarrow> unit result \<times> curl_handle" where
  "enable_keepalive lib =
     setopts lib [(CURLOPT_TCP_KEEPALIVE, Long TCP_KEEPALIVE), (CURLOPT_TCP_KEEPIDLE, Long TCP_KEEPIDLE),
       (CURLOPT_TCP_KEEPINTVL, Long TCP_KEEPINTVL)]"

definition enable_compression :: "libcurl \<Rightarrow> curl_handle \<Rightarrow> unit result \<times> curl_handle" where
  "enable_compression lib = setopt lib CURLOPT_ACCEPT_ENCODING (Str ACCEPT_ENCODING)"

definition prefer_http2_tls :: "libcurl \<Rightarrow> curl_handle \<Rightarrow> unit result \<times> curl_handle" where
  "prefer_http2_tls lib = setopt lib CURLOPT_HTTP_VERSION (Long CURL_HTTP_VERSION_2TLS)"

text \<open>The options of \<^verbatim>\<open>prepare_for_new_request\<close>.\<close>

definition request_options :: "(curl_option \<times> option_value) list" where
  "request_options =
     [(CURLOPT_HTTPGET, Long HTTP_GET), (CURLOPT_WRITEFUNCTION, Named ''write_to_string''),
      (CURLOPT_WRITEDATA, Named ''body''), (CURLOPT_HEADERFUNCTION, Named ''header_cb''), (CURLOPT_HEADERDATA, Named ''this''),
      (CURLOPT_POST, Long POST), (CURLOPT_UPLOAD, Long UPLOAD), (CURLOPT_CUSTOMREQUEST, Null)]"

text \<open>The calls of \<^verbatim>\<open>get\<close> on the handle before it performs the transfer.\<close>

definition set_request :: "libcurl \<Rightarrow> string \<times> string list \<Rightarrow> curl_handle \<Rightarrow> unit result \<times> curl_handle" where
  "set_request lib req h =
     (case set_url lib (fst req) h of
        (Inl x, h1) \<Rightarrow> (Inl x, h1)
      | (Inr u, h1) \<Rightarrow>
          (case set_headers lib (snd req) h1 of
             (Inl x, h2) \<Rightarrow> (Inl x, h2)
           | (Inr u, h2) \<Rightarrow> setopts lib request_options h2))"

fun set_requests :: "libcurl \<Rightarrow> (string \<times> string list) list \<Rightarrow> curl_handle \<Rightarrow> unit result \<times> curl_handle" where
  "set_requests lib [] h = (Inr (), h)"
| "set_requests lib (req # reqs) h =
     (case set_request lib req h of
        (Inl x, h') \<Rightarrow> (Inl x, h')
      | (Inr u, h') \<Rightarrow> set_requests lib reqs h')"

text \<open>
  The headers libcurl reads in a transfer, \<open>None\<close> if their memory has been freed; the transfer; and
  \<^verbatim>\<open>perform_throw\<close>, whose message is that of the error buffer or, if it is empty, that of the error code.
\<close>

definition sent_headers :: "curl_handle \<Rightarrow> string list option" where
  "sent_headers h = (case ch_options h CURLOPT_HTTPHEADER of Some (Slist a) \<Rightarrow> ch_lists h a | _ \<Rightarrow> Some [])"

definition perform :: "'w environment \<Rightarrow> curl_handle \<Rightarrow> 'w \<Rightarrow> (transfer \<times> 'w) option" where
  "perform env h w =
     (case (ch_options h CURLOPT_URL, sent_headers h) of
        (Some (Str u), Some hs) \<Rightarrow> Some (env_perform env u hs w)
      | _ \<Rightarrow> None)"

definition perform_throw ::
  "'w environment \<Rightarrow> string \<Rightarrow> curl_handle \<Rightarrow> 'w \<Rightarrow> (transferred result \<times> 'w) option" where
  "perform_throw env strerror h w =
     (case perform env h w of
        None \<Rightarrow> None
      | Some (Transferred t, w') \<Rightarrow> Some (Inr t, w')
      | Some (Transfer_failed error_buf lines, w') \<Rightarrow>
          Some (Inl (Runtime_error (''curl_easy_perform failed: '' @ (if error_buf \<noteq> [] then error_buf else strerror))), w'))"

section \<open>The invariant\<close>

text \<open>At most the list the client knows is allocated, and addresses are not reused.\<close>

definition handle_ok :: "curl_handle \<Rightarrow> bool" where
  "handle_ok h \<longleftrightarrow>
     (\<forall>a. ch_lists h a \<noteq> None \<longleftrightarrow> ch_headers h = Some a) \<and> (\<forall>a. ch_headers h = Some a \<longrightarrow> a < ch_next h)"

lemma setopt_Inr:
  "setopt lib opt v h = (Inr u, h') \<Longrightarrow> h' = h\<lparr>ch_options := (ch_options h)(opt := Some v)\<rparr>"
  by (auto simp: setopt_def split: option.splits)

lemma setopts_Inr:
  "setopts lib ovs h = (Inr u, h') \<Longrightarrow>
     ch_lists h' = ch_lists h \<and> ch_next h' = ch_next h \<and> ch_headers h' = ch_headers h \<and>
     (\<forall>opt. opt \<notin> fst ` set ovs \<longrightarrow> ch_options h' opt = ch_options h opt)"
proof (induction ovs arbitrary: h)
  case (Cons ov ovs)
  obtain opt v where ov: "ov = (opt, v)" by (cases ov)
  then obtain h1 where "setopt lib opt v h = (Inr (), h1)" "setopts lib ovs h1 = (Inr u, h')"
    using Cons.prems by (auto split: prod.splits sum.splits)
  then show ?case using Cons.IH [of h1] setopt_Inr [of lib opt v h _ h1] by (simp add: ov)
qed simp

lemma setopts_last:
  "setopts lib ovs h = (Inr u, h') \<Longrightarrow> distinct (map fst ovs) \<Longrightarrow> (opt, v) \<in> set ovs \<Longrightarrow> ch_options h' opt = Some v"
proof (induction ovs arbitrary: h)
  case (Cons ov ovs)
  obtain o1 v1 where ov: "ov = (o1, v1)" by (cases ov)
  then obtain h1 where h1: "setopt lib o1 v1 h = (Inr (), h1)" "setopts lib ovs h1 = (Inr u, h')"
    using Cons.prems by (auto split: prod.splits sum.splits)
  show ?case
  proof (cases "ov = (opt, v)")
    case True
    then have "opt \<notin> fst ` set ovs" using Cons.prems(2) by simp
    then show ?thesis using setopts_Inr [OF h1(2)] setopt_Inr [OF h1(1)] True ov by simp
  next
    case False
    then show ?thesis using Cons.IH [OF h1(2)] Cons.prems by simp
  qed
qed simp

lemma slist_appends:
  assumes "ch_headers h = Some a" "ch_lists h a = Some xs"
  shows "fold slist_append hs h = h\<lparr>ch_lists := (ch_lists h)(a := Some (xs @ hs))\<rparr>"
  using assms
proof (induction hs arbitrary: h xs)
  case (Cons x hs)
  have "slist_append x h = h\<lparr>ch_lists := (ch_lists h)(a := Some (xs @ [x]))\<rparr>"
    using Cons.prems by (simp add: slist_append_def)
  then show ?case using Cons.IH [of "slist_append x h" "xs @ [x]"] Cons.prems by (simp cong: if_cong)
qed (simp add: fun_upd_idem)

lemma slist_appends_new:
  assumes "ch_headers h = None" "hs \<noteq> []"
  shows "fold slist_append hs h =
    h\<lparr>ch_lists := (ch_lists h)(ch_next h := Some hs), ch_next := Suc (ch_next h), ch_headers := Some (ch_next h)\<rparr>"
proof (cases hs)
  case (Cons x xs)
  then show ?thesis using assms by (simp add: slist_append_def [of x h] slist_appends)
qed (use assms in simp)

lemma slist_free_all_simps [simp]:
  "ch_options (slist_free_all a h) = ch_options h" "ch_next (slist_free_all a h) = ch_next h"
  "ch_headers (slist_free_all a h) = ch_headers h"
  by (simp_all add: slist_free_all_def split: option.splits)

lemma set_headers_Inr:
  assumes "set_headers lib hs h = (Inr u, h')" "hs \<noteq> []"
  shows "ch_lists h' = (ch_lists (slist_free_all (ch_headers h) h))(ch_next h := Some hs) \<and> ch_next h' = Suc (ch_next h) \<and>
    ch_headers h' = Some (ch_next h) \<and> ch_options h' = (ch_options h)(CURLOPT_HTTPHEADER := Some (Slist (ch_next h)))"
proof -
  let ?h = "(slist_free_all (ch_headers h) h)\<lparr>ch_headers := None\<rparr>"
  have "setopt lib CURLOPT_HTTPHEADER (Slist (ch_next h)) (fold slist_append hs ?h) = (Inr u, h')"
    using assms(1) slist_appends_new [of ?h hs] assms(2) by (simp add: set_headers_def)
  then show ?thesis using setopt_Inr slist_appends_new [of ?h hs] assms(2) by fastforce
qed

lemma set_headers_none: "set_headers lib [] h = (Inr (), (slist_free_all (ch_headers h) h)\<lparr>ch_headers := None\<rparr>)"
  by (simp add: set_headers_def)

lemma set_requestE:
  assumes "set_request lib req h = (Inr u, h')"
  obtains h2 where "set_headers lib (snd req) (h\<lparr>ch_options := (ch_options h)(CURLOPT_URL := Some (Str (fst req)))\<rparr>) = (Inr (), h2)"
    "setopts lib request_options h2 = (Inr u, h')"
proof -
  obtain h1 h2 where h1: "setopt lib CURLOPT_URL (Str (fst req)) h = (Inr (), h1)"
    and "set_headers lib (snd req) h1 = (Inr (), h2)" "setopts lib request_options h2 = (Inr u, h')"
    using assms by (auto simp: set_request_def set_url_def simp del: setopts.simps split: prod.splits sum.splits)
  then show thesis using that setopt_Inr [OF h1] by simp
qed

lemma set_request_Inr:
  assumes "set_request lib (url, hs) h = (Inr u, h')" "handle_ok h" "hs \<noteq> []"
  shows "handle_ok h' \<and> ch_options h' CURLOPT_URL = Some (Str url) \<and> sent_headers h' = Some hs \<and>
    (\<forall>(opt, v)\<in>set request_options. ch_options h' opt = Some v)"
proof -
  let ?h1 = "h\<lparr>ch_options := (ch_options h)(CURLOPT_URL := Some (Str url))\<rparr>"
  obtain h2 where h2: "set_headers lib hs ?h1 = (Inr (), h2)" and h': "setopts lib request_options h2 = (Inr u, h')"
    using assms(1) by (rule set_requestE) simp
  have e2: "ch_lists h2 = (ch_lists (slist_free_all (ch_headers h) ?h1))(ch_next h := Some hs)"
    "ch_headers h2 = Some (ch_next h)" "ch_next h2 = Suc (ch_next h)"
    "ch_options h2 = (ch_options ?h1)(CURLOPT_HTTPHEADER := Some (Slist (ch_next h)))"
    using set_headers_Inr [OF h2 assms(3)] by simp_all
  have f: "ch_lists (slist_free_all (ch_headers h) ?h1) a = None" for a
  proof -
    have "ch_lists h a \<noteq> None \<longleftrightarrow> ch_headers h = Some a" using assms(2) by (simp add: handle_ok_def)
    then show ?thesis by (cases "ch_headers h") (auto simp: slist_free_all_def)
  qed
  have k: "ch_lists h' = ch_lists h2" "ch_headers h' = ch_headers h2" "ch_next h' = ch_next h2"
    "ch_options h' CURLOPT_URL = ch_options h2 CURLOPT_URL"
    "ch_options h' CURLOPT_HTTPHEADER = ch_options h2 CURLOPT_HTTPHEADER"
    using setopts_Inr [OF h'] by (simp_all add: request_options_def)
  have "handle_ok h'" using f by (auto simp: handle_ok_def k e2)
  moreover have "ch_options h' opt = Some v" if "(opt, v) \<in> set request_options" for opt v
    using setopts_last [OF h' _ that] by (simp add: request_options_def)
  ultimately show ?thesis by (auto simp: k e2 sent_headers_def)
qed

lemma set_requests_ok:
  assumes "set_requests lib reqs h = (Inr u, h')" "handle_ok h" "list_all (\<lambda>(url, hs). hs \<noteq> []) reqs" "reqs \<noteq> []"
  shows "handle_ok h' \<and> ch_options h' CURLOPT_URL = Some (Str (fst (last reqs))) \<and>
    sent_headers h' = Some (snd (last reqs)) \<and> (\<forall>(opt, v)\<in>set request_options. ch_options h' opt = Some v)"
  using assms
proof (induction reqs arbitrary: h)
  case (Cons req reqs)
  obtain url hs where req: "req = (url, hs)" by (cases req)
  then obtain h1 where h1: "set_request lib (url, hs) h = (Inr (), h1)" "set_requests lib reqs h1 = (Inr u, h')"
    using Cons.prems(1) by (auto split: prod.splits sum.splits)
  note ok = set_request_Inr [OF h1(1) Cons.prems(2)]
  show ?case
  proof (cases "reqs = []")
    case True
    then show ?thesis using h1(2) ok Cons.prems(3) by (simp add: req)
  next
    case False
    then show ?thesis using Cons.IH [OF h1(2)] ok Cons.prems(3) by (simp add: req)
  qed
qed simp

lemma new_handle_ok: "new_handle lib init_ok = (Inr u, h) \<Longrightarrow> handle_ok h"
  unfolding new_handle_def set_defaults_once_def
  by (auto simp: empty_handle_def handle_ok_def simp del: setopts.simps dest!: setopts_Inr split: if_splits)

section \<open>Properties\<close>

text \<open>C30: Whatever requests a client has made before, the transfer of a request sees exactly its url and its
  headers, as a GET without a body, provided that every request has a header: so the client of the cache, which hands the url
  and the headers straight to the transfer, describes the handle.  Exactly one list of headers is
  allocated then, and none when the client is destroyed.\<close>

theorem transfer_sees_last_request:
  assumes "new_handle lib True = (Inr (), h0)" "set_requests lib (reqs @ [(url, hs)]) h0 = (Inr (), h)"
    and "list_all (\<lambda>(url, hs). hs \<noteq> []) (reqs @ [(url, hs)])"
  shows "perform env h w = Some (env_perform env url hs w) \<and> ch_options h CURLOPT_HTTPGET = Some (Long 1) \<and>
    ch_options h CURLOPT_POST = Some (Long 0) \<and> ch_options h CURLOPT_CUSTOMREQUEST = Some Null \<and>
    (\<exists>a. \<forall>b. ch_lists h b = (if b = a then Some hs else None)) \<and> (\<forall>b. ch_lists (destroy_handle h) b = None)"
proof -
  have ok: "handle_ok h" "ch_options h CURLOPT_URL = Some (Str url)" "sent_headers h = Some hs"
    and opts: "\<forall>(opt, v)\<in>set request_options. ch_options h opt = Some v"
    using set_requests_ok [OF assms(2) new_handle_ok [OF assms(1)] assms(3)] by simp_all
  have "hs \<noteq> []" using assms(3) by simp
  then obtain a where a: "ch_lists h a = Some hs" "ch_headers h = Some a"
    using ok(1,3) by (auto simp: sent_headers_def handle_ok_def split: option.splits option_value.splits)
  then have l: "ch_lists h b = (if b = a then Some hs else None)" for b
    using ok(1) by (auto simp: handle_ok_def)
  have "ch_lists (destroy_handle h) b = None" for b using a l by (simp add: destroy_handle_def slist_free_all_def)
  then show ?thesis using ok(2,3) opts l
    by (simp add: perform_def request_options_def HTTP_GET_def POST_def) blast
qed

text \<open>If libcurl accepts every option, no call throws.\<close>

lemma accepting_libcurl:
  defines "lib \<equiv> \<lambda>opt v. None"
  shows "fst (setopts lib ovs h) = Inr ()" "fst (set_headers lib hs h) = Inr ()" "fst (set_requests lib reqs h) = Inr ()"
proof -
  have o: "setopt lib opt v h = (Inr (), h\<lparr>ch_options := (ch_options h)(opt := Some v)\<rparr>)" for opt v h
    by (simp add: setopt_def lib_def)
  show s: "fst (setopts lib ovs h) = Inr ()" for ovs h by (induction ovs arbitrary: h) (auto simp: o)
  show hs: "fst (set_headers lib hs h) = Inr ()" for hs h by (simp add: set_headers_def o Let_def split: option.split)
  have "fst (set_request lib req h) = Inr ()" for req h
    using hs [of "snd req"] s [of request_options]
    by (auto simp: set_request_def set_url_def o simp del: setopts.simps split: prod.split sum.split) (metis fst_conv sum.distinct(1))+
  then show "fst (set_requests lib reqs h) = Inr ()"
    by (induction reqs arbitrary: h) (auto split: prod.splits sum.splits, metis fst_conv sum.distinct(1))
qed

theorem transfer_sees_last_request_witness:
  "\<exists>h. set_requests (\<lambda>opt v. None) [(''http://a'', [''X: 1'', ''Y: 2'']), (''http://b'', [''X: 3''])]
       (snd (new_handle (\<lambda>opt v. None) True)) = (Inr (), h) \<and>
     (\<forall>env w. perform (env :: nat environment) h w = Some (env_perform env ''http://b'' [''X: 3''] w))"
proof -
  let ?lib = "\<lambda>(opt::curl_option) (v::option_value). None :: string option"
  have h0: "new_handle ?lib True = (Inr (), snd (new_handle ?lib True))"
    using accepting_libcurl(1) by (simp add: new_handle_def set_defaults_once_def prod_eq_iff del: setopts.simps)
  obtain h where h: "set_requests ?lib ([(''http://a'', [''X: 1'', ''Y: 2''])] @ [(''http://b'', [''X: 3''])])
      (snd (new_handle ?lib True)) = (Inr (), h)"
    using accepting_libcurl(3) by (metis prod.collapse)
  have "perform env h w = Some (env_perform env ''http://b'' [''X: 3''] w)" for env :: "nat environment" and w
    using transfer_sees_last_request [OF h0 h, of env w] by simp
  then show ?thesis using h unfolding append_Cons append_Nil by blast
qed

text \<open>
  A request without headers after one with headers leaves the freed list in the handle: the client frees
  the list and tells libcurl of a new one only if there is a header.
\<close>

lemma freed_headers_are_read:
  assumes "handle_ok h" "ch_headers h = Some a" "ch_options h CURLOPT_HTTPHEADER = Some (Slist a)"
    and "set_request lib (url, []) h = (Inr u, h')"
  shows "perform env h' w = None"
proof -
  let ?h1 = "h\<lparr>ch_options := (ch_options h)(CURLOPT_URL := Some (Str url))\<rparr>"
  have "setopts lib request_options ((slist_free_all (ch_headers h) ?h1)\<lparr>ch_headers := None\<rparr>) = (Inr u, h')"
    using assms(4) by (rule set_requestE) (simp add: set_headers_none)
  then have "sent_headers h' = None"
    using setopts_Inr assms(2,3) by (fastforce simp: sent_headers_def slist_free_all_def request_options_def)
  then show ?thesis by (simp add: perform_def split: option.splits option_value.splits)
qed

end
