(* ===== verification/Stock_Api.thy ===== *)
theory Stock_Api
  imports Http_Client Models
begin

text \<open>
  \<^verbatim>\<open>http/api/stock_api.cpp\<close> and \<^verbatim>\<open>http/provider/polygon.cpp\<close>: building the request for the bars of a
  symbol, sending it, and reading the bars from the answer.

  The JSON library is not part of the repository.  What the provider uses of it is a record of
  accessors over a type \<open>'j\<close> of JSON values, each of which gives a value or the message of the
  exception it throws.
\<close>

section \<open>Structures\<close>

record aggregate_bars_args =
  args_timespan :: int
  args_symbol :: string
  args_from :: string
  args_to :: string
  args_timespan_unit :: string

record aggregate_bars =
  adjusted :: bool
  query_count :: "64 word"
  result_count :: "64 word"
  ticker :: string
  results :: "bar list"

record 'j json_api =
  json_iterate :: "string \<Rightarrow> string + 'j"
  json_field :: "'j \<Rightarrow> string \<Rightarrow> string + 'j"
  json_array :: "'j \<Rightarrow> string + 'j list"
  json_string :: "'j \<Rightarrow> string + string"
  json_bool :: "'j \<Rightarrow> string + bool"
  json_int64 :: "'j \<Rightarrow> string + int64"
  json_int :: "'j \<Rightarrow> string + int"
  json_double :: "'j \<Rightarrow> string + f64"

record http_error =
  err_status :: int
  err_url :: string
  err_body_preview :: string
  err_what :: string

text \<open>What a request for bars can throw: the error type of the API, or what the client throws.\<close>

datatype api_error = Http_error http_error | Client_error exn

definition ERROR_MESSAGE_LENGTH :: nat where "ERROR_MESSAGE_LENGTH = 512"
definition OK :: int where "OK = 200"
definition HTTP_SUCCESS_UPPER_BOUNDARY :: int where "HTTP_SUCCESS_UPPER_BOUNDARY = 300"

definition error_of_response :: "response \<Rightarrow> string \<Rightarrow> http_error" where
  "error_of_response resp msg =
     \<lparr>err_status = status resp, err_url = effective_url resp,
      err_body_preview = take ERROR_MESSAGE_LENGTH (body resp), err_what = msg\<rparr>"

section \<open>Polygon\<close>

definition BASE_URL :: string where "BASE_URL = ''https://api.polygon.io''"

definition build_custom_aggregate_bars :: "string \<Rightarrow> aggregate_bars_args \<Rightarrow> request" where
  "build_custom_aggregate_bars api_key a =
     \<lparr>req_url = BASE_URL @ ''/v2/aggs/ticker/'' @ args_symbol a @ ''/range/'' @ show_int (args_timespan a) @ ''/'' @
        args_timespan_unit a @ ''/'' @ args_from a @ ''/'' @ args_to a,
      req_method = ''GET'', req_body = [],
      req_headers = [''Authorization: Bearer '' @ api_key, ''Accept: application/json'']\<rparr>"

text \<open>Reading a member with one of the accessors; the first failure ends the reading.\<close>

definition bindE :: "string + 'a \<Rightarrow> ('a \<Rightarrow> string + 'b) \<Rightarrow> string + 'b" where
  "bindE x f = (case x of Inl e \<Rightarrow> Inl e | Inr a \<Rightarrow> f a)"

definition member_as :: "'j json_api \<Rightarrow> ('j \<Rightarrow> string + 'a) \<Rightarrow> 'j \<Rightarrow> string \<Rightarrow> string + 'a" where
  "member_as api conv j key = bindE (json_field api j key) conv"

definition parse_bar :: "'j json_api \<Rightarrow> 'j \<Rightarrow> string + bar" where
  "parse_bar api result =
     bindE (member_as api (json_double api) result ''v'') (\<lambda>v.
     bindE (member_as api (json_double api) result ''vw'') (\<lambda>vw.
     bindE (member_as api (json_double api) result ''o'') (\<lambda>op.
     bindE (member_as api (json_double api) result ''c'') (\<lambda>cl.
     bindE (member_as api (json_double api) result ''h'') (\<lambda>hi.
     bindE (member_as api (json_double api) result ''l'') (\<lambda>lo.
     bindE (member_as api (json_int64 api) result ''t'') (\<lambda>t.
     bindE (member_as api (json_int api) result ''n'') (\<lambda>n.
     bindE (member_as api (json_string api) result ''ticker'') (\<lambda>tick.
     bindE (case json_field api result ''otc'' of Inl e \<Rightarrow> Inr False | Inr j \<Rightarrow> json_bool api j) (\<lambda>otc.
       Inr \<lparr>bar_symbol = tick, bar_is_otc = otc, bar_tx_count = n, bar_volume = v,
            bar_volume_weighted_price = vw, bar_open = op, bar_close = cl, bar_high = hi, bar_low = lo,
            bar_unix_ts_ns = t * int64_of_int NANOSECONDS_PER_MILLISECOND\<rparr>))))))))))"

fun parse_bars :: "'j json_api \<Rightarrow> 'j list \<Rightarrow> string + bar list" where
  "parse_bars api [] = Inr []"
| "parse_bars api (r # rs) = bindE (parse_bar api r) (\<lambda>b. bindE (parse_bars api rs) (\<lambda>bs. Inr (b # bs)))"

definition parse_document :: "'j json_api \<Rightarrow> string \<Rightarrow> string + aggregate_bars" where
  "parse_document api text =
     bindE (json_iterate api text) (\<lambda>doc.
     bindE (member_as api (json_string api) doc ''ticker'') (\<lambda>tick.
     bindE (member_as api (json_bool api) doc ''adjusted'') (\<lambda>adj.
     bindE (member_as api (json_int64 api) doc ''queryCount'') (\<lambda>q.
     bindE (member_as api (json_int64 api) doc ''resultsCount'') (\<lambda>n.
     bindE (member_as api (json_array api) doc ''results'') (\<lambda>rs.
     bindE (parse_bars api rs) (\<lambda>bs.
       Inr \<lparr>adjusted = adj, query_count = word_of_int64 q, result_count = word_of_int64 n, ticker = tick,
            results = bs\<rparr>)))))))"

definition parse_custom_aggregate_bars :: "'j json_api \<Rightarrow> response \<Rightarrow> api_error + aggregate_bars" where
  "parse_custom_aggregate_bars api resp =
     (case parse_document api (body resp) of
        Inl what \<Rightarrow> Inl (Http_error (error_of_response resp (''Failed to parse JSON response: '' @ what)))
      | Inr bars \<Rightarrow> Inr bars)"

section \<open>The API\<close>

definition custom_aggregate_bars ::
  "'j json_api \<Rightarrow> string \<Rightarrow> 'w environment \<Rightarrow> (string \<Rightarrow> nat) \<Rightarrow> cache_policy \<Rightarrow> aggregate_bars_args \<Rightarrow> 'w client \<Rightarrow>
   'w client \<times> (api_error + aggregate_bars)" where
  "custom_aggregate_bars api api_key env hash policy args s =
     (let req = build_custom_aggregate_bars api_key args in
      case get_with_retries env hash policy default_retry_policy req s of
        (s1, Inl x) \<Rightarrow> (s1, Inl (Client_error x))
      | (s1, Inr resp) \<Rightarrow>
          if status resp < OK \<or> HTTP_SUCCESS_UPPER_BOUNDARY \<le> status resp
          then (s1, Inl (Http_error (error_of_response resp
                  (''HTTP request failed with status '' @ show_int (status resp)))))
          else (s1, parse_custom_aggregate_bars api resp))"

lemma bindE_eq_Inr: "bindE x f = Inr b \<longleftrightarrow> (\<exists>a. x = Inr a \<and> f a = Inr b)"
  by (cases x) (simp_all add: bindE_def)

lemma parse_bars_length: "parse_bars api rs = Inr bs \<Longrightarrow> length bs = length rs"
  by (induction rs arbitrary: bs) (auto simp: bindE_eq_Inr)

lemma parse_bars_nth:
  "parse_bars api rs = Inr bs \<Longrightarrow> i < length rs \<Longrightarrow> parse_bar api (rs ! i) = Inr (bs ! i)"
proof (induction rs arbitrary: bs i)
  case (Cons r rs)
  then show ?case by (cases i) (auto simp: bindE_eq_Inr)
qed simp

lemma parse_bar_fields:
  "parse_bar api j = Inr b \<Longrightarrow> \<exists>t. member_as api (json_int64 api) j ''t'' = Inr t \<and>
     bar_unix_ts_ns b = t * int64_of_int 1000000 \<and> member_as api (json_string api) j ''ticker'' = Inr (bar_symbol b)"
  by (auto simp: parse_bar_def bindE_eq_Inr NANOSECONDS_PER_MILLISECOND_def)

text \<open>A status outside of 200 to 299 never gives bars.\<close>

lemma custom_aggregate_bars_success:
  assumes "custom_aggregate_bars api api_key env hash policy args s = (s', Inr bars)"
  obtains resp where "get_with_retries env hash policy default_retry_policy (build_custom_aggregate_bars api_key args) s = (s', Inr resp)"
    "200 \<le> status resp" "status resp < 300" "parse_document api (body resp) = Inr bars"
  using assms
  by (auto simp: custom_aggregate_bars_def Let_def OK_def HTTP_SUCCESS_UPPER_BOUNDARY_def parse_custom_aggregate_bars_def
      split: prod.splits sum.splits if_splits)

end
