(* ===== verification/Manifest.thy ===== *)
theory Manifest
  imports Stock_Api
begin

text \<open>
  \<^verbatim>\<open>plugins/manifest\<close>: reading the manifest of a plugin and handing its parameters to the plugin as
  options.

  The JSON library is the record of accessors of \<open>Stock_Api\<close> with two more: reading a value as an
  object and printing a value.  Options are the strings the code stores; that they stay where the
  returned pointers point to is not modelled.
\<close>

section \<open>Parser options\<close>

record 'a parser_options =
  is_required :: bool
  allowed_values :: "'a list"
  fallback_value :: 'a
  error_message :: string

text \<open>\<^verbatim>\<open>is_required_\<close> and \<^verbatim>\<open>fallback_value_\<close> are not looked at.\<close>

definition parse_value :: "string + 'a \<Rightarrow> 'a parser_options \<Rightarrow> 'a result" where
  "parse_value r options =
     (case r of
        Inl e \<Rightarrow> Inl (Runtime_error (error_message options))
      | Inr value \<Rightarrow>
          if allowed_values options = [] then Inr value
          else if \<not> list_ex (\<lambda>allowed_value. allowed_value = value) (allowed_values options)
          then Inl (Runtime_error (error_message options))
          else Inr value)"

definition NAME_PARSER_OPTIONS :: "string parser_options" where
  "NAME_PARSER_OPTIONS = \<lparr>is_required = True, allowed_values = [], fallback_value = '''',
     error_message = ''Invalid name''\<rparr>"

definition KIND_PARSER_OPTIONS :: "string parser_options" where
  "KIND_PARSER_OPTIONS = \<lparr>is_required = True, allowed_values = [''python'', ''native''], fallback_value = '''',
     error_message = ''Invalid kind''\<rparr>"

definition ENTRY_PARSER_OPTIONS :: "string parser_options" where
  "ENTRY_PARSER_OPTIONS = \<lparr>is_required = True, allowed_values = [], fallback_value = '''',
     error_message = ''Invalid entry''\<rparr>"

definition DESCRIPTION_PARSER_OPTIONS :: "string parser_options" where
  "DESCRIPTION_PARSER_OPTIONS = \<lparr>is_required = False, allowed_values = [], fallback_value = '''',
     error_message = ''Invalid description''\<rparr>"

definition AUTHOR_PARSER_OPTIONS :: "string parser_options" where
  "AUTHOR_PARSER_OPTIONS = \<lparr>is_required = False, allowed_values = [], fallback_value = '''',
     error_message = ''Invalid author''\<rparr>"

definition API_VERSION_PARSER_OPTIONS :: "int64 parser_options" where
  "API_VERSION_PARSER_OPTIONS = \<lparr>is_required = True, allowed_values = [1], fallback_value = 0,
     error_message = ''Invalid api version''\<rparr>"

definition VERSION_PARSER_OPTIONS :: "string parser_options" where
  "VERSION_PARSER_OPTIONS = \<lparr>is_required = True, allowed_values = [], fallback_value = '''',
     error_message = ''Invalid version''\<rparr>"

definition STRATEGY_PARAMS_PARSER_OPTIONS :: "string parser_options" where
  "STRATEGY_PARAMS_PARSER_OPTIONS = \<lparr>is_required = True, allowed_values = [], fallback_value = '''',
     error_message = ''Invalid strategy params''\<rparr>"

definition PRIMARY_PARSER_OPTIONS :: "bool parser_options" where
  "PRIMARY_PARSER_OPTIONS = \<lparr>is_required = True, allowed_values = [True, False], fallback_value = False,
     error_message = ''Invalid primary''\<rparr>"

definition TIMESPAN_PARSER_OPTIONS :: "int64 parser_options" where
  "TIMESPAN_PARSER_OPTIONS = \<lparr>is_required = True, allowed_values = [], fallback_value = 0,
     error_message = ''Invalid timespan''\<rparr>"

definition SYMBOL_PARSER_OPTIONS :: "string parser_options" where
  "SYMBOL_PARSER_OPTIONS = \<lparr>is_required = True, allowed_values = [], fallback_value = '''',
     error_message = ''Invalid symbol''\<rparr>"

definition TIMESPAN_UNIT_PARSER_OPTIONS :: "string parser_options" where
  "TIMESPAN_UNIT_PARSER_OPTIONS = \<lparr>is_required = True, allowed_values = [''second'', ''minute'', ''hour'', ''day'', ''week'', ''month'', ''year''], fallback_value = '''',
     error_message = ''Invalid timespan unit''\<rparr>"

definition MARKET_HOURS_ONLY_PARSER_OPTIONS :: "bool parser_options" where
  "MARKET_HOURS_ONLY_PARSER_OPTIONS = \<lparr>is_required = True, allowed_values = [True, False], fallback_value = False,
     error_message = ''Invalid market hours only''\<rparr>"

definition ALLOW_FRACTIONAL_SHARES_PARSER_OPTIONS :: "bool parser_options" where
  "ALLOW_FRACTIONAL_SHARES_PARSER_OPTIONS = \<lparr>is_required = True, allowed_values = [True, False], fallback_value = False,
     error_message = ''Invalid allow fractional shares''\<rparr>"

definition MONTE_CARLO_RUNS_PARSER_OPTIONS :: "int64 parser_options" where
  "MONTE_CARLO_RUNS_PARSER_OPTIONS = \<lparr>is_required = True, allowed_values = [], fallback_value = 0,
     error_message = ''Invalid monte carlo runs''\<rparr>"

definition MONTE_CARLO_SEED_PARSER_OPTIONS :: "int64 parser_options" where
  "MONTE_CARLO_SEED_PARSER_OPTIONS = \<lparr>is_required = True, allowed_values = [], fallback_value = 0,
     error_message = ''Invalid monte carlo seed''\<rparr>"

definition LEVERAGE_PARSER_OPTIONS :: "int64 parser_options" where
  "LEVERAGE_PARSER_OPTIONS = \<lparr>is_required = True, allowed_values = [], fallback_value = 0,
     error_message = ''Invalid leverage''\<rparr>"

definition COMMISSION_PARSER_OPTIONS :: "f64 parser_options" where
  "COMMISSION_PARSER_OPTIONS = \<lparr>is_required = True, allowed_values = [], fallback_value = 0,
     error_message = ''Invalid commission''\<rparr>"

definition COMMISSION_TYPE_PARSER_OPTIONS :: "string parser_options" where
  "COMMISSION_TYPE_PARSER_OPTIONS = \<lparr>is_required = True, allowed_values = [''per_share'', ''percentage'', ''flat''], fallback_value = '''',
     error_message = ''Invalid commission type''\<rparr>"

definition SLIPPAGE_PARSER_OPTIONS :: "f64 parser_options" where
  "SLIPPAGE_PARSER_OPTIONS = \<lparr>is_required = True, allowed_values = [], fallback_value = 0,
     error_message = ''Invalid slippage''\<rparr>"

definition SLIPPAGE_MODEL_PARSER_OPTIONS :: "string parser_options" where
  "SLIPPAGE_MODEL_PARSER_OPTIONS = \<lparr>is_required = True, allowed_values = [''none'', ''time_based'', ''time_volume_based''], fallback_value = '''',
     error_message = ''Invalid slippage model''\<rparr>"

definition DEFAULT_CURRENCY_PARSER_OPTIONS :: "string parser_options" where
  "DEFAULT_CURRENCY_PARSER_OPTIONS = \<lparr>is_required = True, allowed_values = [''USD''], fallback_value = '''',
     error_message = ''Invalid currency''\<rparr>"

definition TIMEZONE_PARSER_OPTIONS :: "string parser_options" where
  "TIMEZONE_PARSER_OPTIONS = \<lparr>is_required = True, allowed_values = [''America/New_York''], fallback_value = '''',
     error_message = ''Invalid timezone''\<rparr>"

definition OPTIMIZATION_MODE_PARSER_OPTIONS :: "string parser_options" where
  "OPTIMIZATION_MODE_PARSER_OPTIONS = \<lparr>is_required = True, allowed_values = [''none'', ''grid_search'', ''bayesian'', ''genetic''], fallback_value = '''',
     error_message = ''Invalid optimization mode''\<rparr>"

definition BACKTEST_START_DATETIME_PARSER_OPTIONS :: "string parser_options" where
  "BACKTEST_START_DATETIME_PARSER_OPTIONS = \<lparr>is_required = True, allowed_values = [], fallback_value = '''',
     error_message = ''Invalid backtest start datetime''\<rparr>"

definition BACKTEST_END_DATETIME_PARSER_OPTIONS :: "string parser_options" where
  "BACKTEST_END_DATETIME_PARSER_OPTIONS = \<lparr>is_required = True, allowed_values = [], fallback_value = '''',
     error_message = ''Invalid backtest end datetime''\<rparr>"

definition INITIAL_CAPITAL_PARSER_OPTIONS :: "string parser_options" where
  "INITIAL_CAPITAL_PARSER_OPTIONS = \<lparr>is_required = True, allowed_values = [], fallback_value = ''0'',
     error_message = ''Invalid initial capital, please provide a valid money string''\<rparr>"

definition POSITION_SIZING_METHOD_PARSER_OPTIONS :: "string parser_options" where
  "POSITION_SIZING_METHOD_PARSER_OPTIONS = \<lparr>is_required = False, allowed_values = [''fixed_percentage'', ''fixed_dollar'', ''equal_weight''], fallback_value = ''fixed_percentage'',
     error_message = ''Invalid position sizing method''\<rparr>"

definition POSITION_SIZE_VALUE_PARSER_OPTIONS :: "f64 parser_options" where
  "POSITION_SIZE_VALUE_PARSER_OPTIONS = \<lparr>is_required = False, allowed_values = [], fallback_value = f64_of_rat (1 / 100),
     error_message = ''Invalid position size value''\<rparr>"

definition MAX_POSITION_SIZE_PARSER_OPTIONS :: "f64 parser_options" where
  "MAX_POSITION_SIZE_PARSER_OPTIONS = \<lparr>is_required = False, allowed_values = [], fallback_value = 0,
     error_message = ''Invalid max position size''\<rparr>"

definition USE_STOP_LOSS_PARSER_OPTIONS :: "bool parser_options" where
  "USE_STOP_LOSS_PARSER_OPTIONS = \<lparr>is_required = False, allowed_values = [True, False], fallback_value = False,
     error_message = ''Invalid use stop loss''\<rparr>"

definition STOP_LOSS_PCT_PARSER_OPTIONS :: "f64 parser_options" where
  "STOP_LOSS_PCT_PARSER_OPTIONS = \<lparr>is_required = False, allowed_values = [], fallback_value = f64_of_rat (1 / 20),
     error_message = ''Invalid stop loss pct''\<rparr>"

definition USE_TAKE_PROFIT_PARSER_OPTIONS :: "bool parser_options" where
  "USE_TAKE_PROFIT_PARSER_OPTIONS = \<lparr>is_required = False, allowed_values = [True, False], fallback_value = False,
     error_message = ''Invalid use take profit''\<rparr>"

definition TAKE_PROFIT_PCT_PARSER_OPTIONS :: "f64 parser_options" where
  "TAKE_PROFIT_PCT_PARSER_OPTIONS = \<lparr>is_required = False, allowed_values = [], fallback_value = f64_of_rat (1 / 20),
     error_message = ''Invalid take profit pct''\<rparr>"

definition FILL_MAX_PCT_OF_VOLUME_PARSER_OPTIONS :: "f64 parser_options" where
  "FILL_MAX_PCT_OF_VOLUME_PARSER_OPTIONS = \<lparr>is_required = False, allowed_values = [], fallback_value = f64_of_rat (1 / 10),
     error_message = ''Invalid fill max pct of volume''\<rparr>"

definition RISK_FREE_RATE_PARSER_OPTIONS :: "f64 parser_options" where
  "RISK_FREE_RATE_PARSER_OPTIONS = \<lparr>is_required = False, allowed_values = [], fallback_value = f64_of_rat (1 / 50),
     error_message = ''Invalid risk free rate''\<rparr>"

definition ALLOW_SHORT_SELLING_PARSER_OPTIONS :: "bool parser_options" where
  "ALLOW_SHORT_SELLING_PARSER_OPTIONS = \<lparr>is_required = False, allowed_values = [True, False], fallback_value = True,
     error_message = ''Invalid allow short selling''\<rparr>"

definition INITIAL_MARGIN_PCT_PARSER_OPTIONS :: "f64 parser_options" where
  "INITIAL_MARGIN_PCT_PARSER_OPTIONS = \<lparr>is_required = False, allowed_values = [], fallback_value = 1,
     error_message = ''Invalid initial margin pct''\<rparr>"

definition MAX_LEVERAGE_PARSER_OPTIONS :: "f64 parser_options" where
  "MAX_LEVERAGE_PARSER_OPTIONS = \<lparr>is_required = False, allowed_values = [], fallback_value = 1,
     error_message = ''Invalid max leverage''\<rparr>"

section \<open>The manifest\<close>

record plugin_manifest =
  pm_api_version :: int
  pm_name :: string
  pm_kind :: string
  pm_entry :: string
  pm_description :: "string option"
  pm_author :: "string option"
  pm_version :: string
  pm_host_params :: host_params
  pm_strategy_params :: string

definition is_python :: "plugin_manifest \<Rightarrow> bool" where
  "is_python m \<longleftrightarrow> pm_kind m = ''python''"

definition is_native :: "plugin_manifest \<Rightarrow> bool" where
  "is_native m \<longleftrightarrow> pm_kind m = ''native''"

definition is_one_of :: "string list \<Rightarrow> plugin_manifest \<Rightarrow> bool" where
  "is_one_of plugin_names m \<longleftrightarrow> list_ex (\<lambda>plugin_name. plugin_name = pm_name m) plugin_names"

record 'j manifest_json =
  mj_api :: "'j json_api"
  mj_object :: "'j \<Rightarrow> string + 'j"
  mj_text :: "'j \<Rightarrow> string + string"

text \<open>\<^verbatim>\<open>int(x)\<close> of a 64-bit integer keeps the low 32 bits.\<close>

definition to_int32 :: "int64 \<Rightarrow> int" where
  "to_int32 x = sint (ucast (word_of_int64 x) :: 32 word)"

definition host_param :: "'j manifest_json \<Rightarrow> 'j \<Rightarrow> ('j \<Rightarrow> string + 'a) \<Rightarrow> string \<Rightarrow> 'a parser_options \<Rightarrow> 'a result" where
  "host_param api doc conv key options =
     parse_value (bindE (json_field (mj_api api) doc ''host_params'') (\<lambda>hp. member_as (mj_api api) conv hp key)) options"

definition parse_symbol :: "'j manifest_json \<Rightarrow> 'j \<Rightarrow> host_symbol result" where
  "parse_symbol api raw_symbol =
     (case mj_object api raw_symbol of
        Inl e \<Rightarrow> Inl (Runtime_error ''Invalid symbol object'')
      | Inr obj \<Rightarrow>
          bindR (parse_value (member_as (mj_api api) (json_bool (mj_api api)) obj ''primary'') PRIMARY_PARSER_OPTIONS) (\<lambda>primary.
          bindR (parse_value (member_as (mj_api api) (json_int64 (mj_api api)) obj ''timespan'') TIMESPAN_PARSER_OPTIONS) (\<lambda>timespan.
          bindR (parse_value (member_as (mj_api api) (json_string (mj_api api)) obj ''symbol'') SYMBOL_PARSER_OPTIONS) (\<lambda>symbol.
          bindR (parse_value (member_as (mj_api api) (json_string (mj_api api)) obj ''timespan_unit'') TIMESPAN_UNIT_PARSER_OPTIONS) (\<lambda>unit.
            Inr \<lparr>sym_primary = primary, sym_timespan = to_int32 timespan, sym_symbol = symbol,
                 sym_timespan_unit = unit\<rparr>)))))"

fun parse_symbols :: "'j manifest_json \<Rightarrow> 'j list \<Rightarrow> host_symbol list result" where
  "parse_symbols api [] = Inr []"
| "parse_symbols api (r # rs) = bindR (parse_symbol api r) (\<lambda>s. bindR (parse_symbols api rs) (\<lambda>ss. Inr (s # ss)))"

definition parse_host_params :: "'j manifest_json \<Rightarrow> 'j \<Rightarrow> host_symbol list \<Rightarrow> host_params result" where
  "parse_host_params api doc parsed_symbols =
     (let str = json_string (mj_api api); dbl = json_double (mj_api api); boo = json_bool (mj_api api);
          i64 = json_int64 (mj_api api) in
      bindR (host_param api doc boo ''market_hours_only'' MARKET_HOURS_ONLY_PARSER_OPTIONS) (\<lambda>market_hours_only.
      bindR (host_param api doc boo ''allow_fractional_shares'' ALLOW_FRACTIONAL_SHARES_PARSER_OPTIONS) (\<lambda>allow_fractional_shares.
      bindR (host_param api doc i64 ''monte_carlo_runs'' MONTE_CARLO_RUNS_PARSER_OPTIONS) (\<lambda>monte_carlo_runs.
      bindR (host_param api doc i64 ''monte_carlo_seed'' MONTE_CARLO_SEED_PARSER_OPTIONS) (\<lambda>monte_carlo_seed.
      bindR (host_param api doc str ''initial_capital'' INITIAL_CAPITAL_PARSER_OPTIONS) (\<lambda>initial_capital.
      bindR (parse_microdollars initial_capital) (\<lambda>capital.
      bindR (host_param api doc str ''backtest_start_datetime'' BACKTEST_START_DATETIME_PARSER_OPTIONS) (\<lambda>start.
      bindR (host_param api doc str ''backtest_end_datetime'' BACKTEST_END_DATETIME_PARSER_OPTIONS) (\<lambda>end_datetime.
      bindR (host_param api doc dbl ''commission'' COMMISSION_PARSER_OPTIONS) (\<lambda>commission.
      bindR (host_param api doc str ''commission_type'' COMMISSION_TYPE_PARSER_OPTIONS) (\<lambda>commission_type.
      bindR (host_param api doc dbl ''slippage'' SLIPPAGE_PARSER_OPTIONS) (\<lambda>slippage.
      bindR (host_param api doc str ''slippage_model'' SLIPPAGE_MODEL_PARSER_OPTIONS) (\<lambda>slippage_model.
      bindR (host_param api doc str ''default_currency'' DEFAULT_CURRENCY_PARSER_OPTIONS) (\<lambda>default_currency.
      bindR (host_param api doc str ''timezone'' TIMEZONE_PARSER_OPTIONS) (\<lambda>timezone.
      bindR (host_param api doc str ''optimization_mode'' OPTIMIZATION_MODE_PARSER_OPTIONS) (\<lambda>optimization_mode.
      bindR (host_param api doc str ''position_sizing_method'' POSITION_SIZING_METHOD_PARSER_OPTIONS) (\<lambda>position_sizing_method.
      bindR (host_param api doc dbl ''position_size_value'' POSITION_SIZE_VALUE_PARSER_OPTIONS) (\<lambda>position_size_value.
      bindR (host_param api doc dbl ''max_position_size'' MAX_POSITION_SIZE_PARSER_OPTIONS) (\<lambda>max_position_size.
      bindR (host_param api doc boo ''use_stop_loss'' USE_STOP_LOSS_PARSER_OPTIONS) (\<lambda>use_stop_loss.
      bindR (host_param api doc dbl ''stop_loss_pct'' STOP_LOSS_PCT_PARSER_OPTIONS) (\<lambda>stop_loss_pct.
      bindR (host_param api doc boo ''use_take_profit'' USE_TAKE_PROFIT_PARSER_OPTIONS) (\<lambda>use_take_profit.
      bindR (host_param api doc dbl ''take_profit_pct'' TAKE_PROFIT_PCT_PARSER_OPTIONS) (\<lambda>take_profit_pct.
      bindR (host_param api doc dbl ''fill_max_pct_of_volume'' FILL_MAX_PCT_OF_VOLUME_PARSER_OPTIONS) (\<lambda>fill_max_pct_of_volume.
      bindR (host_param api doc dbl ''risk_free_rate'' RISK_FREE_RATE_PARSER_OPTIONS) (\<lambda>risk_free_rate.
      bindR (host_param api doc boo ''allow_short_selling'' ALLOW_SHORT_SELLING_PARSER_OPTIONS) (\<lambda>allow_short_selling.
      bindR (host_param api doc dbl ''initial_margin_pct'' INITIAL_MARGIN_PCT_PARSER_OPTIONS) (\<lambda>initial_margin_pct.
      bindR (host_param api doc dbl ''max_leverage'' MAX_LEVERAGE_PARSER_OPTIONS) (\<lambda>max_leverage.
        Inr \<lparr>hp_market_hours_only = Some market_hours_only,
             hp_allow_fractional_shares = Some allow_fractional_shares,
             hp_monte_carlo_runs = to_int32 monte_carlo_runs, hp_monte_carlo_seed = to_int32 monte_carlo_seed,
             hp_commission = Some commission, hp_slippage = Some slippage,
             hp_initial_capital = to_microdollars capital, hp_commission_type = Some commission_type,
             hp_slippage_model = Some slippage_model, hp_default_currency = Some default_currency,
             hp_timezone = Some timezone, hp_optimization_mode = Some optimization_mode,
             hp_backtest_start_datetime = start, hp_backtest_end_datetime = end_datetime,
             hp_symbols = parsed_symbols, hp_position_sizing_method = Some position_sizing_method,
             hp_position_size_value = Some position_size_value, hp_max_position_size = Some max_position_size,
             hp_use_stop_loss = Some use_stop_loss, hp_stop_loss_pct = Some stop_loss_pct,
             hp_use_take_profit = Some use_take_profit, hp_take_profit_pct = Some take_profit_pct,
             hp_fill_max_pct_of_volume = Some fill_max_pct_of_volume, hp_risk_free_rate = Some risk_free_rate,
             hp_allow_short_selling = Some allow_short_selling, hp_initial_margin_pct = Some initial_margin_pct,
             hp_max_leverage = Some max_leverage\<rparr>))))))))))))))))))))))))))))"

definition parse_json :: "'j manifest_json \<Rightarrow> 'j \<Rightarrow> plugin_manifest result" where
  "parse_json api doc =
     (let str = json_string (mj_api api); field = (\<lambda>conv key. member_as (mj_api api) conv doc key) in
      bindR (parse_value (field str ''name'') NAME_PARSER_OPTIONS) (\<lambda>name.
      bindR (parse_value (field str ''kind'') KIND_PARSER_OPTIONS) (\<lambda>kind.
      bindR (parse_value (field str ''entry'') ENTRY_PARSER_OPTIONS) (\<lambda>entry.
      bindR (parse_value (field str ''description'') DESCRIPTION_PARSER_OPTIONS) (\<lambda>description.
      bindR (parse_value (field str ''author'') AUTHOR_PARSER_OPTIONS) (\<lambda>author.
      bindR (parse_value (field str ''version'') VERSION_PARSER_OPTIONS) (\<lambda>version.
      bindR (parse_value (member_as (mj_api api) (json_int64 (mj_api api)) doc ''api_version'') API_VERSION_PARSER_OPTIONS) (\<lambda>api_version.
        case bindE (json_field (mj_api api) doc ''host_params'')
               (\<lambda>hp. member_as (mj_api api) (json_array (mj_api api)) hp ''symbols'') of
          Inl e \<Rightarrow> Inl (Runtime_error ''Invalid symbols'')
        | Inr raw_symbols \<Rightarrow>
            bindR (parse_symbols api raw_symbols) (\<lambda>parsed_symbols.
            bindR (parse_host_params api doc parsed_symbols) (\<lambda>host_params.
              case member_as (mj_api api) (mj_text api) doc ''strategy_params'' of
                Inl e \<Rightarrow> Inl (Runtime_error ''Error converting strategy params to JSON string'')
              | Inr strategy_params \<Rightarrow>
                  Inr \<lparr>pm_api_version = to_int32 api_version, pm_name = name, pm_kind = kind, pm_entry = entry,
                       pm_description = Some description, pm_author = Some author, pm_version = version,
                       pm_host_params = host_params, pm_strategy_params = strategy_params\<rparr>))))))))))"

text \<open>\<open>text_of\<close> gives the text of a regular file, where there is one.\<close>

definition load_from_file :: "'j manifest_json \<Rightarrow> (string \<Rightarrow> string option) \<Rightarrow> string \<Rightarrow> 'j result" where
  "load_from_file api text_of path =
     (case text_of (path @ ''/manifest.json'') of
        None \<Rightarrow> Inl (Runtime_error ''Manifest file not found'')
      | Some manifest_json \<Rightarrow>
          (case json_iterate (mj_api api) manifest_json of
             Inl e \<Rightarrow> Inl (Json_error e)
           | Inr manifest_document \<Rightarrow> Inr manifest_document))"

section \<open>Options\<close>

text \<open>
  \<^verbatim>\<open>std::to_string\<close> of a double prints six digits after the point, rounded from the exact value.
\<close>

definition pad6 :: "string \<Rightarrow> string" where
  "pad6 s = replicate (6 - length s) (CHR ''0'') @ s"

fun show_double :: "f64 \<Rightarrow> string" where
  "show_double NaN = ''nan''"
| "show_double PInf = ''inf''"
| "show_double NInf = ''-inf''"
| "show_double (Fin x) =
     (let n = nat \<bar>rne (x * 1000000)\<bar>
      in (if x < 0 then ''-'' else []) @ show_nat (n div 1000000) @ ''.'' @ pad6 (show_nat (n mod 1000000)))"

definition show_bool :: "bool \<Rightarrow> string" where
  "show_bool b = (if b then ''true'' else ''false'')"

definition add_optional :: "('a \<Rightarrow> string) \<Rightarrow> string \<Rightarrow> 'a option \<Rightarrow> (string \<times> string) list" where
  "add_optional show key opt_value = (case opt_value of None \<Rightarrow> [] | Some v \<Rightarrow> [(key, show v)])"

definition symbol_options :: "nat \<Rightarrow> host_symbol \<Rightarrow> (string \<times> string) list" where
  "symbol_options i hs =
     (let prefix = ''symbol_'' @ show_nat i @ ''_'' in
      [(prefix @ ''symbol'', sym_symbol hs), (prefix @ ''primary'', show_bool (sym_primary hs)),
       (prefix @ ''timespan'', show_int (sym_timespan hs)), (prefix @ ''timespan_unit'', sym_timespan_unit hs)])"

definition get_options :: "plugin_manifest \<Rightarrow> (string \<times> string) list" where
  "get_options m =
     (let hp = pm_host_params m in
      add_optional show_bool ''market_hours_only'' (hp_market_hours_only hp) @
      add_optional show_bool ''allow_fractional_shares'' (hp_allow_fractional_shares hp) @
      [(''monte_carlo_runs'', show_int (hp_monte_carlo_runs hp)),
       (''monte_carlo_seed'', show_int (hp_monte_carlo_seed hp)),
       (''initial_capital'', show_int (int_of_int64 (hp_initial_capital hp))),
       (''backtest_start_datetime'', hp_backtest_start_datetime hp),
       (''backtest_end_datetime'', hp_backtest_end_datetime hp)] @
      add_optional show_double ''commission'' (hp_commission hp) @
      add_optional id ''commission_type'' (hp_commission_type hp) @
      add_optional show_double ''slippage'' (hp_slippage hp) @
      add_optional id ''slippage_model'' (hp_slippage_model hp) @
      add_optional id ''default_currency'' (hp_default_currency hp) @
      add_optional id ''timezone'' (hp_timezone hp) @
      add_optional id ''optimization_mode'' (hp_optimization_mode hp) @
      add_optional show_double ''fill_max_pct_of_volume'' (hp_fill_max_pct_of_volume hp) @
      add_optional show_double ''risk_free_rate'' (hp_risk_free_rate hp) @
      add_optional show_bool ''allow_short_selling'' (hp_allow_short_selling hp) @
      add_optional show_double ''initial_margin_pct'' (hp_initial_margin_pct hp) @
      add_optional show_double ''max_leverage'' (hp_max_leverage hp) @
      add_optional id ''position_sizing_method'' (hp_position_sizing_method hp) @
      add_optional show_double ''position_size_value'' (hp_position_size_value hp) @
      add_optional show_double ''max_position_size'' (hp_max_position_size hp) @
      add_optional show_bool ''use_stop_loss'' (hp_use_stop_loss hp) @
      add_optional show_double ''stop_loss_pct'' (hp_stop_loss_pct hp) @
      add_optional show_bool ''use_take_profit'' (hp_use_take_profit hp) @
      add_optional show_double ''take_profit_pct'' (hp_take_profit_pct hp) @
      concat (map (\<lambda>(i, s). symbol_options i s) (enumerate 0 (hp_symbols hp))) @
      [(''symbol_count'', show_nat (length (hp_symbols hp))), (''strategy_params'', pm_strategy_params m)])"

section \<open>What a parsed manifest satisfies\<close>

lemma parse_value_Inr:
  "parse_value r options = Inr v \<longleftrightarrow> r = Inr v \<and> (allowed_values options = [] \<or> v \<in> set (allowed_values options))"
  by (cases r) (auto simp: parse_value_def list_ex_iff)

lemma host_param_Inr:
  "host_param api doc conv key options = Inr v \<Longrightarrow>
     allowed_values options = [] \<or> v \<in> set (allowed_values options)"
  by (auto simp: host_param_def parse_value_Inr)

end
