(* ===== verification/Native_Loader.thy ===== *)
theory Native_Loader
  imports Manifest Engine
begin

text \<open>
  \<^verbatim>\<open>plugins/loaders/native_loader.cpp\<close>, \<^verbatim>\<open>plugins/loaders/interface.hpp\<close> and \<^verbatim>\<open>plugins/abi/lib_handler.hpp\<close>: loading
  a shared library, asking it for a plugin and calling the plugin through its table of functions.

  The dynamic linker is a parameter, a record of \<^verbatim>\<open>dlopen\<close> and \<^verbatim>\<open>dlsym\<close>; so is the code of the
  plugin, which \<^verbatim>\<open>create_plugin\<close> returns as functions on its state \<open>'p\<close>.  These may throw; \<^verbatim>\<open>create_plugin\<close>,
  an \<^verbatim>\<open>extern "C"\<close> entry point, is taken not to: the loader would leave the library open.  A null pointer is \<open>None\<close>, for
  the instance and for each entry of the table.  The loader keeps a trace of the calls it makes
  into the library, each with whether the instance it passes is not null, and of the libraries it
  closes.
\<close>

section \<open>The plugin table\<close>

record cbar =
  cb_symbol :: string
  cb_unix_ts_ns :: int64
  cb_open :: f64
  cb_high :: f64
  cb_low :: f64
  cb_close :: f64
  cb_volume :: f64

definition to_plugin_bar :: "bar \<Rightarrow> cbar" where
  "to_plugin_bar b =
     \<lparr>cb_symbol = bar_symbol b, cb_unix_ts_ns = bar_unix_ts_ns b, cb_open = bar_open b, cb_high = bar_high b,
      cb_low = bar_low b, cb_close = bar_close b, cb_volume = bar_volume b\<rparr>"

definition to_http_bar :: "cbar \<Rightarrow> bar" where
  "to_http_bar b =
     \<lparr>bar_symbol = cb_symbol b, bar_is_otc = False, bar_tx_count = 0, bar_volume = cb_volume b,
      bar_volume_weighted_price = 0, bar_open = cb_open b, bar_close = cb_close b, bar_high = cb_high b,
      bar_low = cb_low b, bar_unix_ts_ns = cb_unix_ts_ns b\<rparr>"

definition PLUGIN_API_VERSION :: int where "PLUGIN_API_VERSION = 1"

definition PLUGIN_CREATE_SYMBOL :: string where "PLUGIN_CREATE_SYMBOL = ''create_plugin''"

text \<open>
  A function takes the instance, which may be null, and returns the state it leaves behind the
  pointer, \<open>None\<close> where it writes nothing; the pointer itself is the loader's.  The functions that
  give a result may throw instead.
\<close>

record 'p plugin_vtable =
  vt_destroy :: "('p option \<Rightarrow> unit) option"
  vt_on_init :: "('p option \<Rightarrow> (string \<times> string) list \<Rightarrow> plugin_result result \<times> 'p option) option"
  vt_on_start :: "('p option \<Rightarrow> plugin_result result \<times> 'p option) option"
  vt_on_bar :: "('p option \<Rightarrow> cbar \<Rightarrow> cstate \<Rightarrow> plugin_result result \<times> 'p option) option"
  vt_on_end :: "('p option \<Rightarrow> plugin_result result \<times> string option \<times> 'p option) option"
  vt_free_string :: "('p option \<Rightarrow> string option \<Rightarrow> 'p option) option"

record 'p plugin_export =
  exp_api_version :: int
  exp_instance :: "'p option"
  exp_vtable :: "'p plugin_vtable"

definition empty_export :: "'p plugin_export" where
  "empty_export =
     \<lparr>exp_api_version = 0, exp_instance = None,
      exp_vtable = \<lparr>vt_destroy = None, vt_on_init = None, vt_on_start = None, vt_on_bar = None, vt_on_end = None,
        vt_free_string = None\<rparr>\<rparr>"

section \<open>The library\<close>

text \<open>\<^verbatim>\<open>dl_open\<close> gives a handle, \<^verbatim>\<open>dl_sym\<close> the function behind a symbol, or each the text of \<^verbatim>\<open>dlerror\<close>.\<close>

record ('h, 'p) linker =
  dl_open :: "string \<Rightarrow> string + 'h"
  dl_sym :: "'h \<Rightarrow> string \<Rightarrow> string + (int \<Rightarrow> 'p plugin_export)"

datatype 'h effect = Call string bool | Close 'h

record ('h, 'p) native_loader =
  nl_manifest :: plugin_manifest
  nl_export :: "'p plugin_export"
  nl_lib :: "'h option"
  nl_trace :: "'h effect list"

definition new_native_loader :: "plugin_manifest \<Rightarrow> ('h, 'p) native_loader" where
  "new_native_loader m = \<lparr>nl_manifest = m, nl_export = empty_export, nl_lib = None, nl_trace = []\<rparr>"

text \<open>\<^verbatim>\<open>LibHandler\<close> on POSIX systems: the reference \<open>err\<close> is passed in and given back.\<close>

definition lib_open :: "('h, 'p) linker \<Rightarrow> string \<Rightarrow> string \<Rightarrow> 'h option \<times> string" where
  "lib_open dl path err = (case dl_open dl path of Inl text \<Rightarrow> (None, text) | Inr h \<Rightarrow> (Some h, err))"

definition lib_sym :: "('h, 'p) linker \<Rightarrow> 'h \<Rightarrow> string \<Rightarrow> string \<Rightarrow> (int \<Rightarrow> 'p plugin_export) option \<times> string" where
  "lib_sym dl h name err = (case dl_sym dl h name of Inl text \<Rightarrow> (None, text) | Inr p \<Rightarrow> (Some p, err))"

definition lib_close :: "('h, 'p) native_loader \<Rightarrow> ('h, 'p) native_loader" where
  "lib_close l =
     (case nl_lib l of
        None \<Rightarrow> l
      | Some h \<Rightarrow> l\<lparr>nl_lib := None, nl_trace := nl_trace l @ [Close h]\<rparr>)"

section \<open>Loading\<close>

definition load_plugin ::
  "('h, 'p) linker \<Rightarrow> int \<Rightarrow> ('h, 'p) native_loader \<Rightarrow> unit result \<times> ('h, 'p) native_loader" where
  "load_plugin dl ctx l =
     (let (lib, err) = lib_open dl (pm_entry (nl_manifest l)) []; l1 = l\<lparr>nl_lib := lib\<rparr> in
      case lib of
        None \<Rightarrow> (Inl (Runtime_error err), l1)
      | Some h \<Rightarrow>
          case fst (lib_sym dl h PLUGIN_CREATE_SYMBOL err) of
            None \<Rightarrow> (Inl (Runtime_error ''Failed to load plugin''), lib_close l1)
          | Some create \<Rightarrow>
              let l2 = l1\<lparr>nl_export := create ctx\<rparr> in
              if exp_api_version (nl_export l2) \<noteq> PLUGIN_API_VERSION \<or> exp_instance (nl_export l2) = None
              then (Inl (Runtime_error ''API mismatch or null instance''), (lib_close l2)\<lparr>nl_export := empty_export\<rparr>)
              else if vt_destroy (exp_vtable (nl_export l2)) = None \<or> vt_on_end (exp_vtable (nl_export l2)) = None
              then (Inl (Runtime_error ''Required vtable methods missing''), (lib_close l2)\<lparr>nl_export := empty_export\<rparr>)
              else (Inr (), l2))"

lemmas load_defs = load_plugin_def lib_open_def lib_sym_def

section \<open>Calls\<close>

definition get_plugin_name :: "('h, 'p) native_loader \<Rightarrow> string" where
  "get_plugin_name l = pm_name (nl_manifest l)"

definition get_host_params :: "('h, 'p) native_loader \<Rightarrow> host_params" where
  "get_host_params l = pm_host_params (nl_manifest l)"

definition failed :: "string \<Rightarrow> plugin_result result" where
  "failed msg = Inr \<lparr>pr_code = 1, pr_message = Some msg, pr_instructions = []\<rparr>"

definition record_call :: "string \<Rightarrow> ('h, 'p) native_loader \<Rightarrow> ('h, 'p) native_loader" where
  "record_call name l = l\<lparr>nl_trace := nl_trace l @ [Call name (exp_instance (nl_export l) \<noteq> None)]\<rparr>"

definition set_instance :: "'p option \<Rightarrow> ('h, 'p) native_loader \<Rightarrow> ('h, 'p) native_loader" where
  "set_instance inst l = l\<lparr>nl_export := (nl_export l)\<lparr>exp_instance := inst\<rparr>\<rparr>"

definition called :: "string \<Rightarrow> 'p option \<Rightarrow> ('h, 'p) native_loader \<Rightarrow> ('h, 'p) native_loader" where
  "called name self l = set_instance (map_option (value_or self) (exp_instance (nl_export l))) (record_call name l)"

text \<open>The result of \<^verbatim>\<open>on_init\<close> is not looked at.\<close>

definition on_init :: "('h, 'p) native_loader \<Rightarrow> unit result \<times> ('h, 'p) native_loader" where
  "on_init l =
     (if exp_api_version (nl_export l) \<noteq> PLUGIN_API_VERSION then (Inr (), l)
      else case vt_on_init (exp_vtable (nl_export l)) of
             None \<Rightarrow> (Inr (), l)
           | Some f \<Rightarrow> let (answer, self) = f (exp_instance (nl_export l)) (get_options (nl_manifest l))
                       in (bindR answer (\<lambda>_. Inr ()), called ''on_init'' self l))"

definition on_start :: "('h, 'p) native_loader \<Rightarrow> plugin_result result \<times> ('h, 'p) native_loader" where
  "on_start l =
     (if exp_api_version (nl_export l) \<noteq> PLUGIN_API_VERSION then (failed ''Invalid API Version'', l)
      else case vt_on_start (exp_vtable (nl_export l)) of
             None \<Rightarrow> (failed ''Undefined Method on_start'', l)
           | Some f \<Rightarrow> let (r, self) = f (exp_instance (nl_export l)) in (r, called ''on_start'' self l))"

text \<open>
  \<^verbatim>\<open>on_bar\<close> is given the account in the form the converter makes of it; \<open>run_bar\<close> converts it.  In the code
  the converter is a temporary object that owns the arrays of that form and is destroyed before the plugin is
  called, so that their pointers dangle; here the plugin gets the values they had.
\<close>

definition on_bar :: "('h, 'p) native_loader \<Rightarrow> bar \<Rightarrow> cstate \<Rightarrow> plugin_result result \<times> ('h, 'p) native_loader" where
  "on_bar l b c_state =
     (if exp_api_version (nl_export l) \<noteq> PLUGIN_API_VERSION then (failed ''Invalid API Version'', l)
      else case vt_on_bar (exp_vtable (nl_export l)) of
             None \<Rightarrow> (failed ''Undefined Method on_bar'', l)
           | Some f \<Rightarrow> let (r, self) = f (exp_instance (nl_export l)) (to_plugin_bar b) c_state
                       in (r, called ''on_bar'' self l))"

definition on_end :: "('h, 'p) native_loader \<Rightarrow> plugin_result result \<times> string option \<times> ('h, 'p) native_loader" where
  "on_end l =
     (if exp_api_version (nl_export l) \<noteq> PLUGIN_API_VERSION then (failed ''Invalid API Version'', None, l)
      else case vt_on_end (exp_vtable (nl_export l)) of
             None \<Rightarrow> (failed ''Undefined Method on_end'', None, l)
           | Some f \<Rightarrow> let (r, json_out, self) = f (exp_instance (nl_export l))
                       in (r, json_out, called ''on_end'' self l))"

definition free_string :: "('h, 'p) native_loader \<Rightarrow> string option \<Rightarrow> ('h, 'p) native_loader" where
  "free_string l str =
     (if exp_api_version (nl_export l) \<noteq> PLUGIN_API_VERSION then l
      else case vt_free_string (exp_vtable (nl_export l)) of
             None \<Rightarrow> l
           | Some f \<Rightarrow> called ''free_string'' (f (exp_instance (nl_export l)) str) l)"

definition unload_plugin :: "('h, 'p) native_loader \<Rightarrow> ('h, 'p) native_loader" where
  "unload_plugin l =
     (if exp_api_version (nl_export l) \<noteq> PLUGIN_API_VERSION then l
      else
        let l1 = (if exp_instance (nl_export l) \<noteq> None \<and> vt_destroy (exp_vtable (nl_export l)) \<noteq> None
                  then set_instance None (record_call ''destroy'' l) else l)
        in (lib_close l1)\<lparr>nl_export := empty_export\<rparr>)"

section \<open>Sequences of calls\<close>

datatype loader_call = Load int | Init | Start | Bar bar cstate | End | Free "string option" | Unload

fun loader_step :: "('h, 'p) linker \<Rightarrow> loader_call \<Rightarrow> ('h, 'p) native_loader \<Rightarrow> ('h, 'p) native_loader" where
  "loader_step dl (Load ctx) l = snd (load_plugin dl ctx l)"
| "loader_step dl Init l = snd (on_init l)"
| "loader_step dl Start l = snd (on_start l)"
| "loader_step dl (Bar b c) l = snd (on_bar l b c)"
| "loader_step dl End l = snd (snd (on_end l))"
| "loader_step dl (Free str) l = free_string l str"
| "loader_step dl Unload l = unload_plugin l"

text \<open>A loader that would call its plugin has an instance and the functions the loader relies on.\<close>

definition export_ok :: "'p plugin_export \<Rightarrow> bool" where
  "export_ok ex \<longleftrightarrow> (exp_api_version ex = PLUGIN_API_VERSION \<longrightarrow>
     exp_instance ex \<noteq> None \<and> vt_destroy (exp_vtable ex) \<noteq> None \<and> vt_on_end (exp_vtable ex) \<noteq> None)"

fun call_safe :: "'h effect \<Rightarrow> bool" where
  "call_safe (Call name ok) = ok"
| "call_safe (Close h) = True"

definition loader_safe :: "('h, 'p) native_loader \<Rightarrow> bool" where
  "loader_safe l \<longleftrightarrow> export_ok (nl_export l) \<and> list_all call_safe (nl_trace l)"

lemmas loader_ops = on_init_def on_start_def on_bar_def on_end_def free_string_def
lemmas loader_defs = loader_ops called_def record_call_def set_instance_def

lemma empty_export_simps [simp]:
  "exp_api_version empty_export = 0" "exp_instance empty_export = None" "export_ok empty_export"
  by (simp_all add: empty_export_def export_ok_def PLUGIN_API_VERSION_def)

lemma lib_close_simps [simp]:
  "nl_lib (lib_close l) = None" "nl_export (lib_close l) = nl_export l" "nl_manifest (lib_close l) = nl_manifest l"
  "list_all call_safe (nl_trace (lib_close l)) = list_all call_safe (nl_trace l)"
  by (simp_all add: lib_close_def split: option.splits)

lemma load_plugin_safe: "loader_safe l \<Longrightarrow> loader_safe (snd (load_plugin dl ctx l))"
  by (auto simp: loader_safe_def load_defs Let_def export_ok_def PLUGIN_API_VERSION_def
      split: sum.splits option.splits)

lemma unload_plugin_safe: "loader_safe l \<Longrightarrow> loader_safe (unload_plugin l)"
  by (auto simp: loader_safe_def unload_plugin_def record_call_def set_instance_def)

lemma loader_step_safe: "loader_safe l \<Longrightarrow> loader_safe (loader_step dl c l)"
proof (induction dl c l rule: loader_step.induct)
  case (1 dl ctx l)
  then show ?case using load_plugin_safe by simp
next
  case (7 dl l)
  then show ?case using unload_plugin_safe by simp
qed (auto simp: loader_safe_def export_ok_def loader_defs split_beta Let_def split: option.splits)

lemma loader_steps_safe: "loader_safe l \<Longrightarrow> loader_safe (fold (loader_step dl) cs l)"
  by (induction cs arbitrary: l) (auto intro: loader_step_safe)

lemma new_native_loader_safe: "loader_safe (new_native_loader m)"
  by (simp add: loader_safe_def new_native_loader_def)

text \<open>A loaded plugin stays loaded until it is unloaded, and its calls are neither \<^verbatim>\<open>destroy\<close> nor a close.\<close>

fun plain_call :: "'h effect \<Rightarrow> bool" where
  "plain_call (Call name ok) \<longleftrightarrow> ok \<and> name \<noteq> ''destroy''"
| "plain_call (Close h) \<longleftrightarrow> False"

definition loaded :: "'h \<Rightarrow> ('h, 'p) native_loader \<Rightarrow> bool" where
  "loaded h l \<longleftrightarrow> export_ok (nl_export l) \<and> exp_api_version (nl_export l) = PLUGIN_API_VERSION \<and> nl_lib l = Some h \<and>
     list_all plain_call (nl_trace l)"

definition unloaded :: "'h \<Rightarrow> ('h, 'p) native_loader \<Rightarrow> bool" where
  "unloaded h l \<longleftrightarrow> nl_export l = empty_export \<and> nl_lib l = None \<and>
     (\<exists>us. list_all plain_call us \<and> nl_trace l = us @ [Call ''destroy'' True, Close h])"

lemma unload_loaded: "loaded h l \<Longrightarrow> unloaded h (unload_plugin l)"
  by (auto simp: loaded_def unloaded_def unload_plugin_def lib_close_def record_call_def set_instance_def export_ok_def)

text \<open>A loader whose export is empty calls nothing.\<close>

lemma idle_step: "nl_export l = empty_export \<Longrightarrow> (\<And>ctx. c \<noteq> Load ctx) \<Longrightarrow> loader_step dl c l = l"
  by (cases c) (auto simp: loader_ops unload_plugin_def PLUGIN_API_VERSION_def)

lemma loaded_step:
  "loaded h l \<Longrightarrow> (\<And>ctx. c \<noteq> Load ctx) \<Longrightarrow> c \<noteq> Unload \<Longrightarrow> loaded h (loader_step dl c l)"
  by (cases c) (auto simp: loaded_def export_ok_def loader_defs split_beta Let_def split: option.splits)

lemma loaded_ops:
  assumes "loaded h l"
  shows "loaded h (snd (on_init l))" "loaded h (snd (on_start l))" "loaded h (snd (on_bar l b c))"
    "loaded h (snd (snd (on_end l)))" "loaded h (free_string l str)"
  using assms by (auto simp: loaded_def export_ok_def loader_defs split_beta Let_def split: option.splits)

lemma loader_steps_loaded:
  "loaded h l \<or> unloaded h l \<Longrightarrow> \<forall>ctx. Load ctx \<notin> set cs \<Longrightarrow>
     loaded h (fold (loader_step dl) cs l) \<or> unloaded h (fold (loader_step dl) cs l)"
proof (induction cs arbitrary: l)
  case (Cons c cs)
  have c: "c \<noteq> Load ctx" for ctx using Cons.prems(2) by auto
  have "loaded h (loader_step dl c l) \<or> unloaded h (loader_step dl c l)"
    using Cons.prems(1)
  proof
    assume "loaded h l"
    then show ?thesis using loaded_step [OF _ c] unload_loaded [of h l] by (cases "c = Unload") auto
  next
    assume "unloaded h l"
    then show ?thesis using idle_step [OF _ c] by (metis unloaded_def)
  qed
  then show ?case using Cons.IH Cons.prems(2) by simp
qed simp

lemma load_plugin_loaded:
  assumes "load_plugin dl ctx (new_native_loader m) = (Inr (), l)"
  shows "\<exists>h. dl_open dl (pm_entry m) = Inr h \<and> loaded h l"
  using assms
  by (auto simp: load_defs new_native_loader_def loaded_def export_ok_def Let_def
      split: sum.splits option.splits if_splits)

lemma unload_unloaded: "loaded h l \<or> unloaded h l \<Longrightarrow> unloaded h (unload_plugin l)"
proof (elim disjE)
  assume "unloaded h l"
  moreover from this have "unload_plugin l = l" by (simp add: unloaded_def unload_plugin_def PLUGIN_API_VERSION_def)
  ultimately show ?thesis by simp
qed (rule unload_loaded)

lemma idle_steps: "nl_export l = empty_export \<Longrightarrow> \<forall>ctx. Load ctx \<notin> set cs \<Longrightarrow> fold (loader_step dl) cs l = l"
proof (induction cs)
  case (Cons c cs)
  have "c \<noteq> Load ctx" for ctx using Cons.prems(2) by auto
  then have "loader_step dl c l = l" by (rule idle_step [OF Cons.prems(1)])
  then show ?case using Cons by simp
qed simp

lemma load_plugin_failed:
  assumes "load_plugin dl ctx (new_native_loader m) = (Inl x, l)"
  shows "nl_lib l = None \<and> nl_export l = empty_export"
  using assms
  by (auto simp: load_defs new_native_loader_def lib_close_def Let_def split: sum.splits option.splits if_splits)

end
