(* ===== verification/Python_Loader.thy ===== *)
theory Python_Loader
  imports Native_Loader
begin

text \<open>
  \<^verbatim>\<open>plugins/loaders/python_loader.cpp\<close>: a plugin that is an object of a Python module.

  The interpreter and pybind11 are a parameter, the record \<open>python\<close>: making the object, calling a
  method, and the casts of what a method returns, values of a type \<open>'v\<close>.  What the host hands to a
  method is of the type \<open>pyval\<close>.  Strings are values here; the theory \<open>String_Buffers\<close> has
  the pointers that stand for them.  The interpreter is running: starting it is not modelled.
\<close>

section \<open>Python\<close>

datatype pyval =
    Py_int int64
  | Py_float f64
  | Py_str string
  | Py_list "pyval list"
  | Py_dict "(string \<times> pyval) list"

text \<open>
  \<open>py_create\<close> imports a module and calls its \<^verbatim>\<open>create_plugin\<close>; \<open>py_call\<close> looks a method up and calls it; \<open>py_enum\<close> is
  the cast of a C enumeration; a dictionary is read as the function from its keys.
\<close>

record ('o, 'v) python =
  py_create :: "string \<Rightarrow> int \<Rightarrow> 'o result"
  py_call :: "'o \<Rightarrow> string \<Rightarrow> pyval list \<Rightarrow> 'v result \<times> 'o"
  py_enum :: "int \<Rightarrow> pyval result"
  cast_tuple :: "'v \<Rightarrow> 'v list result"
  cast_list :: "'v \<Rightarrow> 'v list result"
  cast_dict :: "'v \<Rightarrow> (string \<Rightarrow> 'v option) result"
  cast_int :: "'v \<Rightarrow> int result"
  cast_int64 :: "'v \<Rightarrow> int64 result"
  cast_double :: "'v \<Rightarrow> f64 result"
  cast_string :: "'v \<Rightarrow> string result"

record 'o py_plugin =
  py_obj :: 'o
  current_instructions :: "cinstruction list"

section \<open>What the host hands over\<close>

definition position_dict :: "cposition \<Rightarrow> pyval" where
  "position_dict p =
     Py_dict [(''symbol'', Py_str (cpos_symbol p)), (''quantity'', Py_float (cpos_quantity p)),
       (''average_price'', Py_float (cpos_average_price p))]"

definition fill_dict :: "cfill \<Rightarrow> pyval" where
  "fill_dict f =
     Py_dict [(''symbol'', Py_str (cfill_symbol f)), (''quantity'', Py_float (cfill_quantity f)),
       (''price'', Py_int (cfill_price f)), (''created_at_ns'', Py_int (cfill_created_at_ns f)),
       (''uuid'', Py_str (cfill_uuid f)), (''action'', Py_str (cfill_action f))]"

definition exit_order_dict :: "('o, 'v) python \<Rightarrow> cexit_order \<Rightarrow> pyval result" where
  "exit_order_dict py ord =
     (case ord of
        CExit_stop_loss x \<Rightarrow>
          bindR (py_enum py 0) (\<lambda>ty. Inr (Py_dict [(''type'', ty), (''symbol'', Py_str (csl_symbol x)),
            (''trigger_quantity'', Py_float (csl_trigger_quantity x)), (''stop_loss_price'', Py_int (csl_stop_loss_price x)),
            (''fill_uuid'', Py_str (csl_fill_uuid x))]))
      | CExit_take_profit x \<Rightarrow>
          bindR (py_enum py 1) (\<lambda>ty. Inr (Py_dict [(''type'', ty), (''symbol'', Py_str (ctp_symbol x)),
            (''trigger_quantity'', Py_float (ctp_trigger_quantity x)), (''take_profit_price'', Py_int (ctp_take_profit_price x)),
            (''fill_uuid'', Py_str (ctp_fill_uuid x))])))"

definition equity_dict :: "cequity_snapshot \<Rightarrow> pyval" where
  "equity_dict s =
     Py_dict [(''timestamp_ns'', Py_int (ceq_timestamp_ns s)), (''equity'', Py_int (ceq_equity s)),
       (''return'', Py_float (ceq_return s)), (''max_drawdown'', Py_float (ceq_max_drawdown s)),
       (''sharpe_ratio'', Py_float (ceq_sharpe_ratio s)), (''sortino_ratio'', Py_float (ceq_sortino_ratio s)),
       (''calmar_ratio'', Py_float (ceq_calmar_ratio s)), (''tail_ratio'', Py_float (ceq_tail_ratio s)),
       (''value_at_risk'', Py_float (ceq_value_at_risk s)),
       (''conditional_value_at_risk'', Py_float (ceq_conditional_value_at_risk s))]"

fun mapR :: "('a \<Rightarrow> 'b result) \<Rightarrow> 'a list \<Rightarrow> 'b list result" where
  "mapR f [] = Inr []"
| "mapR f (x # xs) = bindR (f x) (\<lambda>y. bindR (mapR f xs) (\<lambda>ys. Inr (y # ys)))"

definition state_dict :: "('o, 'v) python \<Rightarrow> cstate \<Rightarrow> pyval result" where
  "state_dict py st =
     bindR (mapR (exit_order_dict py) (cst_new_exit_orders st)) (\<lambda>exit_orders.
       Inr (Py_dict [(''cash'', Py_int (cst_cash st)), (''positions'', Py_list (map position_dict (cst_positions st))),
         (''new_fills'', Py_list (map fill_dict (cst_new_fills st))), (''new_exit_orders'', Py_list exit_orders),
         (''equity_curve'', Py_list (map equity_dict (cst_equity_curve st)))]))"

definition bar_dict :: "cbar \<Rightarrow> pyval" where
  "bar_dict b =
     Py_dict [(''symbol'', Py_str (cb_symbol b)), (''unix_ts_ns'', Py_int (cb_unix_ts_ns b)), (''open'', Py_float (cb_open b)),
       (''high'', Py_float (cb_high b)), (''low'', Py_float (cb_low b)), (''close'', Py_float (cb_close b)),
       (''volume'', Py_float (cb_volume b))]"

text \<open>Setting an item of a dictionary replaces the value of a key that is there.\<close>

fun dict_set :: "string \<Rightarrow> pyval \<Rightarrow> (string \<times> pyval) list \<Rightarrow> (string \<times> pyval) list" where
  "dict_set k v [] = [(k, v)]"
| "dict_set k v ((k', v') # d) = (if k' = k then (k, v) # d else (k', v') # dict_set k v d)"

definition options_dict :: "(string \<times> string) list \<Rightarrow> pyval" where
  "options_dict opts = Py_dict (fold (\<lambda>(k, v). dict_set k (Py_str v)) opts [])"

section \<open>What a method returns\<close>

definition dict_get :: "('v \<Rightarrow> 'a result) \<Rightarrow> (string \<Rightarrow> 'v option) \<Rightarrow> string \<Rightarrow> 'a result" where
  "dict_get cast d k = (case d k of None \<Rightarrow> Inl (Python_error ''KeyError'') | Some v \<Rightarrow> cast v)"

definition dict_get_or :: "('v \<Rightarrow> 'a result) \<Rightarrow> (string \<Rightarrow> 'v option) \<Rightarrow> string \<Rightarrow> 'a \<Rightarrow> 'a result" where
  "dict_get_or cast d k fallback = (case d k of None \<Rightarrow> Inr fallback | Some v \<Rightarrow> cast v)"

definition to_c_instruction :: "('o, 'v) python \<Rightarrow> 'v \<Rightarrow> cinstruction result" where
  "to_c_instruction py item =
     bindR (cast_dict py item) (\<lambda>inst_dict.
     bindR (dict_get (cast_string py) inst_dict ''symbol'') (\<lambda>symbol.
     bindR (dict_get (cast_string py) inst_dict ''action'') (\<lambda>action.
       case inst_dict ''quantity'' of
         None \<Rightarrow> Inr (CInstr_signal \<lparr>csig_symbol = symbol, csig_action = action\<rparr>)
       | Some q \<Rightarrow>
           bindR (dict_get_or (cast_string py) inst_dict ''order_type'' ''market'') (\<lambda>order_type.
           bindR (cast_double py q) (\<lambda>quantity.
           bindR (dict_get_or (cast_int64 py) inst_dict ''limit_price'' NULL_MARKET_TRIGGER_PRICE) (\<lambda>limit_price.
           bindR (dict_get_or (cast_int64 py) inst_dict ''stop_loss_price'' NULL_MARKET_TRIGGER_PRICE) (\<lambda>stop_loss_price.
           bindR (dict_get_or (cast_int64 py) inst_dict ''take_profit_price'' NULL_MARKET_TRIGGER_PRICE) (\<lambda>take_profit_price.
           bindR (dict_get_or (cast_double py) inst_dict ''leverage'' 1) (\<lambda>leverage.
             Inr (CInstr_order \<lparr>cord_symbol = symbol, cord_action = action, cord_quantity = quantity,
               cord_leverage = leverage, cord_limit_price = limit_price, cord_stop_loss_price = stop_loss_price,
               cord_take_profit_price = take_profit_price, cord_order_type = order_type\<rparr>)))))))))) "

fun convert_items ::
  "('o, 'v) python \<Rightarrow> 'v list \<Rightarrow> cinstruction list \<Rightarrow> unit result \<times> cinstruction list" where
  "convert_items py [] acc = (Inr (), acc)"
| "convert_items py (item # items) acc =
     (case to_c_instruction py item of
        Inl e \<Rightarrow> (Inl e, acc)
      | Inr c \<Rightarrow> convert_items py items (acc @ [c]))"

text \<open>
  A pair of a code and a list; where that fails for whatever reason, the result itself is the code.
\<close>

definition split_result :: "('o, 'v) python \<Rightarrow> 'v \<Rightarrow> (int \<times> 'v list) result" where
  "split_result py py_result =
     (case bindR (cast_tuple py py_result) (\<lambda>result_tuple.
             case result_tuple of
               code # instructions # rest \<Rightarrow>
                 bindR (cast_int py code) (\<lambda>c. bindR (cast_list py instructions) (\<lambda>is. Inr (c, is)))
             | _ \<Rightarrow> Inl (Python_error ''IndexError'')) of
        Inr x \<Rightarrow> Inr x
      | Inl e \<Rightarrow> bindR (cast_int py py_result) (\<lambda>c. Inr (c, [])))"

definition to_plugin_result ::
  "('o, 'v) python \<Rightarrow> 'o py_plugin \<Rightarrow> 'v \<Rightarrow> plugin_result result \<times> 'o py_plugin" where
  "to_plugin_result py python_plugin py_result =
     (case split_result py py_result of
        Inl e \<Rightarrow> (Inl e, python_plugin\<lparr>current_instructions := []\<rparr>)
      | Inr (status_code, instructions_list) \<Rightarrow>
          let (outcome, instructions) = convert_items py instructions_list [] in
          (bindR outcome (\<lambda>_. Inr \<lparr>pr_code = status_code,
             pr_message = (if status_code = 0 then None else Some ''on_bar failed''), pr_instructions = instructions\<rparr>),
           python_plugin\<lparr>current_instructions := instructions\<rparr>))"

section \<open>The plugin table\<close>

text \<open>A method of the object, and the conversion of what it returns.\<close>

definition call_method ::
  "('o, 'v) python \<Rightarrow> string \<Rightarrow> pyval list \<Rightarrow> 'o py_plugin \<Rightarrow> plugin_result result \<times> 'o py_plugin" where
  "call_method py name args python_plugin =
     (case py_call py (py_obj python_plugin) name args of
        (Inl e, obj) \<Rightarrow> (Inl e, python_plugin\<lparr>py_obj := obj\<rparr>)
      | (Inr py_result, obj) \<Rightarrow> to_plugin_result py (python_plugin\<lparr>py_obj := obj\<rparr>) py_result)"

definition on_self :: "('p \<Rightarrow> plugin_result result \<times> 'p) \<Rightarrow> 'p option \<Rightarrow> plugin_result result \<times> 'p option" where
  "on_self f self =
     (case self of
        None \<Rightarrow> (Inl Null_pointer, None)
      | Some python_plugin \<Rightarrow> let (r, p) = f python_plugin in (r, Some p))"

definition py_vtable :: "('o, 'v) python \<Rightarrow> 'o py_plugin plugin_vtable" where
  "py_vtable py =
     \<lparr>vt_destroy = Some (\<lambda>self. ()),
      vt_on_init = Some (\<lambda>self opts. on_self (call_method py ''on_init'' [options_dict opts]) self),
      vt_on_start = Some (\<lambda>self. on_self (call_method py ''on_start'' []) self),
      vt_on_bar = Some (\<lambda>self b st. on_self (\<lambda>python_plugin.
        case state_dict py st of
          Inl e \<Rightarrow> (Inl e, python_plugin)
        | Inr d \<Rightarrow> call_method py ''on_bar'' [bar_dict b, d] python_plugin) self),
      vt_on_end = Some (\<lambda>self. case self of
          None \<Rightarrow> (Inl Null_pointer, None, None)
        | Some python_plugin \<Rightarrow>
            (case py_call py (py_obj python_plugin) ''on_end'' [] of
               (v, obj) \<Rightarrow>
                 (case bindR v (cast_string py) of
                    Inl e \<Rightarrow> (Inl e, None, Some (python_plugin\<lparr>py_obj := obj\<rparr>))
                  | Inr out \<Rightarrow> (Inr \<lparr>pr_code = 0, pr_message = None, pr_instructions = []\<rparr>, Some out,
                                Some (python_plugin\<lparr>py_obj := obj\<rparr>))))),
      vt_free_string = Some (\<lambda>self str. None)\<rparr>"

section \<open>The loader\<close>

record 'o python_loader =
  pl_manifest :: plugin_manifest
  pl_export :: "'o py_plugin plugin_export"
  pl_trace :: "(string \<times> bool) list"

definition new_python_loader :: "plugin_manifest \<Rightarrow> 'o python_loader" where
  "new_python_loader m = \<lparr>pl_manifest = m, pl_export = empty_export, pl_trace = []\<rparr>"

text \<open>Whatever goes wrong is caught, and the export stays empty.\<close>

definition py_load_plugin ::
  "('o, 'v) python \<Rightarrow> int \<Rightarrow> 'o python_loader \<Rightarrow> unit result \<times> 'o python_loader" where
  "py_load_plugin py ctx l =
     (case py_create py (pm_entry (pl_manifest l)) ctx of
        Inl e \<Rightarrow> (Inr (), l\<lparr>pl_export := empty_export\<rparr>)
      | Inr obj \<Rightarrow> (Inr (), l\<lparr>pl_export := \<lparr>exp_api_version = PLUGIN_API_VERSION,
          exp_instance = Some \<lparr>py_obj = obj, current_instructions = []\<rparr>, exp_vtable = py_vtable py\<rparr>\<rparr>))"

definition py_called :: "string \<Rightarrow> 'o py_plugin option \<Rightarrow> 'o python_loader \<Rightarrow> 'o python_loader" where
  "py_called name self l =
     l\<lparr>pl_export := (pl_export l)\<lparr>exp_instance := map_option (value_or self) (exp_instance (pl_export l))\<rparr>,
       pl_trace := pl_trace l @ [(name, exp_instance (pl_export l) \<noteq> None)]\<rparr>"

definition py_on_init :: "'o python_loader \<Rightarrow> unit result \<times> 'o python_loader" where
  "py_on_init l =
     (if exp_api_version (pl_export l) \<noteq> PLUGIN_API_VERSION then (Inr (), l)
      else case vt_on_init (exp_vtable (pl_export l)) of
             None \<Rightarrow> (Inr (), l)
           | Some f \<Rightarrow> let (answer, self) = f (exp_instance (pl_export l)) (get_options (pl_manifest l))
                       in (bindR answer (\<lambda>_. Inr ()), py_called ''on_init'' self l))"

definition py_on_start :: "'o python_loader \<Rightarrow> plugin_result result \<times> 'o python_loader" where
  "py_on_start l =
     (if exp_api_version (pl_export l) \<noteq> PLUGIN_API_VERSION then (failed ''Invalid API Version'', l)
      else case vt_on_start (exp_vtable (pl_export l)) of
             None \<Rightarrow> (failed ''Undefined Method on_start'', l)
           | Some f \<Rightarrow> let (r, self) = f (exp_instance (pl_export l)) in (r, py_called ''on_start'' self l))"

definition py_on_bar :: "'o python_loader \<Rightarrow> bar \<Rightarrow> cstate \<Rightarrow> plugin_result result \<times> 'o python_loader" where
  "py_on_bar l b c_state =
     (if exp_api_version (pl_export l) \<noteq> PLUGIN_API_VERSION then (failed ''Invalid API Version'', l)
      else case vt_on_bar (exp_vtable (pl_export l)) of
             None \<Rightarrow> (failed ''Undefined Method on_bar'', l)
           | Some f \<Rightarrow>
               let c_bar = \<lparr>cb_symbol = bar_symbol b, cb_unix_ts_ns = bar_unix_ts_ns b, cb_open = bar_open b,
                     cb_high = bar_high b, cb_low = bar_low b, cb_close = bar_close b, cb_volume = bar_volume b\<rparr>;
                   (r, self) = f (exp_instance (pl_export l)) c_bar c_state
               in (r, py_called ''on_bar'' self l))"

definition py_on_end :: "'o python_loader \<Rightarrow> plugin_result result \<times> string option \<times> 'o python_loader" where
  "py_on_end l =
     (if exp_api_version (pl_export l) \<noteq> PLUGIN_API_VERSION then (failed ''Invalid API Version'', None, l)
      else case vt_on_end (exp_vtable (pl_export l)) of
             None \<Rightarrow> (failed ''Undefined Method on_end'', None, l)
           | Some f \<Rightarrow> let (r, json_out, self) = f (exp_instance (pl_export l))
                       in (r, json_out, py_called ''on_end'' self l))"

definition py_free_string :: "'o python_loader \<Rightarrow> string option \<Rightarrow> 'o python_loader" where
  "py_free_string l str =
     (if exp_api_version (pl_export l) \<noteq> PLUGIN_API_VERSION then l
      else case vt_free_string (exp_vtable (pl_export l)) of
             None \<Rightarrow> l
           | Some f \<Rightarrow> py_called ''free_string'' (f (exp_instance (pl_export l)) str) l)"

text \<open>Unlike the native loader it keeps the version and the table.\<close>

definition py_unload_plugin :: "'o python_loader \<Rightarrow> 'o python_loader" where
  "py_unload_plugin l =
     (if exp_api_version (pl_export l) \<noteq> PLUGIN_API_VERSION then l
      else if vt_destroy (exp_vtable (pl_export l)) \<noteq> None \<and> exp_instance (pl_export l) \<noteq> None
      then l\<lparr>pl_export := (pl_export l)\<lparr>exp_instance := None\<rparr>, pl_trace := pl_trace l @ [(''destroy'', True)]\<rparr>
      else l)"

lemma py_loads: "fst (py_load_plugin py ctx l) = Inr ()"
  by (simp add: py_load_plugin_def split: sum.splits)

lemma py_ops_manifest [simp]:
  "pl_manifest (snd (py_load_plugin py ctx l)) = pl_manifest l" "pl_manifest (snd (py_on_init l)) = pl_manifest l"
  by (simp_all add: py_load_plugin_def py_on_init_def py_called_def split_beta Let_def split: sum.splits option.splits)

text \<open>After unloading a loaded plugin, showing it a bar follows a null pointer.\<close>

lemma python_bar_after_unload:
  assumes "py_create py (pm_entry (pl_manifest l)) ctx = Inr obj"
  shows "fst (py_on_bar (py_unload_plugin (snd (py_load_plugin py ctx l))) b st) = Inl Null_pointer"
  using assms by (simp add: py_load_plugin_def py_unload_plugin_def py_on_bar_def py_vtable_def on_self_def Let_def)

end
