(* ===== verification/String_Buffers.thy ===== *)
theory String_Buffers
  imports Python_Loader
begin

text \<open>
  The C strings that the manifest and the Python loader hand to plugins: pointers into the strings of a
  \<^verbatim>\<open>std::vector\<close> that grows while the pointers are taken.

  A string of at most \<open>sso\<close> characters is kept inside the element of the vector, so a pointer to it is lost
  when the vector moves its elements to a larger block; a longer string is on the heap, and moving
  keeps it.  Clearing the vector destroys its strings and keeps its block.  How much a full vector
  grows is the parameter \<open>grow\<close>.
\<close>

section \<open>A vector of strings\<close>

record string_vector =
  sv_strings :: "string list"
  sv_capacity :: nat
  sv_block :: nat
  sv_clears :: nat

definition empty_vector :: string_vector where
  "empty_vector = \<lparr>sv_strings = [], sv_capacity = 0, sv_block = 0, sv_clears = 0\<rparr>"

definition push_back :: "(nat \<Rightarrow> nat) \<Rightarrow> string \<Rightarrow> string_vector \<Rightarrow> string_vector" where
  "push_back grow x v =
     (if length (sv_strings v) < sv_capacity v then v\<lparr>sv_strings := sv_strings v @ [x]\<rparr>
      else v\<lparr>sv_strings := sv_strings v @ [x], sv_capacity := grow (sv_capacity v), sv_block := Suc (sv_block v)\<rparr>)"

definition clear_vector :: "string_vector \<Rightarrow> string_vector" where
  "clear_vector v = v\<lparr>sv_strings := [], sv_clears := Suc (sv_clears v)\<rparr>"

text \<open>A pointer remembers the element and, for a short string, the block it is in.\<close>

datatype c_str = In_block nat nat nat | On_heap nat nat

definition back_c_str :: "nat \<Rightarrow> string_vector \<Rightarrow> c_str" where
  "back_c_str sso v =
     (let i = length (sv_strings v) - 1 in
      if length (sv_strings v ! i) \<le> sso then In_block (sv_clears v) (sv_block v) i else On_heap (sv_clears v) i)"

text \<open>What a pointer points to; \<open>None\<close> if it dangles.\<close>

fun deref :: "string_vector \<Rightarrow> c_str \<Rightarrow> string option" where
  "deref v (In_block n block i) =
     (if n = sv_clears v \<and> block = sv_block v \<and> i < length (sv_strings v) then Some (sv_strings v ! i) else None)"
| "deref v (On_heap n i) =
     (if n = sv_clears v \<and> i < length (sv_strings v) then Some (sv_strings v ! i) else None)"

text \<open>\<^verbatim>\<open>store_string\<close>, and the strings of a sequence of calls.\<close>

definition store_string :: "(nat \<Rightarrow> nat) \<Rightarrow> nat \<Rightarrow> string \<Rightarrow> string_vector \<Rightarrow> c_str \<times> string_vector" where
  "store_string grow sso x v = (let v' = push_back grow x v in (back_c_str sso v', v'))"

fun store_strings :: "(nat \<Rightarrow> nat) \<Rightarrow> nat \<Rightarrow> string list \<Rightarrow> string_vector \<Rightarrow> c_str list \<times> string_vector" where
  "store_strings grow sso [] v = ([], v)"
| "store_strings grow sso (x # xs) v =
     (let (p, v1) = store_string grow sso x v; (ps, v2) = store_strings grow sso xs v1 in (p # ps, v2))"

section \<open>The two callers\<close>

text \<open>
  \<^verbatim>\<open>get_options\<close> stores key and value of each option, \<^verbatim>\<open>to_plugin_result\<close> symbol, action and, for an order, the
  order type of each instruction.  Both clear the vector first.
\<close>

definition option_strings :: "(string \<times> string) list \<Rightarrow> string list" where
  "option_strings opts = concat (map (\<lambda>(k, v). [k, v]) opts)"

definition get_option_pointers :: "(nat \<Rightarrow> nat) \<Rightarrow> nat \<Rightarrow> plugin_manifest \<Rightarrow> string_vector \<Rightarrow> c_str list \<times> string_vector" where
  "get_option_pointers grow sso m v = store_strings grow sso (option_strings (get_options m)) (clear_vector v)"

fun instruction_strings :: "cinstruction \<Rightarrow> string list" where
  "instruction_strings (CInstr_order c) = [cord_symbol c, cord_action c, cord_order_type c]"
| "instruction_strings (CInstr_signal c) = [csig_symbol c, csig_action c]"
| "instruction_strings (CInstr_other n) = []"

definition get_instruction_pointers ::
  "(nat \<Rightarrow> nat) \<Rightarrow> nat \<Rightarrow> cinstruction list \<Rightarrow> string_vector \<Rightarrow> c_str list \<times> string_vector" where
  "get_instruction_pointers grow sso cs v = store_strings grow sso (concat (map instruction_strings cs)) (clear_vector v)"

section \<open>Which pointers survive\<close>

definition vector_ok :: "string_vector \<Rightarrow> bool" where
  "vector_ok v \<longleftrightarrow> length (sv_strings v) \<le> sv_capacity v"

text \<open>The capacity after some more strings.\<close>

definition capacity_after :: "(nat \<Rightarrow> nat) \<Rightarrow> string list \<Rightarrow> string_vector \<Rightarrow> nat" where
  "capacity_after grow xs v = sv_capacity (fold (push_back grow) xs v)"

lemma push_back_simps [simp]:
  "sv_strings (push_back grow x v) = sv_strings v @ [x]" "sv_clears (push_back grow x v) = sv_clears v"
  by (simp_all add: push_back_def)

lemma push_backs [simp]:
  "sv_strings (fold (push_back grow) xs v) = sv_strings v @ xs" "sv_clears (fold (push_back grow) xs v) = sv_clears v"
  by (induction xs arbitrary: v) simp_all

lemma push_back_ok: "(\<And>n. n < grow n) \<Longrightarrow> vector_ok v \<Longrightarrow> vector_ok (push_back grow x v)"
  using Suc_leI [of "sv_capacity v" "grow (sv_capacity v)"] by (auto simp: vector_ok_def push_back_def)

lemma push_backs_block:
  assumes "\<And>n. n < grow n" "vector_ok v"
  shows "sv_block v \<le> sv_block (fold (push_back grow) xs v)"
    and "sv_block (fold (push_back grow) xs v) = sv_block v \<longleftrightarrow> length (sv_strings v) + length xs \<le> sv_capacity v"
proof -
  have mono: "sv_block v \<le> sv_block (fold (push_back grow) xs v)" for v
  proof (induction xs arbitrary: v)
    case (Cons x xs)
    have "sv_block v \<le> sv_block (push_back grow x v)" by (simp add: push_back_def)
    then show ?case using Cons.IH [of "push_back grow x v"] by simp
  qed simp
  then show "sv_block v \<le> sv_block (fold (push_back grow) xs v)" .
  show "sv_block (fold (push_back grow) xs v) = sv_block v \<longleftrightarrow> length (sv_strings v) + length xs \<le> sv_capacity v"
    using assms(2)
  proof (induction xs arbitrary: v)
    case (Cons x xs)
    show ?case
    proof (cases "length (sv_strings v) < sv_capacity v")
      case True
      then show ?thesis
        using Cons.IH [OF push_back_ok [where grow = grow and x = x, OF assms(1) Cons.prems]] by (simp add: push_back_def)
    next
      case False
      then have "sv_block (push_back grow x v) = Suc (sv_block v)" by (simp add: push_back_def)
      moreover have "sv_block (push_back grow x v) \<le> sv_block (fold (push_back grow) (x # xs) v)"
      proof (induction xs arbitrary: v x)
        case (Cons y ys)
        have "sv_block (push_back grow x v) \<le> sv_block (push_back grow y (push_back grow x v))" by (simp add: push_back_def)
        then show ?case using Cons [of y "push_back grow x v"] by simp
      qed simp
      ultimately show ?thesis using False by simp
    qed
  qed (simp add: vector_ok_def)
qed

lemma store_strings_vector: "snd (store_strings grow sso xs v) = fold (push_back grow) xs v"
  by (induction xs arbitrary: v) (simp_all add: store_string_def split_beta Let_def)

lemma length_store_strings [simp]: "length (fst (store_strings grow sso xs v)) = length xs"
  by (induction xs arbitrary: v) (simp_all add: store_string_def split_beta Let_def)

lemma store_strings_nth:
  "i < length xs \<Longrightarrow>
     fst (store_strings grow sso xs v) ! i = back_c_str sso (fold (push_back grow) (take (Suc i) xs) v)"
proof (induction xs arbitrary: v i)
  case (Cons x xs)
  then show ?case by (cases i) (simp_all add: store_string_def split_beta Let_def)
qed simp

lemma push_backs_ok: "(\<And>n. n < grow n) \<Longrightarrow> vector_ok v \<Longrightarrow> vector_ok (fold (push_back grow) xs v)"
  by (induction xs arbitrary: v) (simp_all add: push_back_ok)

lemma stored_string_survives:
  assumes "\<And>n. n < grow n" "vector_ok v" "i < length xs"
  shows "deref (snd (store_strings grow sso xs v)) (fst (store_strings grow sso xs v) ! i) =
    (if sso < length (xs ! i) \<or> length (sv_strings v) + length xs \<le> capacity_after grow (take (Suc i) xs) v
     then Some (xs ! i) else None)"
proof -
  let ?v = "fold (push_back grow) (take (Suc i) xs) v"
  have ok: "vector_ok ?v" by (rule push_backs_ok [OF assms(1,2)])
  have split: "fold (push_back grow) xs v = fold (push_back grow) (drop (Suc i) xs) ?v"
    using fold_append [of "push_back grow" "take (Suc i) xs" "drop (Suc i) xs"] by (simp add: comp_def)
  have "sv_block (fold (push_back grow) xs v) = sv_block ?v \<longleftrightarrow> length (sv_strings v) + length xs \<le> sv_capacity ?v"
  proof -
    have e: "length (sv_strings ?v) + length (drop (Suc i) xs) = length (sv_strings v) + length xs" using assms(3) by simp
    show ?thesis
      using push_backs_block(2) [where grow = grow and v = ?v and xs = "drop (Suc i) xs", OF assms(1) ok] unfolding split e .
  qed
  moreover have "back_c_str sso ?v =
      (if length (xs ! i) \<le> sso then In_block (sv_clears v) (sv_block ?v) (length (sv_strings v) + i)
       else On_heap (sv_clears v) (length (sv_strings v) + i))"
  proof -
    have "sv_strings ?v = (sv_strings v @ take i xs) @ [xs ! i]" using assms(3) by (simp add: take_Suc_conv_app_nth)
    moreover have "length (sv_strings v @ take i xs) = length (sv_strings v) + i" using assms(3) by simp
    moreover from this have "((sv_strings v @ take i xs) @ [xs ! i]) ! (length (sv_strings v) + i) = xs ! i"
      by (metis nth_append_length)
    ultimately show ?thesis unfolding back_c_str_def Let_def push_backs(2)
      by (simp only: length_append_singleton diff_Suc_1)
  qed
  moreover have "fst (store_strings grow sso xs v) ! i = back_c_str sso ?v" by (rule store_strings_nth [OF assms(3)])
  moreover obtain w where w: "snd (store_strings grow sso xs v) = w" "fold (push_back grow) xs v = w" "sv_clears w = sv_clears v"
      "sv_strings w = sv_strings v @ xs"
    using store_strings_vector [of grow sso xs v] by simp
  moreover have "length (sv_strings v) + i < length (sv_strings v @ xs)"
    "(sv_strings v @ xs) ! (length (sv_strings v) + i) = xs ! i" using assms(3) by simp_all
  ultimately show ?thesis unfolding capacity_after_def by (cases "length (xs ! i) \<le> sso") (simp_all only: deref.simps if_True if_False w, auto)
qed

lemma capacity_grows:
  assumes "\<And>n. n < grow n"
  shows "sv_capacity v \<le> capacity_after grow xs v"
proof (induction xs arbitrary: v)
  case (Cons x xs)
  have "sv_capacity v \<le> sv_capacity (push_back grow x v)"
    using less_imp_le [OF assms [of "sv_capacity v"]] by (simp add: push_back_def)
  then show ?case using Cons.IH [of "push_back grow x v"] by (simp add: capacity_after_def)
qed (simp add: capacity_after_def)

lemma capacity_after_first:
  assumes "\<And>n. n < grow n" "sv_strings v = []" "xs \<noteq> []"
  shows "(if sv_capacity v = 0 then grow 0 else sv_capacity v) \<le> capacity_after grow xs v"
    and "capacity_after grow (take (Suc 0) xs) v = (if sv_capacity v = 0 then grow 0 else sv_capacity v)"
proof -
  obtain y ys where xs: "xs = y # ys" using assms(3) by (cases xs) auto
  have first: "sv_capacity (push_back grow y v) = (if sv_capacity v = 0 then grow 0 else sv_capacity v)"
    using assms(2) by (simp add: push_back_def)
  then show "(if sv_capacity v = 0 then grow 0 else sv_capacity v) \<le> capacity_after grow xs v"
    using capacity_grows [where grow = grow and v = "push_back grow y v" and xs = ys, OF assms(1)]
    by (simp add: xs capacity_after_def)
  show "capacity_after grow (take (Suc 0) xs) v = (if sv_capacity v = 0 then grow 0 else sv_capacity v)"
    using first by (simp add: xs capacity_after_def)
qed

text \<open>All pointers to short strings are good if and only if the vector does not grow again.\<close>

lemma all_survive_iff:
  assumes grow: "\<And>n. n < grow n" and v: "sv_strings v = []" and short: "\<forall>x\<in>set xs. length x \<le> sso" and xs: "xs \<noteq> []"
  shows "(\<forall>i<length xs. deref (snd (store_strings grow sso xs v)) (fst (store_strings grow sso xs v) ! i) = Some (xs ! i)) \<longleftrightarrow>
    length xs \<le> (if sv_capacity v = 0 then grow 0 else sv_capacity v)"
proof -
  have ok: "vector_ok v" using v by (simp add: vector_ok_def)
  have eq: "deref (snd (store_strings grow sso xs v)) (fst (store_strings grow sso xs v) ! i) = Some (xs ! i) \<longleftrightarrow>
      length xs \<le> capacity_after grow (take (Suc i) xs) v" if "i < length xs" for i
  proof -
    have "\<not> sso < length (xs ! i)" using short nth_mem [OF that] by force
    then show ?thesis using stored_string_survives [where grow = grow and v = v and i = i and xs = xs and sso = sso, OF grow ok that] v by simp
  qed
  have least: "(if sv_capacity v = 0 then grow 0 else sv_capacity v) \<le> capacity_after grow (take (Suc i) xs) v" for i
    using capacity_after_first(1) [where grow = grow and v = v and xs = "take (Suc i) xs", OF grow v] xs by simp
  have first: "capacity_after grow (take (Suc 0) xs) v = (if sv_capacity v = 0 then grow 0 else sv_capacity v)"
    by (rule capacity_after_first(2) [where grow = grow and v = v and xs = xs, OF grow v xs])
  have "0 < length xs" using xs by simp
  show ?thesis (is "?A \<longleftrightarrow> ?B")
  proof
    assume ?A
    then show ?B using eq [OF \<open>0 < length xs\<close>] \<open>0 < length xs\<close> first by simp
  next
    assume ?B
    then show ?A using eq least le_trans by blast
  qed
qed

section \<open>Properties\<close>

text \<open>C29: The strings of the instructions a Python plugin returns: if they are short enough to be kept inside the
  elements of the vector, the engine can read all of them exactly when there are no more of them than the vector holds
  without growing again.  A new vector holds what it grows to from nothing, one string in the usual
  implementations, so the first answer with an instruction has a dangling symbol; later answers are read
  correctly as long as they are not larger than the largest one before.\<close>

theorem instruction_pointers_valid_iff:
  assumes "\<And>n. n < grow n" "\<forall>c\<in>set cs. \<forall>x\<in>set (instruction_strings c). length x \<le> sso"
    and "concat (map instruction_strings cs) \<noteq> []" "get_instruction_pointers grow sso cs v = (ps, v')"
  shows "map (deref v') ps = map Some (concat (map instruction_strings cs)) \<longleftrightarrow>
    length (concat (map instruction_strings cs)) \<le> (if sv_capacity v = 0 then grow 0 else sv_capacity v)"
proof -
  let ?xs = "concat (map instruction_strings cs)" and ?v = "clear_vector v"
  have p: "ps = fst (store_strings grow sso ?xs ?v)" "v' = snd (store_strings grow sso ?xs ?v)"
    using assms(4) by (simp_all add: get_instruction_pointers_def)
  have "(\<forall>i<length ?xs. deref v' (ps ! i) = Some (?xs ! i)) \<longleftrightarrow>
      length ?xs \<le> (if sv_capacity ?v = 0 then grow 0 else sv_capacity ?v)"
    unfolding p by (rule all_survive_iff) (use assms(1-3) in \<open>auto simp: clear_vector_def\<close>)
  moreover have "length ps = length ?xs" by (simp only: p length_store_strings)
  ultimately show ?thesis by (simp only: list_eq_iff_nth_eq length_map nth_map clear_vector_def) (auto simp: nth_map)
qed

definition libstdcxx_grow :: "nat \<Rightarrow> nat" where
  "libstdcxx_grow n = max 1 (2 * n)"

definition python_signal :: cinstruction where
  "python_signal = CInstr_signal \<lparr>csig_symbol = ''ABC'', csig_action = ''buy''\<rparr>"

theorem instruction_pointers_valid_iff_witness:
  "map (deref (snd (get_instruction_pointers libstdcxx_grow 15 [python_signal] empty_vector)))
     (fst (get_instruction_pointers libstdcxx_grow 15 [python_signal] empty_vector)) \<noteq> [Some ''ABC'', Some ''buy'']"
proof -
  have "n < libstdcxx_grow n" for n by (simp add: libstdcxx_grow_def)
  moreover have "get_instruction_pointers libstdcxx_grow 15 [python_signal] empty_vector =
      (fst (get_instruction_pointers libstdcxx_grow 15 [python_signal] empty_vector),
       snd (get_instruction_pointers libstdcxx_grow 15 [python_signal] empty_vector))" by simp
  ultimately show ?thesis
    using instruction_pointers_valid_iff [of libstdcxx_grow "[python_signal]" 15 empty_vector]
    by (simp add: python_signal_def empty_vector_def libstdcxx_grow_def)
qed

text \<open>
  The options of a manifest are more than a new vector holds, too: the number of Monte Carlo runs that a
  plugin reads in its first initialisation is behind a dangling pointer.
\<close>

lemma option_strings_append [simp]: "option_strings (xs @ ys) = option_strings xs @ option_strings ys"
  by (simp add: option_strings_def)

lemma get_options_prefix:
  obtains pre post where "get_options m = pre @ (''monte_carlo_runs'', show_int (hp_monte_carlo_runs (pm_host_params m))) # post"
    "length pre \<le> 2" "4 \<le> length post"
proof
  let ?hp = "pm_host_params m"
  show "get_options m =
      (add_optional show_bool ''market_hours_only'' (hp_market_hours_only ?hp) @
       add_optional show_bool ''allow_fractional_shares'' (hp_allow_fractional_shares ?hp)) @
      (''monte_carlo_runs'', show_int (hp_monte_carlo_runs ?hp)) #
      drop (Suc (length (add_optional show_bool ''market_hours_only'' (hp_market_hours_only ?hp) @
       add_optional show_bool ''allow_fractional_shares'' (hp_allow_fractional_shares ?hp)))) (get_options m)"
    by (simp add: get_options_def Let_def)
  show "length (add_optional show_bool ''market_hours_only'' (hp_market_hours_only ?hp) @
       add_optional show_bool ''allow_fractional_shares'' (hp_allow_fractional_shares ?hp)) \<le> 2"
    by (simp add: add_optional_def split: option.split)
  show "4 \<le> length (drop (Suc (length (add_optional show_bool ''market_hours_only'' (hp_market_hours_only ?hp) @
       add_optional show_bool ''allow_fractional_shares'' (hp_allow_fractional_shares ?hp)))) (get_options m))"
    by (simp add: get_options_def Let_def)
qed

lemma capacity_after_length:
  "length (sv_strings v) = length (sv_strings w) \<Longrightarrow> sv_capacity v = sv_capacity w \<Longrightarrow> length xs = length ys \<Longrightarrow>
     capacity_after grow xs v = capacity_after grow ys w"
proof (induction xs arbitrary: ys v w)
  case (Cons x xs)
  then obtain y ys' where ys: "ys = y # ys'" by (cases ys) auto
  then show ?case using Cons.IH [of "push_back grow x v" "push_back grow y w" ys'] Cons.prems
    by (simp add: capacity_after_def push_back_def)
qed (simp add: capacity_after_def)

lemma libstdcxx_capacities:
  assumes "k \<le> 2"
  shows "capacity_after libstdcxx_grow (replicate (2 * k + 2) []) (clear_vector empty_vector) \<le> 2 * k + 4"
proof -
  have "k = 0 \<or> k = 1 \<or> k = 2" using assms by auto
  then show ?thesis
    by (elim disjE) (simp_all add: capacity_after_def push_back_def clear_vector_def empty_vector_def libstdcxx_grow_def
        numeral_eq_Suc)
qed

lemma option_pointers_dangle:
  assumes "length (show_int (hp_monte_carlo_runs (pm_host_params m))) \<le> 15"
  shows "\<exists>i<length (option_strings (get_options m)).
    option_strings (get_options m) ! i = show_int (hp_monte_carlo_runs (pm_host_params m)) \<and>
    deref (snd (get_option_pointers libstdcxx_grow 15 m empty_vector))
      (fst (get_option_pointers libstdcxx_grow 15 m empty_vector) ! i) = None"
proof -
  let ?runs = "show_int (hp_monte_carlo_runs (pm_host_params m))" and ?v = "clear_vector empty_vector"
  obtain pre post where o: "get_options m = pre @ (''monte_carlo_runs'', ?runs) # post" "length pre \<le> 2" "4 \<le> length post"
    by (rule get_options_prefix)
  define xs where "xs = option_strings (get_options m)"
  let ?i = "2 * length pre + 1"
  have two: "length (option_strings ys) = 2 * length ys" for ys by (induction ys) (auto simp: option_strings_def)
  have len: "length xs = 2 * length pre + 2 + 2 * length post" by (simp add: xs_def two o(1))
  have nth: "xs ! ?i = ?runs" using two [of pre] by (simp add: xs_def o(1) nth_append option_strings_def)
  have "capacity_after libstdcxx_grow (take (Suc ?i) xs) ?v = capacity_after libstdcxx_grow (replicate (2 * length pre + 2) []) ?v"
    by (rule capacity_after_length) (simp_all add: len)
  then have "capacity_after libstdcxx_grow (take (Suc ?i) xs) ?v < length xs"
    using libstdcxx_capacities [OF o(2)] o(3) len by linarith
  moreover have "?i < length xs" "\<And>n. n < libstdcxx_grow n" "vector_ok ?v" "sv_strings ?v = []"
    by (simp_all add: len libstdcxx_grow_def vector_ok_def clear_vector_def)
  ultimately have "deref (snd (store_strings libstdcxx_grow 15 xs ?v)) (fst (store_strings libstdcxx_grow 15 xs ?v) ! ?i) = None"
    using stored_string_survives [of libstdcxx_grow ?v ?i xs 15] assms nth by simp
  then show ?thesis
    using nth \<open>?i < length xs\<close> unfolding get_option_pointers_def xs_def [symmetric] by (intro exI [of _ ?i]) simp
qed

end
