(* ===== verification/Sma_Native.thy ===== *)
theory Sma_Native
  imports Manifest
begin

text \<open>
  \<^verbatim>\<open>.plugins/sma_native/sma_native.cpp\<close>: the example plugin, which follows the crossing of two moving averages.

  Its functions are on the state of the plugin; each returns the status 0 and no message, which is
  left out.  The number of bars stays below \<open>2 ^ 31\<close>, so that the size of the vector of closes fits an
  \<^verbatim>\<open>int\<close>, and the numbers in the options fit one too.
\<close>

section \<open>The plugin\<close>

record sma_state =
  sma_fast :: int
  sma_slow :: int
  sma_symbol :: string
  closes :: "f64 list"
  long_on :: bool
  entry_px :: f64
  pnl :: f64

definition new_sma_state :: sma_state where
  "new_sma_state =
     \<lparr>sma_fast = 10, sma_slow = 30, sma_symbol = [], closes = [], long_on = False, entry_px = 0, pnl = 0\<rparr>"

text \<open>The loop starts at the size minus the window: with a window that is not positive it adds nothing.\<close>

definition sma :: "f64 list \<Rightarrow> int \<Rightarrow> f64" where
  "sma v w =
     (if int (length v) < w then 0
      else fold (\<lambda>x s. s + x) (drop (nat (int (length v) - w)) v) 0 / f64_of_int w)"

definition init_option :: "string \<times> string \<Rightarrow> sma_state \<Rightarrow> sma_state" where
  "init_option kv S =
     (if fst kv = ''fast'' then S\<lparr>sma_fast := fst (strtol (snd kv))\<rparr>
      else if fst kv = ''slow'' then S\<lparr>sma_slow := fst (strtol (snd kv))\<rparr>
      else if fst kv = ''symbol'' then S\<lparr>sma_symbol := snd kv\<rparr>
      else S)"

definition init_fn :: "(string \<times> string) list option \<Rightarrow> sma_state \<Rightarrow> sma_state" where
  "init_fn opts S = (case opts of None \<Rightarrow> S | Some items \<Rightarrow> fold init_option items S)"

definition on_bar_fn :: "bar \<Rightarrow> sma_state \<Rightarrow> sma_state" where
  "on_bar_fn b S0 =
     (let S = S0\<lparr>closes := closes S0 @ [bar_close b]\<rparr>;
          f = sma (closes S) (sma_fast S);
          s = sma (closes S) (sma_slow S)
      in if f64_eq f 0 \<or> f64_eq s 0 then S
         else if \<not> long_on S \<and> s < f then S\<lparr>long_on := True, entry_px := bar_close b\<rparr>
         else if long_on S \<and> f < s then S\<lparr>pnl := pnl S + (bar_close b - entry_px S), long_on := False\<rparr>
         else S)"

definition finalize_state :: "sma_state \<Rightarrow> sma_state" where
  "finalize_state S =
     (if long_on S \<and> closes S \<noteq> [] then S\<lparr>pnl := pnl S + (last (closes S) - entry_px S), long_on := False\<rparr> else S)"

definition finalize_fn :: "sma_state \<Rightarrow> string \<times> sma_state" where
  "finalize_fn S0 =
     (let S = finalize_state S0
      in (''{'' @ [CHR 0x22] @ ''symbol'' @ [CHR 0x22] @ '':'' @ [CHR 0x22] @ sma_symbol S @ [CHR 0x22] @ '','' @ [CHR 0x22] @ ''pnl'' @
          [CHR 0x22] @ '':'' @ show_double (pnl S) @ '','' @ [CHR 0x22] @ ''fast'' @ [CHR 0x22] @ '':'' @ show_int (sma_fast S) @
          '','' @ [CHR 0x22] @ ''slow'' @ [CHR 0x22] @ '':'' @ show_int (sma_slow S) @ ''}'', S))"

section \<open>Round trips\<close>

text \<open>
  What the strategy means: the averages of every prefix of the closes give a signal; a flat strategy
  enters at the close of an upward signal, a long one leaves at the close of a downward signal, and what
  is open at the end is closed at the last price.
\<close>

datatype crossing = Above | Below | Neither

definition crossing_of :: "int \<Rightarrow> int \<Rightarrow> f64 list \<Rightarrow> crossing" where
  "crossing_of w_fast w_slow prices =
     (let f = sma prices w_fast; s = sma prices w_slow in
      if f64_eq f 0 \<or> f64_eq s 0 then Neither else if s < f then Above else if f < s then Below else Neither)"

definition signals :: "int \<Rightarrow> int \<Rightarrow> f64 list \<Rightarrow> (crossing \<times> f64) list" where
  "signals w_fast w_slow prices =
     map (\<lambda>i. (crossing_of w_fast w_slow (take (Suc i) prices), prices ! i)) [0..<length prices]"

fun round_trips :: "f64 option \<Rightarrow> (crossing \<times> f64) list \<Rightarrow> (f64 \<times> f64) list \<times> f64 option" where
  "round_trips held [] = ([], held)"
| "round_trips None ((Above, p) # sigs) = round_trips (Some p) sigs"
| "round_trips (Some e) ((Below, p) # sigs) = (let (trips, held) = round_trips None sigs in ((e, p) # trips, held))"
| "round_trips held ((c, p) # sigs) = round_trips held sigs"

definition profit :: "(f64 \<times> f64) list \<Rightarrow> f64 \<Rightarrow> f64" where
  "profit trips p = fold (\<lambda>(e, x) p. p + (x - e)) trips p"

lemma f64_less_asym: "(a::f64) < b \<Longrightarrow> \<not> b < a"
  by (cases a; cases b) (simp_all add: less_f64_def)

lemma on_bar_crossing:
  "on_bar_fn b S =
     (let S' = S\<lparr>closes := closes S @ [bar_close b]\<rparr> in
      case (crossing_of (sma_fast S) (sma_slow S) (closes S @ [bar_close b]), long_on S) of
        (Above, False) \<Rightarrow> S'\<lparr>long_on := True, entry_px := bar_close b\<rparr>
      | (Below, True) \<Rightarrow> S'\<lparr>pnl := pnl S + (bar_close b - entry_px S), long_on := False\<rparr>
      | _ \<Rightarrow> S')"
  by (auto simp: on_bar_fn_def crossing_of_def Let_def dest: f64_less_asym)

lemma signals_snoc:
  "signals w_fast w_slow (ps @ [p]) = signals w_fast w_slow ps @ [(crossing_of w_fast w_slow (ps @ [p]), p)]"
  by (simp add: signals_def nth_append)

lemma round_trips_snoc:
  "round_trips held (sigs @ [(c, p)]) =
     (let (trips, h) = round_trips held sigs in
      case (c, h) of (Above, None) \<Rightarrow> (trips, Some p) | (Below, Some e) \<Rightarrow> (trips @ [(e, p)], None) | _ \<Rightarrow> (trips, h))"
proof (induction held sigs rule: round_trips.induct)
  case (1 held)
  then show ?case by (cases held; cases c) simp_all
qed (auto simp: Let_def split: prod.splits crossing.splits option.splits)

text \<open>The state after some bars, in terms of the round trips of their closes.\<close>

definition follows :: "sma_state \<Rightarrow> bool" where
  "follows S \<longleftrightarrow>
     (case round_trips None (signals (sma_fast S) (sma_slow S) (closes S)) of
        (trips, held) \<Rightarrow> pnl S = profit trips 0 \<and> (if long_on S then held = Some (entry_px S) else held = None))"

lemma on_bar_settings [simp]:
  "sma_fast (on_bar_fn b S) = sma_fast S" "sma_slow (on_bar_fn b S) = sma_slow S"
  "closes (on_bar_fn b S) = closes S @ [bar_close b]"
  by (simp_all add: on_bar_fn_def Let_def)

lemma follows_on_bar: "follows S \<Longrightarrow> follows (on_bar_fn b S)"
  unfolding follows_def on_bar_settings signals_snoc round_trips_snoc
  by (auto simp: on_bar_crossing Let_def profit_def split: prod.splits crossing.splits bool.splits option.splits if_splits)

lemma follows_bars: "follows S \<Longrightarrow> follows (fold on_bar_fn bs S) \<and> closes (fold on_bar_fn bs S) = closes S @ map bar_close bs \<and>
    sma_fast (fold on_bar_fn bs S) = sma_fast S \<and> sma_slow (fold on_bar_fn bs S) = sma_slow S"
  by (induction bs arbitrary: S) (simp_all add: follows_on_bar)

lemma init_option_trading [simp]:
  "closes (init_option kv S) = closes S" "long_on (init_option kv S) = long_on S" "pnl (init_option kv S) = pnl S"
  by (simp_all add: init_option_def)

lemma init_fn_trading [simp]:
  "closes (init_fn opts S) = closes S" "long_on (init_fn opts S) = long_on S" "pnl (init_fn opts S) = pnl S"
proof -
  have "closes (fold init_option kvs S) = closes S \<and> long_on (fold init_option kvs S) = long_on S \<and>
      pnl (fold init_option kvs S) = pnl S" for kvs
    by (induction kvs arbitrary: S) simp_all
  then show "closes (init_fn opts S) = closes S" "long_on (init_fn opts S) = long_on S" "pnl (init_fn opts S) = pnl S"
    by (simp_all add: init_fn_def split: option.split)
qed

section \<open>Properties\<close>

text \<open>C34: The profit the example plugin reports is that of its round trips.  With whatever options it was initialised and
  whatever bars it has seen, the profit after finalising adds exit minus entry over the round trips that the
  crossings of the two averages define, the trip that is still open closed at the last price.\<close>

theorem sma_profit_of_round_trips:
  "let S = fold on_bar_fn bs (init_fn opts new_sma_state) in
     pnl (snd (finalize_fn S)) =
       (case round_trips None (signals (sma_fast S) (sma_slow S) (map bar_close bs)) of
          (trips, None) \<Rightarrow> profit trips 0
        | (trips, Some e) \<Rightarrow> profit (trips @ [(e, bar_close (last bs))]) 0)"
proof -
  define S where "S = fold on_bar_fn bs (init_fn opts new_sma_state)"
  have "follows (init_fn opts new_sma_state)" by (simp add: follows_def signals_def profit_def new_sma_state_def)
  then have f: "follows S" and c: "closes S = map bar_close bs"
    using follows_bars [of "init_fn opts new_sma_state" bs] by (simp_all add: S_def new_sma_state_def)
  obtain trips held where r: "round_trips None (signals (sma_fast S) (sma_slow S) (map bar_close bs)) = (trips, held)"
    by (cases "round_trips None (signals (sma_fast S) (sma_slow S) (map bar_close bs))")
  have "held = None" if "bs = []" using r that by (simp add: signals_def)
  then show ?thesis
    using f r unfolding follows_def c S_def [symmetric] Let_def
    by (cases "bs = []") (auto simp: finalize_fn_def finalize_state_def Let_def c profit_def last_map)
qed

end
