(* ===== verification/Stores.thy ===== *)
theory Stores
  imports Stock_Api Engine
begin

text \<open>
  \<^verbatim>\<open>forge/stores\<close> and \<^verbatim>\<open>simulators/monte_carlo\<close>: the stores of bars and of reports that the tasks of the
  engine share.

  A store guards its maps with a \<^verbatim>\<open>std::mutex\<close>, which a thread must not lock twice: an operation
  takes whether the calling thread holds the mutex already, and if it does it blocks forever.
  An unordered map is an ordered one here; only the order of iteration differs.  \<^verbatim>\<open>std::sort\<close> is
  not stable, so the sorting is a parameter.
\<close>

section \<open>Operations under a mutex\<close>

datatype 'a locked = Blocked | Returned 'a

definition lock_guard :: "bool \<Rightarrow> 'a locked \<Rightarrow> 'a locked" where
  "lock_guard held guarded = (if held then Blocked else guarded)"

definition bindL :: "'a locked \<Rightarrow> ('a \<Rightarrow> 'b locked) \<Rightarrow> 'b locked" where
  "bindL x f = (case x of Blocked \<Rightarrow> Blocked | Returned a \<Rightarrow> f a)"

section \<open>The data store\<close>

record data_store =
  ds_bars :: "(string, (string, aggregate_bars) omap) omap"
  ds_iterable :: "(string, bar list) omap"

definition empty_data_store :: data_store where
  "empty_data_store = \<lparr>ds_bars = omap_empty, ds_iterable = omap_empty\<rparr>"

definition store_bars_by_plugin_name ::
  "bool \<Rightarrow> string \<Rightarrow> string \<Rightarrow> aggregate_bars \<Rightarrow> data_store \<Rightarrow> data_store locked" where
  "store_bars_by_plugin_name held plugin_name symbol bars ds =
     lock_guard held
       (let m = ds_bars ds;
            m1 = (if omap_find m plugin_name = None then omap_upd plugin_name omap_empty m else m);
            inner = value_or (omap_find m1 plugin_name) omap_empty
        in Returned (ds\<lparr>ds_bars := omap_upd plugin_name (omap_upd symbol bars inner) m1\<rparr>))"

definition get_bars :: "bool \<Rightarrow> string \<Rightarrow> string \<Rightarrow> data_store \<Rightarrow> aggregate_bars option locked" where
  "get_bars held plugin_name symbol ds =
     lock_guard held
       (Returned (case omap_find (ds_bars ds) plugin_name of
          None \<Rightarrow> None
        | Some m \<Rightarrow> omap_find m symbol))"

definition get_all_bars_for_plugin :: "bool \<Rightarrow> string \<Rightarrow> data_store \<Rightarrow> (string, aggregate_bars) omap option locked" where
  "get_all_bars_for_plugin held plugin_name ds = lock_guard held (Returned (omap_find (ds_bars ds) plugin_name))"

definition get_symbols_for_plugin :: "bool \<Rightarrow> string \<Rightarrow> data_store \<Rightarrow> string list locked" where
  "get_symbols_for_plugin held plugin_name ds =
     lock_guard held
       (Returned (case omap_find (ds_bars ds) plugin_name of None \<Rightarrow> [] | Some m \<Rightarrow> map fst m))"

definition has_plugin_data :: "bool \<Rightarrow> string \<Rightarrow> data_store \<Rightarrow> bool locked" where
  "has_plugin_data held plugin_name ds = lock_guard held (Returned (omap_has (ds_bars ds) plugin_name))"

definition clear_data_store :: "bool \<Rightarrow> data_store \<Rightarrow> data_store locked" where
  "clear_data_store held ds = lock_guard held (Returned \<lparr>ds_bars = omap_empty, ds_iterable = omap_empty\<rparr>)"

definition has_iterable_plugin_data :: "bool \<Rightarrow> string \<Rightarrow> data_store \<Rightarrow> bool locked" where
  "has_iterable_plugin_data held plugin_name ds = lock_guard held (Returned (omap_has (ds_iterable ds) plugin_name))"

definition create_iterable_plugin_data ::
  "(bar list \<Rightarrow> bar list) \<Rightarrow> bool \<Rightarrow> string \<Rightarrow> data_store \<Rightarrow> data_store locked" where
  "create_iterable_plugin_data std_sort held plugin_name ds =
     lock_guard held
       (bindL (has_iterable_plugin_data True plugin_name ds) (\<lambda>has.
          if has then Returned ds
          else bindL (get_all_bars_for_plugin True plugin_name ds) (\<lambda>bars.
            case bars of
              None \<Rightarrow> Returned ds
            | Some m \<Rightarrow>
                Returned (ds\<lparr>ds_iterable := omap_upd plugin_name (std_sort (concat (map (results \<circ> snd) m)))
                               (ds_iterable ds)\<rparr>))))"

definition get_iterable_plugin_data ::
  "(bar list \<Rightarrow> bar list) \<Rightarrow> bool \<Rightarrow> string \<Rightarrow> data_store \<Rightarrow> (data_store \<times> bar list result) locked" where
  "get_iterable_plugin_data std_sort held plugin_name ds =
     lock_guard held
       (bindL (has_iterable_plugin_data True plugin_name ds) (\<lambda>has.
        bindL (if has then Returned ds else create_iterable_plugin_data std_sort True plugin_name ds) (\<lambda>ds1.
          Returned (ds1, omap_at (ds_iterable ds1) plugin_name))))"

section \<open>The report store\<close>

record monte_carlo_report =
  mc_some_value :: string
  mc_another_value :: string

record report_store =
  back_test_reports :: "(string, back_test_report) omap"
  monte_carlo_reports :: "(string, monte_carlo_report) omap"

definition empty_report_store :: report_store where
  "empty_report_store = \<lparr>back_test_reports = omap_empty, monte_carlo_reports = omap_empty\<rparr>"

definition store_back_test_report :: "string \<Rightarrow> back_test_report \<Rightarrow> report_store \<Rightarrow> report_store" where
  "store_back_test_report plugin_name report rs =
     rs\<lparr>back_test_reports := omap_upd plugin_name report (back_test_reports rs)\<rparr>"

definition store_monte_carlo_report :: "string \<Rightarrow> monte_carlo_report \<Rightarrow> report_store \<Rightarrow> report_store" where
  "store_monte_carlo_report plugin_name report rs =
     rs\<lparr>monte_carlo_reports := omap_upd plugin_name report (monte_carlo_reports rs)\<rparr>"

definition get_back_test_reports :: "report_store \<Rightarrow> back_test_report list" where
  "get_back_test_reports rs = map snd (back_test_reports rs)"

definition get_monte_carlo_reports :: "report_store \<Rightarrow> monte_carlo_report list" where
  "get_monte_carlo_reports rs = map snd (monte_carlo_reports rs)"

text \<open>\<^verbatim>\<open>MonteCarloEngine::run\<close> fills in a fixed report.\<close>

definition monte_carlo_run :: monte_carlo_report where
  "monte_carlo_run = \<lparr>mc_some_value = ''some_value'', mc_another_value = ''another_value''\<rparr>"

section \<open>What the stores return\<close>

text \<open>Stored bars are returned for their plugin and symbol, and other pairs keep theirs.\<close>

lemma stored_bars_are_returned:
  obtains ds' where "store_bars_by_plugin_name False plugin symbol bars ds = Returned ds'"
    "\<And>p s. get_bars False p s ds' = (if p = plugin \<and> s = symbol then Returned (Some bars) else get_bars False p s ds)"
  by (auto simp: store_bars_by_plugin_name_def get_bars_def lock_guard_def Let_def split: option.splits)

lemma has_plugin_data_stored:
  "store_bars_by_plugin_name False plugin symbol bars ds = Returned ds' \<Longrightarrow>
     has_plugin_data False p ds' = Returned (p = plugin \<or> omap_has (ds_bars ds) p)"
  by (auto simp: store_bars_by_plugin_name_def has_plugin_data_def lock_guard_def Let_def omap_has_def split: if_splits)

text \<open>Another operation is called while the mutex is held.\<close>

lemma iterable_data_blocks: "get_iterable_plugin_data std_sort held plugin ds = Blocked"
  by (simp add: get_iterable_plugin_data_def has_iterable_plugin_data_def lock_guard_def bindL_def)

end
