(* ===== verification/Plugin_Manager.thy ===== *)
theory Plugin_Manager
  imports Python_Loader
begin

text \<open>
  \<^verbatim>\<open>plugins/manager/plugin_manager.cpp\<close>: finding the requested plugins in a directory, loading them and
  keeping them by name.

  The manager works on the interface \<^verbatim>\<open>IPluginLoader\<close>: the operations it calls are a record of
  functions on a loader \<open>'l\<close>, with the two ways it makes a loader.  The contract of these operations, that
  they keep the name of the manifest, is the locale \<open>loader_contract\<close>.  The directory is the list of its
  entries, each a path and whether it is a directory, and \<open>text_of\<close> gives the text of a regular file.
  The map by name is unordered in the code; only the order of iteration differs here.
\<close>

section \<open>The manager\<close>

record 'l loader_interface =
  il_python :: "plugin_manifest \<Rightarrow> 'l"
  il_native :: "plugin_manifest \<Rightarrow> 'l"
  il_load_plugin :: "int \<Rightarrow> 'l \<Rightarrow> unit result \<times> 'l"
  il_on_init :: "'l \<Rightarrow> unit result \<times> 'l"
  il_get_plugin_name :: "'l \<Rightarrow> string"
  il_unload_plugin :: "'l \<Rightarrow> 'l"

record 'l plugin_manager =
  mgr_api_version :: int
  mgr_plugins :: "(string, 'l) omap"
  mgr_plugin_names :: "string list"

definition new_plugin_manager :: "string list \<Rightarrow> 'l plugin_manager" where
  "new_plugin_manager plugin_names =
     \<lparr>mgr_api_version = PLUGIN_API_VERSION, mgr_plugins = omap_empty, mgr_plugin_names = plugin_names\<rparr>"

definition make_loader :: "'l loader_interface \<Rightarrow> plugin_manifest \<Rightarrow> 'l result" where
  "make_loader il m =
     (if is_python m then Inr (il_python il m)
      else if is_native m then Inr (il_native il m)
      else Inl (Runtime_error ''Unknown plugin kind in manifest''))"

text \<open>\<^verbatim>\<open>unordered_map::emplace\<close> keeps an entry that is there.\<close>

definition emplace :: "string \<Rightarrow> 'l \<Rightarrow> (string, 'l) omap \<Rightarrow> (string, 'l) omap" where
  "emplace k v m = (if omap_has m k then m else omap_upd k v m)"

definition start_loader :: "'l loader_interface \<Rightarrow> int \<Rightarrow> plugin_manifest \<Rightarrow> 'l result" where
  "start_loader il ctx m =
     bindR (make_loader il m) (\<lambda>loader.
     let (loaded, loader) = il_load_plugin il ctx loader in
     bindR loaded (\<lambda>_.
     let (initialized, loader) = il_on_init il loader in
     bindR initialized (\<lambda>_. Inr loader)))"

definition load_dir_entry ::
  "'j manifest_json \<Rightarrow> (string \<Rightarrow> string option) \<Rightarrow> 'l loader_interface \<Rightarrow> string \<times> bool \<Rightarrow> 'l plugin_manager \<Rightarrow>
   'l plugin_manager result" where
  "load_dir_entry api text_of il dir mgr =
     (if \<not> snd dir then Inr mgr
      else
        bindR (load_from_file api text_of (fst dir)) (\<lambda>document.
        bindR (parse_json api document) (\<lambda>plugin_manifest.
          if \<not> is_one_of (mgr_plugin_names mgr) plugin_manifest then Inr mgr
          else
            bindR (start_loader il (mgr_api_version mgr) plugin_manifest) (\<lambda>loader.
              Inr (mgr\<lparr>mgr_plugins := emplace (il_get_plugin_name il loader) loader (mgr_plugins mgr)\<rparr>)))))"

text \<open>The manager as it is when the loop ends, together with the exception that ended it.\<close>

fun load_dir_entries ::
  "'j manifest_json \<Rightarrow> (string \<Rightarrow> string option) \<Rightarrow> 'l loader_interface \<Rightarrow> (string \<times> bool) list \<Rightarrow> 'l plugin_manager \<Rightarrow>
   unit result \<times> 'l plugin_manager" where
  "load_dir_entries api text_of il [] mgr = (Inr (), mgr)"
| "load_dir_entries api text_of il (dir # dirs) mgr =
     (case load_dir_entry api text_of il dir mgr of
        Inl x \<Rightarrow> (Inl x, mgr)
      | Inr mgr' \<Rightarrow> load_dir_entries api text_of il dirs mgr')"

definition load_plugins_from_dir ::
  "'j manifest_json \<Rightarrow> (string \<Rightarrow> string option) \<Rightarrow> 'l loader_interface \<Rightarrow> (string \<times> bool) list \<Rightarrow> 'l plugin_manager \<Rightarrow>
   unit result \<times> 'l plugin_manager" where
  "load_plugins_from_dir api text_of il root_entries mgr =
     (if mgr_plugin_names mgr = [] then (Inl (Runtime_error ''No plugin names provided to load''), mgr)
      else load_dir_entries api text_of il root_entries mgr)"

definition with_plugins :: "('l \<Rightarrow> 's \<Rightarrow> 's) \<Rightarrow> 'l plugin_manager \<Rightarrow> 's \<Rightarrow> 's" where
  "with_plugins func mgr s = fold (\<lambda>(plugin_name, loader). func loader) (mgr_plugins mgr) s"

text \<open>The destructor goes through the map of the kept plugins and unloads each of them.\<close>

definition destroy_manager :: "'l loader_interface \<Rightarrow> 'l plugin_manager \<Rightarrow> 'l plugin_manager" where
  "destroy_manager il mgr =
     mgr\<lparr>mgr_plugins := map (\<lambda>(plugin_name, loader). (plugin_name, il_unload_plugin il loader)) (mgr_plugins mgr)\<rparr>"

section \<open>The two loaders behind the interface\<close>

datatype ('h, 'p, 'o) loader = Native "('h, 'p) native_loader" | Python "'o python_loader"

definition loader_load_plugin ::
  "('h, 'p) linker \<Rightarrow> ('o, 'v) python \<Rightarrow> int \<Rightarrow> ('h, 'p, 'o) loader \<Rightarrow> unit result \<times> ('h, 'p, 'o) loader" where
  "loader_load_plugin dl py ctx l =
     (case l of Native n \<Rightarrow> map_prod id Native (load_plugin dl ctx n) | Python p \<Rightarrow> map_prod id Python (py_load_plugin py ctx p))"

definition loader_on_init :: "('h, 'p, 'o) loader \<Rightarrow> unit result \<times> ('h, 'p, 'o) loader" where
  "loader_on_init l =
     (case l of Native n \<Rightarrow> map_prod id Native (on_init n) | Python p \<Rightarrow> map_prod id Python (py_on_init p))"

definition loader_name :: "('h, 'p, 'o) loader \<Rightarrow> string" where
  "loader_name l = (case l of Native n \<Rightarrow> get_plugin_name n | Python p \<Rightarrow> pm_name (pl_manifest p))"

definition loader_unload_plugin :: "('h, 'p, 'o) loader \<Rightarrow> ('h, 'p, 'o) loader" where
  "loader_unload_plugin l =
     (case l of Native n \<Rightarrow> Native (unload_plugin n) | Python p \<Rightarrow> Python (py_unload_plugin p))"

definition loader_on_start :: "('h, 'p, 'o) loader \<Rightarrow> plugin_result result \<times> ('h, 'p, 'o) loader" where
  "loader_on_start l =
     (case l of Native n \<Rightarrow> map_prod id Native (on_start n) | Python p \<Rightarrow> map_prod id Python (py_on_start p))"

definition loader_on_bar ::
  "('h, 'p, 'o) loader \<Rightarrow> bar \<Rightarrow> cstate \<Rightarrow> plugin_result result \<times> ('h, 'p, 'o) loader" where
  "loader_on_bar l b st =
     (case l of Native n \<Rightarrow> map_prod id Native (on_bar n b st) | Python p \<Rightarrow> map_prod id Python (py_on_bar p b st))"

definition loader_on_end ::
  "('h, 'p, 'o) loader \<Rightarrow> plugin_result result \<times> string option \<times> ('h, 'p, 'o) loader" where
  "loader_on_end l =
     (case l of Native n \<Rightarrow> map_prod id (map_prod id Native) (on_end n)
      | Python p \<Rightarrow> map_prod id (map_prod id Python) (py_on_end p))"

definition loader_free_string :: "('h, 'p, 'o) loader \<Rightarrow> string option \<Rightarrow> ('h, 'p, 'o) loader" where
  "loader_free_string l str =
     (case l of Native n \<Rightarrow> Native (free_string n str) | Python p \<Rightarrow> Python (py_free_string p str))"

definition loader_host_params :: "('h, 'p, 'o) loader \<Rightarrow> host_params" where
  "loader_host_params l = (case l of Native n \<Rightarrow> get_host_params n | Python p \<Rightarrow> pm_host_params (pl_manifest p))"

definition loader_ops :: "('h, 'p) linker \<Rightarrow> ('o, 'v) python \<Rightarrow> ('h, 'p, 'o) loader loader_interface" where
  "loader_ops dl py =
     \<lparr>il_python = Python \<circ> new_python_loader, il_native = Native \<circ> new_native_loader,
      il_load_plugin = loader_load_plugin dl py, il_on_init = loader_on_init, il_get_plugin_name = loader_name,
      il_unload_plugin = loader_unload_plugin\<rparr>"

section \<open>What the manager keeps\<close>

text \<open>
  Every plugin is kept under the name of its manifest, which was asked for and read from a directory
  among \<open>entries\<close>.
\<close>

definition manifest_in :: "'j manifest_json \<Rightarrow> (string \<Rightarrow> string option) \<Rightarrow> string \<Rightarrow> plugin_manifest result" where
  "manifest_in api text_of path = bindR (load_from_file api text_of path) (parse_json api)"

definition kept_plugin ::
  "('l \<Rightarrow> plugin_manifest) \<Rightarrow> 'j manifest_json \<Rightarrow> (string \<Rightarrow> string option) \<Rightarrow> (string \<times> bool) list \<Rightarrow> string list \<Rightarrow>
   string \<Rightarrow> 'l \<Rightarrow> bool" where
  "kept_plugin manifest api text_of entries names k l \<longleftrightarrow>
     k = pm_name (manifest l) \<and> k \<in> set names \<and>
     list_ex (\<lambda>(path, is_dir). is_dir \<and> manifest_in api text_of path = Inr (manifest l)) entries"

definition kept_ok ::
  "('l \<Rightarrow> plugin_manifest) \<Rightarrow> 'j manifest_json \<Rightarrow> (string \<Rightarrow> string option) \<Rightarrow> (string \<times> bool) list \<Rightarrow>
   'l plugin_manager \<Rightarrow> bool" where
  "kept_ok manifest api text_of entries mgr \<longleftrightarrow>
     list_all (\<lambda>(k, l). kept_plugin manifest api text_of entries (mgr_plugin_names mgr) k l) (mgr_plugins mgr)"

text \<open>A directory has been dealt with: its manifest is not asked for or a plugin of its name is kept.\<close>

definition dealt_with ::
  "'j manifest_json \<Rightarrow> (string \<Rightarrow> string option) \<Rightarrow> 'l plugin_manager \<Rightarrow> string \<times> bool \<Rightarrow> bool" where
  "dealt_with api text_of mgr dir \<longleftrightarrow>
     (snd dir \<longrightarrow> (case manifest_in api text_of (fst dir) of
        Inl x \<Rightarrow> False
      | Inr m \<Rightarrow> pm_name m \<in> set (mgr_plugin_names mgr) \<longrightarrow> omap_has (mgr_plugins mgr) (pm_name m)))"

text \<open>A step of the loop that goes on either skips the entry or keeps a plugin.\<close>

lemma load_dir_entry_eq:
  "load_dir_entry api text_of il dir mgr =
     (if \<not> snd dir then Inr mgr
      else bindR (manifest_in api text_of (fst dir)) (\<lambda>m.
        if pm_name m \<notin> set (mgr_plugin_names mgr) then Inr mgr
        else bindR (start_loader il (mgr_api_version mgr) m) (\<lambda>loader.
          Inr (mgr\<lparr>mgr_plugins := emplace (il_get_plugin_name il loader) loader (mgr_plugins mgr)\<rparr>))))"
proof -
  have "is_one_of ns m \<longleftrightarrow> pm_name m \<in> set ns" for ns m by (simp add: is_one_of_def list_ex_iff)
  then show ?thesis
    by (cases "load_from_file api text_of (fst dir)") (simp_all add: load_dir_entry_def manifest_in_def)
qed

lemma load_dir_entry_cases:
  assumes "load_dir_entry api text_of il dir mgr = Inr mgr'"
  obtains (Skipped) "mgr' = mgr" "dealt_with api text_of mgr dir"
  | (Kept) m l where "snd dir" "manifest_in api text_of (fst dir) = Inr m" "pm_name m \<in> set (mgr_plugin_names mgr)"
      "start_loader il (mgr_api_version mgr) m = Inr l"
      "mgr' = mgr\<lparr>mgr_plugins := emplace (il_get_plugin_name il l) l (mgr_plugins mgr)\<rparr>"
proof (cases "snd dir")
  case dir: True
  then obtain m where m: "manifest_in api text_of (fst dir) = Inr m"
    using assms by (cases "manifest_in api text_of (fst dir)") (simp_all add: load_dir_entry_eq)
  show thesis
  proof (cases "pm_name m \<in> set (mgr_plugin_names mgr)")
    case False
    then have "mgr' = mgr" "dealt_with api text_of mgr dir"
      using assms dir m by (simp_all add: load_dir_entry_eq dealt_with_def)
    then show thesis by (rule Skipped)
  next
    case True
    then obtain l where "start_loader il (mgr_api_version mgr) m = Inr l"
      "mgr' = mgr\<lparr>mgr_plugins := emplace (il_get_plugin_name il l) l (mgr_plugins mgr)\<rparr>"
      using assms dir m by (cases "start_loader il (mgr_api_version mgr) m") (simp_all add: load_dir_entry_eq)
    then show thesis by (rule Kept [OF dir m True])
  qed
next
  case False
  then have "mgr' = mgr" "dealt_with api text_of mgr dir" using assms by (simp_all add: load_dir_entry_eq dealt_with_def)
  then show thesis by (rule Skipped)
qed

lemma omap_has_emplace [simp]: "omap_has (emplace k l m) k' \<longleftrightarrow> k' = k \<or> omap_has m k'"
  by (auto simp: emplace_def)

lemma dealt_with_emplace:
  "dealt_with api text_of mgr dir \<Longrightarrow> dealt_with api text_of (mgr\<lparr>mgr_plugins := emplace k l (mgr_plugins mgr)\<rparr>) dir"
  by (auto simp: dealt_with_def split: sum.splits)

lemma set_emplace: "set (emplace k l m) \<subseteq> insert (k, l) (set m)"
  using set_omap_upd_subset [of k l m] by (auto simp: emplace_def)

locale loader_contract =
  fixes il :: "'l loader_interface"
    and manifest :: "'l \<Rightarrow> plugin_manifest"
  assumes name_manifest: "il_get_plugin_name il l = pm_name (manifest l)"
    and manifest_python: "manifest (il_python il m) = m"
    and manifest_native: "manifest (il_native il m) = m"
    and manifest_load: "manifest (snd (il_load_plugin il ctx l)) = manifest l"
    and manifest_init: "manifest (snd (il_on_init il l)) = manifest l"
begin

lemma start_manifest: "start_loader il ctx m = Inr l \<Longrightarrow> manifest l = m"
  by (auto simp: start_loader_def make_loader_def bindR_eq_Inr split_beta Let_def manifest_python manifest_native
      manifest_load manifest_init split: if_splits)

lemma kept_entry:
  assumes "kept_ok manifest api text_of entries mgr" "dir \<in> set entries" "load_dir_entry api text_of il dir mgr = Inr mgr'"
  shows "kept_ok manifest api text_of entries mgr' \<and> mgr_plugin_names mgr' = mgr_plugin_names mgr"
  using assms(3)
proof (cases rule: load_dir_entry_cases)
  case (Kept m l)
  have "list_ex (\<lambda>(path, is_dir). is_dir \<and> manifest_in api text_of path = Inr (manifest l)) entries"
    using Kept(1,2) start_manifest [OF Kept(4)] assms(2) by (cases dir) (auto simp: list_ex_iff)
  then have "kept_plugin manifest api text_of entries (mgr_plugin_names mgr) (il_get_plugin_name il l) l"
    using Kept(3) start_manifest [OF Kept(4)] by (simp add: kept_plugin_def name_manifest)
  then have "kept_ok manifest api text_of entries mgr'"
    using assms(1) set_emplace [of "il_get_plugin_name il l" l "mgr_plugins mgr"]
    unfolding Kept(5) kept_ok_def list_all_iff by auto
  then show ?thesis by (simp add: Kept(5))
qed (use assms(1) in simp)

lemma kept_entries:
  assumes "kept_ok manifest api text_of entries mgr" "set dirs \<subseteq> set entries"
  shows "kept_ok manifest api text_of entries (snd (load_dir_entries api text_of il dirs mgr)) \<and>
    mgr_plugin_names (snd (load_dir_entries api text_of il dirs mgr)) = mgr_plugin_names mgr"
  using assms
proof (induction dirs arbitrary: mgr)
  case (Cons dir dirs)
  show ?case
  proof (cases "load_dir_entry api text_of il dir mgr")
    case (Inr mgr1)
    then show ?thesis using kept_entry [OF Cons.prems(1) _ Inr] Cons.prems(2) Cons.IH [of mgr1] by simp
  qed (use Cons.prems in simp)
qed simp

lemma kept_new: "kept_ok manifest api text_of entries (new_plugin_manager names)"
  by (simp add: kept_ok_def new_plugin_manager_def omap_empty_def)

lemma dealt_entry:
  assumes "load_dir_entry api text_of il dir mgr = Inr mgr'"
  shows "dealt_with api text_of mgr' dir \<and> (\<forall>d. dealt_with api text_of mgr d \<longrightarrow> dealt_with api text_of mgr' d)"
  using assms
proof (cases rule: load_dir_entry_cases)
  case (Kept m l)
  have "dealt_with api text_of mgr' dir"
    using Kept(2) start_manifest [OF Kept(4)] by (simp add: Kept(5) dealt_with_def name_manifest)
  then show ?thesis unfolding Kept(5) by (auto intro: dealt_with_emplace)
qed simp

lemma dealt_entries:
  "load_dir_entries api text_of il dirs mgr = (Inr (), mgr') \<Longrightarrow>
     list_all (dealt_with api text_of mgr') dirs \<and> (\<forall>d. dealt_with api text_of mgr d \<longrightarrow> dealt_with api text_of mgr' d)"
proof (induction dirs arbitrary: mgr)
  case (Cons dir dirs)
  then obtain mgr1 where "load_dir_entry api text_of il dir mgr = Inr mgr1"
    "load_dir_entries api text_of il dirs mgr1 = (Inr (), mgr')" by (auto split: sum.splits)
  then show ?case using Cons.IH [of mgr1] dealt_entry [of api text_of dir mgr mgr1] by (cases dir) simp
qed simp

end

definition loader_manifest :: "('h, 'p, 'o) loader \<Rightarrow> plugin_manifest" where
  "loader_manifest l = (case l of Native n \<Rightarrow> nl_manifest n | Python p \<Rightarrow> pl_manifest p)"

lemma native_ops_manifest [simp]:
  "nl_manifest (snd (load_plugin dl ctx n)) = nl_manifest n" "nl_manifest (snd (on_init n)) = nl_manifest n"
  by (simp_all add: load_defs on_init_def called_def record_call_def set_instance_def Let_def split_beta
      split: sum.splits option.splits)

interpretation both: loader_contract "loader_ops dl py" loader_manifest for dl py
  by unfold_locales
    (auto simp: loader_ops_def loader_manifest_def loader_name_def get_plugin_name_def loader_load_plugin_def
      loader_on_init_def new_native_loader_def new_python_loader_def split: loader.splits)

section \<open>What the manager releases\<close>

text \<open>A contract that extends the first one: a started loader is live, and unloading a live one leaves it gone.\<close>

locale loader_lifecycle = loader_contract il manifest
  for il :: "'l loader_interface" and manifest +
  fixes live gone :: "'l \<Rightarrow> bool"
  assumes start_live: "start_loader il ctx m = Inr l \<Longrightarrow> live l"
    and unload_gone: "live l \<Longrightarrow> gone (il_unload_plugin il l)"
begin

lemma live_entry:
  assumes "list_all (\<lambda>(k, l). live l) (mgr_plugins mgr)" "load_dir_entry api text_of il dir mgr = Inr mgr'"
  shows "list_all (\<lambda>(k, l). live l) (mgr_plugins mgr')"
  using assms(2)
proof (cases rule: load_dir_entry_cases)
  case (Kept m l)
  then show ?thesis
    using assms(1) start_live [OF Kept(4)] set_emplace [of "il_get_plugin_name il l" l "mgr_plugins mgr"]
    by (auto simp: list_all_iff)
qed (use assms(1) in simp)

lemma live_entries:
  "list_all (\<lambda>(k, l). live l) (mgr_plugins mgr) \<Longrightarrow>
     list_all (\<lambda>(k, l). live l) (mgr_plugins (snd (load_dir_entries api text_of il dirs mgr)))"
proof (induction dirs arbitrary: mgr)
  case (Cons dir dirs)
  show ?case
  proof (cases "load_dir_entry api text_of il dir mgr")
    case (Inr mgr1)
    then show ?thesis using live_entry [OF Cons.prems Inr] Cons.IH [of mgr1] by simp
  qed (use Cons.prems in simp)
qed simp

lemma live_loaded:
  "list_all (\<lambda>(k, l). live l) (mgr_plugins (snd (load_plugins_from_dir api text_of il entries (new_plugin_manager names))))"
  using live_entries [of "new_plugin_manager names" api text_of entries]
  by (simp add: load_plugins_from_dir_def new_plugin_manager_def omap_empty_def)

lemma destroy_gone:
  "list_all (\<lambda>(k, l). live l) (mgr_plugins mgr) \<Longrightarrow>
     list_all2 (\<lambda>(k, l) (k', l'). k' = k \<and> l' = il_unload_plugin il l \<and> gone l') (mgr_plugins mgr)
       (mgr_plugins (destroy_manager il mgr))"
  using unload_gone by (auto simp: destroy_manager_def list_all_iff list_all2_map2 list_all2_same)

end

text \<open>
  A native plugin is live while its library is open, and gone when its one \<^verbatim>\<open>destroy\<close> has been called and the library
  closed.  A Python plugin is gone when its object is deleted.
\<close>

definition python_live :: "'o python_loader \<Rightarrow> bool" where
  "python_live p \<longleftrightarrow>
     (if exp_api_version (pl_export p) = PLUGIN_API_VERSION then vt_destroy (exp_vtable (pl_export p)) \<noteq> None
      else exp_instance (pl_export p) = None)"

definition loader_live :: "('h, 'p, 'o) loader \<Rightarrow> bool" where
  "loader_live l = (case l of Native n \<Rightarrow> (\<exists>h. loaded h n) | Python p \<Rightarrow> python_live p)"

definition loader_gone :: "('h, 'p, 'o) loader \<Rightarrow> bool" where
  "loader_gone l = (case l of Native n \<Rightarrow> (\<exists>h. unloaded h n) | Python p \<Rightarrow> exp_instance (pl_export p) = None)"

text \<open>What the engine does with a kept plugin.\<close>

datatype plugin_use = Use_start | Use_bar bar cstate | Use_end | Use_free "string option"

fun use_loader :: "plugin_use \<Rightarrow> ('h, 'p, 'o) loader \<Rightarrow> ('h, 'p, 'o) loader" where
  "use_loader Use_start l = snd (loader_on_start l)"
| "use_loader (Use_bar b st) l = snd (loader_on_bar l b st)"
| "use_loader Use_end l = snd (snd (loader_on_end l))"
| "use_loader (Use_free str) l = loader_free_string l str"

lemma python_live_called [simp]: "python_live (py_called name self p) = python_live p"
  by (simp add: python_live_def py_called_def)

lemma python_live_ops:
  assumes "python_live p"
  shows "python_live (snd (py_on_init p))" "python_live (snd (py_on_start p))" "python_live (snd (py_on_bar p b st))"
    "python_live (snd (snd (py_on_end p)))" "python_live (py_free_string p str)"
    "exp_instance (pl_export (py_unload_plugin p)) = None"
proof -
  show "python_live (snd (py_on_init p))" "python_live (snd (py_on_start p))" "python_live (snd (py_on_bar p b st))"
    "python_live (snd (snd (py_on_end p)))" "python_live (py_free_string p str)"
    using assms
    by (auto simp: py_on_init_def py_on_start_def py_on_bar_def py_on_end_def py_free_string_def Let_def split_beta
        split: option.splits)
  show "exp_instance (pl_export (py_unload_plugin p)) = None"
    using assms by (simp add: py_unload_plugin_def python_live_def split: if_splits)
qed

lemma use_loader_live: "loader_live l \<Longrightarrow> loader_live (use_loader c l)"
proof (cases l)
  case (Native n)
  assume "loader_live l"
  then obtain h where h: "loaded h n" by (auto simp: loader_live_def Native)
  show ?thesis
    using loaded_ops [OF h]
    by (cases c) (auto simp: Native loader_live_def loader_on_start_def loader_on_bar_def loader_on_end_def
        loader_free_string_def)
next
  case (Python p)
  assume "loader_live l"
  then have "python_live p" by (simp add: loader_live_def Python)
  then show ?thesis
    using python_live_ops [of p]
    by (cases c) (auto simp: Python loader_live_def loader_on_start_def loader_on_bar_def loader_on_end_def
        loader_free_string_def)
qed

lemma use_loaders_live: "loader_live l \<Longrightarrow> loader_live (fold use_loader cs l)"
  by (induction cs arbitrary: l) (simp_all add: use_loader_live)

lemma start_native_live:
  assumes "load_plugin dl ctx (new_native_loader m) = (Inr (), n)"
  shows "loader_live (Native (snd (on_init n)))"
proof -
  obtain h where "loaded h n" using load_plugin_loaded [OF assms] by blast
  then have "loaded h (snd (on_init n))" by (rule loaded_ops)
  then show ?thesis by (auto simp: loader_live_def)
qed

lemma start_python_live: "loader_live (Python (snd (py_on_init (snd (py_load_plugin py ctx (new_python_loader m))))))"
proof -
  have "python_live (snd (py_load_plugin py ctx (new_python_loader m)))"
    by (auto simp: python_live_def py_load_plugin_def py_vtable_def empty_export_def PLUGIN_API_VERSION_def split: sum.split)
  then show ?thesis by (simp add: loader_live_def python_live_ops(1))
qed

lemma start_loader_live:
  assumes "start_loader (loader_ops dl py) ctx m = Inr l"
  shows "loader_live l"
proof (cases "is_python m")
  case True
  then show ?thesis
    using assms start_python_live [of py ctx m]
    by (auto simp: start_loader_def make_loader_def loader_ops_def loader_load_plugin_def loader_on_init_def bindR_eq_Inr
        Let_def split_beta)
next
  case False
  obtain r n where n: "load_plugin dl ctx (new_native_loader m) = (r, n)" by fastforce
  then show ?thesis
    using assms False start_native_live [of dl ctx m n]
    by (auto simp: start_loader_def make_loader_def loader_ops_def loader_load_plugin_def loader_on_init_def bindR_eq_Inr
        Let_def split_beta split: if_splits)
qed

lemma unload_loader_gone: "loader_live l \<Longrightarrow> loader_gone (il_unload_plugin (loader_ops dl py) l)"
  by (auto simp: loader_live_def loader_gone_def loader_ops_def loader_unload_plugin_def python_live_ops(6)
      intro: unload_loaded split: loader.splits)

interpretation life: loader_lifecycle "loader_ops dl py" loader_manifest loader_live loader_gone for dl py
  by unfold_locales (rule start_loader_live, assumption, rule unload_loader_gone, assumption)

end
