(* ===== verification/Thread_Pool.thy ===== *)
theory Thread_Pool
  imports Main "HOL-Library.Multiset"
begin

text \<open>
  \<^verbatim>\<open>utils/thread_pool.cpp\<close> as a step relation: workers that take tasks from a queue, and the thread
  that fills the queue, waits for completion and destroys the pool.

  A step is what a thread does between two points where another thread may act: taking the
  mutex, evaluating the condition of a wait, blocking (which releases the mutex at once),
  notifying, and the accesses to the atomic counter.  Blocked threads only wake when they are
  notified; the spurious wake-ups that the standard permits, but no program may rely on, are left out.  Tasks do not throw and do not use the pool.
\<close>

section \<open>State\<close>

text \<open>
  A worker is about to lock, holds the lock and looks at its condition, holds the lock and is
  about to block, is blocked, runs a task, has run it, has lowered the counter, or has returned.
\<close>

datatype 'a worker =
    W_lock
  | W_check
  | W_block
  | W_wait
  | W_run 'a
  | W_ran
  | W_lowered
  | W_exit

text \<open>
  The owner has tasks to enqueue, has put one in the queue and will notify, is about to lock in
  \<^verbatim>\<open>wait_all\<close>, looks at the condition, is about to block, is blocked, has returned from \<^verbatim>\<open>wait_all\<close>,
  has set the stop flag, joins the workers, or is through.
\<close>

datatype 'a owner =
    O_enqueue "'a list"
  | O_notify "'a list"
  | O_lock
  | O_check
  | O_block
  | O_wait
  | O_done
  | O_stopped
  | O_join
  | O_end

record 'a pool =
  tasks :: "'a list"
  locked :: bool
  stop :: bool
  active_tasks :: nat
  workers :: "'a worker list"
  owner :: "'a owner"
  finished :: "'a list"

definition new_pool :: "nat \<Rightarrow> 'a list \<Rightarrow> 'a pool" where
  "new_pool num_threads submitted =
     \<lparr>tasks = [], locked = False, stop = False, active_tasks = 0, workers = replicate num_threads W_lock,
      owner = O_enqueue submitted, finished = []\<rparr>"

definition wake_worker :: "'a worker \<Rightarrow> 'a worker" where
  "wake_worker w = (if w = W_wait then W_lock else w)"

definition wake_owner :: "'a owner \<Rightarrow> 'a owner" where
  "wake_owner m = (if m = O_wait then O_lock else m)"

section \<open>Steps\<close>

inductive pool_step :: "'a pool \<Rightarrow> 'a pool \<Rightarrow> bool" where
  worker_lock: "i < length (workers p) \<Longrightarrow> workers p ! i = W_lock \<Longrightarrow> \<not> locked p \<Longrightarrow>
    pool_step p (p\<lparr>locked := True, workers := (workers p)[i := W_check]\<rparr>)"
| worker_not_ready: "i < length (workers p) \<Longrightarrow> workers p ! i = W_check \<Longrightarrow> tasks p = [] \<Longrightarrow> \<not> stop p \<Longrightarrow>
    pool_step p (p\<lparr>workers := (workers p)[i := W_block]\<rparr>)"
| worker_block: "i < length (workers p) \<Longrightarrow> workers p ! i = W_block \<Longrightarrow>
    pool_step p (p\<lparr>locked := False, workers := (workers p)[i := W_wait]\<rparr>)"
| worker_return: "i < length (workers p) \<Longrightarrow> workers p ! i = W_check \<Longrightarrow> tasks p = [] \<Longrightarrow> stop p \<Longrightarrow>
    pool_step p (p\<lparr>locked := False, workers := (workers p)[i := W_exit]\<rparr>)"
| worker_take: "i < length (workers p) \<Longrightarrow> workers p ! i = W_check \<Longrightarrow> tasks p = t # ts \<Longrightarrow>
    pool_step p (p\<lparr>tasks := ts, locked := False, active_tasks := Suc (active_tasks p),
      workers := (workers p)[i := W_run t]\<rparr>)"
| worker_run: "i < length (workers p) \<Longrightarrow> workers p ! i = W_run t \<Longrightarrow>
    pool_step p (p\<lparr>workers := (workers p)[i := W_ran], finished := finished p @ [t]\<rparr>)"
| worker_lower: "i < length (workers p) \<Longrightarrow> workers p ! i = W_ran \<Longrightarrow>
    pool_step p (p\<lparr>active_tasks := active_tasks p - 1, workers := (workers p)[i := W_lowered]\<rparr>)"
| worker_notify: "i < length (workers p) \<Longrightarrow> workers p ! i = W_lowered \<Longrightarrow>
    pool_step p (p\<lparr>workers := (workers p)[i := W_lock], owner := wake_owner (owner p)\<rparr>)"
| owner_enqueue: "owner p = O_enqueue (t # ts) \<Longrightarrow> \<not> locked p \<Longrightarrow>
    pool_step p (p\<lparr>tasks := tasks p @ [t], owner := O_notify ts\<rparr>)"
| owner_notify_one: "owner p = O_notify ts \<Longrightarrow> i < length (workers p) \<Longrightarrow> workers p ! i = W_wait \<Longrightarrow>
    pool_step p (p\<lparr>workers := (workers p)[i := W_lock], owner := O_enqueue ts\<rparr>)"
| owner_notify_none: "owner p = O_notify ts \<Longrightarrow> W_wait \<notin> set (workers p) \<Longrightarrow>
    pool_step p (p\<lparr>owner := O_enqueue ts\<rparr>)"
| owner_wait_all: "owner p = O_enqueue [] \<Longrightarrow> pool_step p (p\<lparr>owner := O_lock\<rparr>)"
| owner_lock: "owner p = O_lock \<Longrightarrow> \<not> locked p \<Longrightarrow> pool_step p (p\<lparr>locked := True, owner := O_check\<rparr>)"
| owner_complete: "owner p = O_check \<Longrightarrow> tasks p = [] \<Longrightarrow> active_tasks p = 0 \<Longrightarrow>
    pool_step p (p\<lparr>locked := False, owner := O_done\<rparr>)"
| owner_not_complete: "owner p = O_check \<Longrightarrow> tasks p \<noteq> [] \<or> active_tasks p \<noteq> 0 \<Longrightarrow>
    pool_step p (p\<lparr>owner := O_block\<rparr>)"
| owner_block: "owner p = O_block \<Longrightarrow> pool_step p (p\<lparr>locked := False, owner := O_wait\<rparr>)"
| owner_stop: "owner p = O_done \<Longrightarrow> \<not> locked p \<Longrightarrow> pool_step p (p\<lparr>stop := True, owner := O_stopped\<rparr>)"
| owner_notify_all: "owner p = O_stopped \<Longrightarrow>
    pool_step p (p\<lparr>workers := map wake_worker (workers p), owner := O_join\<rparr>)"
| owner_join: "owner p = O_join \<Longrightarrow> \<forall>w\<in>set (workers p). w = W_exit \<Longrightarrow> pool_step p (p\<lparr>owner := O_end\<rparr>)"

inductive reachable :: "nat \<Rightarrow> 'a list \<Rightarrow> 'a pool \<Rightarrow> bool" for n submitted where
  start: "reachable n submitted (new_pool n submitted)"
| step: "reachable n submitted p \<Longrightarrow> pool_step p q \<Longrightarrow> reachable n submitted q"

section \<open>The invariant\<close>

fun running :: "'a worker \<Rightarrow> 'a multiset" where
  "running (W_run t) = {#t#}"
| "running w = {#}"

fun counted :: "'a worker \<Rightarrow> nat" where
  "counted (W_run t) = 1"
| "counted W_ran = 1"
| "counted w = 0"

fun holds_lock :: "'a worker \<Rightarrow> nat" where
  "holds_lock W_check = 1"
| "holds_lock W_block = 1"
| "holds_lock w = 0"

fun to_submit :: "'a owner \<Rightarrow> 'a list" where
  "to_submit (O_enqueue ts) = ts"
| "to_submit (O_notify ts) = ts"
| "to_submit m = []"

fun owner_holds :: "'a owner \<Rightarrow> nat" where
  "owner_holds O_check = 1"
| "owner_holds O_block = 1"
| "owner_holds m = 0"

definition past_wait :: "'a owner \<Rightarrow> bool" where
  "past_wait m \<longleftrightarrow> m = O_done \<or> m = O_stopped \<or> m = O_join \<or> m = O_end"

abbreviation over :: "('a worker \<Rightarrow> 'b::comm_monoid_add) \<Rightarrow> 'a worker list \<Rightarrow> 'b" where
  "over f ws \<equiv> sum_list (map f ws)"

text \<open>
  Every submitted task is still to be submitted, queued, running or finished; the counter counts
  the workers between taking a task and lowering it; the mutex has one holder; once \<^verbatim>\<open>wait_all\<close> has
  returned there is nothing left to do.
\<close>

definition pool_ok :: "'a list \<Rightarrow> 'a pool \<Rightarrow> bool" where
  "pool_ok submitted p \<longleftrightarrow>
     mset submitted = mset (to_submit (owner p)) + mset (tasks p) + over running (workers p) + mset (finished p) \<and>
     active_tasks p = over counted (workers p) \<and>
     owner_holds (owner p) + over holds_lock (workers p) = (if locked p then 1 else 0) \<and>
     (past_wait (owner p) \<longrightarrow> tasks p = [] \<and> active_tasks p = 0)"

lemma wake_worker_simps [simp]:
  "running (wake_worker w) = running w" "counted (wake_worker w) = counted w" "holds_lock (wake_worker w) = holds_lock w"
  by (auto simp: wake_worker_def)

lemma wake_owner_simps [simp]:
  "to_submit (wake_owner m) = to_submit m" "owner_holds (wake_owner m) = owner_holds m"
  "past_wait (wake_owner m) = past_wait m"
  by (auto simp: wake_owner_def past_wait_def)

lemma none_counted_none_running: "over counted ws = 0 \<Longrightarrow> over running ws = {#}"
proof (induction ws)
  case (Cons w ws)
  then show ?case by (cases w) auto
qed simp

text \<open>What a worker at \<open>i\<close> contributes can be taken apart from the rest.\<close>

lemma worker_split:
  assumes "i < length ws"
  shows "\<exists>R C H. over running ws = running (ws ! i) + R \<and> over counted ws = counted (ws ! i) + C \<and>
    over holds_lock ws = holds_lock (ws ! i) + H \<and>
    (\<forall>w. over running (ws[i := w]) = running w + R \<and> over counted (ws[i := w]) = counted w + C \<and>
         over holds_lock (ws[i := w]) = holds_lock w + H)"
  using assms
proof (induction ws arbitrary: i)
  case (Cons x ws)
  show ?case
  proof (cases i)
    case 0
    then show ?thesis by auto
  next
    case (Suc j)
    then have j: "j < length ws" using Cons.prems by simp
    obtain R C H where "over running ws = running (ws ! j) + R \<and> over counted ws = counted (ws ! j) + C \<and>
        over holds_lock ws = holds_lock (ws ! j) + H \<and>
        (\<forall>w. over running (ws[j := w]) = running w + R \<and> over counted (ws[j := w]) = counted w + C \<and>
             over holds_lock (ws[j := w]) = holds_lock w + H)"
      using Cons.IH [OF j] by blast
    then show ?thesis using Suc
      by (intro exI [of _ "running x + R"] exI [of _ "counted x + C"] exI [of _ "holds_lock x + H"]) auto
  qed
qed simp

lemma pool_ok_worker:
  assumes "pool_ok submitted p" "i < length (workers p)"
  obtains R C H where
    "mset submitted = mset (to_submit (owner p)) + mset (tasks p) + (running (workers p ! i) + R) + mset (finished p)"
    "active_tasks p = counted (workers p ! i) + C"
    "owner_holds (owner p) + (holds_lock (workers p ! i) + H) = (if locked p then 1 else 0)"
    "past_wait (owner p) \<longrightarrow> tasks p = [] \<and> active_tasks p = 0"
    "\<And>w. over running ((workers p)[i := w]) = running w + R"
    "\<And>w. over counted ((workers p)[i := w]) = counted w + C"
    "\<And>w. over holds_lock ((workers p)[i := w]) = holds_lock w + H"
proof -
  obtain R C H where "over running (workers p) = running (workers p ! i) + R \<and>
      over counted (workers p) = counted (workers p ! i) + C \<and>
      over holds_lock (workers p) = holds_lock (workers p ! i) + H \<and>
      (\<forall>w. over running ((workers p)[i := w]) = running w + R \<and>
           over counted ((workers p)[i := w]) = counted w + C \<and>
           over holds_lock ((workers p)[i := w]) = holds_lock w + H)"
    using worker_split [OF assms(2)] by blast
  then show thesis using assms(1) by (intro that [of R C H]) (auto simp: pool_ok_def)
qed

lemma pool_ok_step:
  assumes "pool_step p q" "pool_ok submitted p"
  shows "pool_ok submitted q"
  using assms
proof (induction rule: pool_step.induct)
  case (worker_lock i p)
  then show ?case by (elim pool_ok_worker [of _ p i]) (auto simp: pool_ok_def)
next
  case (worker_not_ready i p)
  then show ?case by (elim pool_ok_worker [of _ p i]) (auto simp: pool_ok_def)
next
  case (worker_block i p)
  then show ?case by (elim pool_ok_worker [of _ p i]) (auto simp: pool_ok_def split: if_splits)
next
  case (worker_return i p)
  then show ?case by (elim pool_ok_worker [of _ p i]) (auto simp: pool_ok_def split: if_splits)
next
  case (worker_take i p t ts)
  then show ?case by (elim pool_ok_worker [of _ p i]) (auto simp: pool_ok_def split: if_splits)
next
  case (worker_run i p t)
  then show ?case by (elim pool_ok_worker [of _ p i]) (auto simp: pool_ok_def)
next
  case (worker_lower i p)
  then show ?case by (elim pool_ok_worker [of _ p i]) (auto simp: pool_ok_def)
next
  case (worker_notify i p)
  then show ?case by (elim pool_ok_worker [of _ p i]) (auto simp: pool_ok_def)
next
  case (owner_notify_one p ts i)
  then show ?case by (elim pool_ok_worker [of _ p i]) (auto simp: pool_ok_def past_wait_def)
qed (auto simp: pool_ok_def past_wait_def comp_def split: if_splits)

lemma reachable_ok: "reachable n submitted p \<Longrightarrow> pool_ok submitted p"
proof (induction rule: reachable.induct)
  case start
  have "over running (replicate n W_lock) = {#}" "over counted (replicate n W_lock) = 0"
    "over holds_lock (replicate n W_lock) = 0"
    by (induction n) simp_all
  then show ?case by (simp add: pool_ok_def new_pool_def past_wait_def)
next
  case (step p q)
  then show ?case using pool_ok_step by blast
qed

text \<open>Once \<^verbatim>\<open>wait_all\<close> has returned, all tasks are finished.\<close>

lemma past_wait_finished:
  assumes "pool_ok submitted p" "past_wait (owner p)"
  shows "tasks p = [] \<and> over counted (workers p) = 0 \<and> mset (finished p) = mset submitted"
proof -
  have z: "tasks p = []" "over counted (workers p) = 0" "to_submit (owner p) = []"
    using assms by (auto simp: pool_ok_def past_wait_def)
  then have "over running (workers p) = {#}" by (intro none_counted_none_running) simp
  then show ?thesis using assms(1) z by (simp add: pool_ok_def)
qed

inductive_cases pool_stepE: "pool_step p q"

text \<open>A step finishes at most one task.\<close>

lemma pool_step_finished:
  assumes "pool_step p q"
  obtains "finished q = finished p" | t where "finished q = finished p @ [t]"
  using assms by (cases rule: pool_stepE) auto

section \<open>Two schedules of one task on one worker\<close>

definition one_worker :: "'a list \<Rightarrow> bool \<Rightarrow> nat \<Rightarrow> 'a worker \<Rightarrow> 'a owner \<Rightarrow> 'a list \<Rightarrow> 'a pool" where
  "one_worker ts l n w m fin =
     \<lparr>tasks = ts, locked = l, stop = False, active_tasks = n, workers = [w], owner = m, finished = fin\<rparr>"

lemma one_worker_steps:
  "pool_step (one_worker ts False n W_lock m fin) (one_worker ts True n W_check m fin)"
  "pool_step (one_worker (t # ts) l n W_check m fin) (one_worker ts False (Suc n) (W_run t) m fin)"
  "pool_step (one_worker [] l n W_check m fin) (one_worker [] l n W_block m fin)"
  "pool_step (one_worker ts l n W_block m fin) (one_worker ts False n W_wait m fin)"
  "pool_step (one_worker ts l n (W_run t) m fin) (one_worker ts l n W_ran m (fin @ [t]))"
  "pool_step (one_worker ts l n W_ran m fin) (one_worker ts l (n - 1) W_lowered m fin)"
  "pool_step (one_worker ts l n W_lowered m fin) (one_worker ts l n W_lock (wake_owner m) fin)"
  using worker_lock [of 0 "one_worker ts False n W_lock m fin"] worker_take [of 0 "one_worker (t # ts) l n W_check m fin"]
    worker_not_ready [of 0 "one_worker [] l n W_check m fin"] worker_block [of 0 "one_worker ts l n W_block m fin"]
    worker_run [of 0 "one_worker ts l n (W_run t) m fin"] worker_lower [of 0 "one_worker ts l n W_ran m fin"]
    worker_notify [of 0 "one_worker ts l n W_lowered m fin"]
  by (simp_all add: one_worker_def)

lemma one_owner_steps:
  "pool_step (one_worker ts False n w (O_enqueue (t # us)) fin) (one_worker (ts @ [t]) False n w (O_notify us) fin)"
  "w \<noteq> W_wait \<Longrightarrow> pool_step (one_worker ts l n w (O_notify us) fin) (one_worker ts l n w (O_enqueue us) fin)"
  "pool_step (one_worker ts l n w (O_enqueue []) fin) (one_worker ts l n w O_lock fin)"
  "pool_step (one_worker ts False n w O_lock fin) (one_worker ts True n w O_check fin)"
  "pool_step (one_worker [] l 0 w O_check fin) (one_worker [] False 0 w O_done fin)"
  "pool_step (one_worker ts l (Suc n) w O_check fin) (one_worker ts l (Suc n) w O_block fin)"
  "pool_step (one_worker ts l n w O_block fin) (one_worker ts False n w O_wait fin)"
  using owner_enqueue [of "one_worker ts False n w (O_enqueue (t # us)) fin"]
    owner_notify_none [of "one_worker ts l n w (O_notify us) fin"] owner_wait_all [of "one_worker ts l n w (O_enqueue []) fin"]
    owner_lock [of "one_worker ts False n w O_lock fin"] owner_complete [of "one_worker [] l 0 w O_check fin"]
    owner_not_complete [of "one_worker ts l (Suc n) w O_check fin"] owner_block [of "one_worker ts l n w O_block fin"]
  by (simp_all add: one_worker_def)

lemma one_worker_takes: "reachable 1 [t] (one_worker [] False (Suc 0) (W_run t) O_lock [])"
proof -
  have "new_pool 1 [t] = one_worker [] False 0 W_lock (O_enqueue [t]) []" by (simp add: new_pool_def one_worker_def)
  then have "reachable 1 [t] (one_worker [] False 0 W_lock (O_enqueue [t]) [])" using start [of 1 "[t]"] by simp
  then have "reachable 1 [t] (one_worker ([] @ [t]) False 0 W_lock (O_notify []) [])" using one_owner_steps(1) by (rule step)
  then have "reachable 1 [t] (one_worker ([] @ [t]) False 0 W_lock (O_enqueue []) [])"
    by (rule step) (rule one_owner_steps(2), simp)
  then have "reachable 1 [t] (one_worker ([] @ [t]) False 0 W_lock O_lock [])" using one_owner_steps(3) by (rule step)
  then have "reachable 1 [t] (one_worker [t] False 0 W_lock O_lock [])" by simp
  then have "reachable 1 [t] (one_worker [t] True 0 W_check O_lock [])" using one_worker_steps(1) by (rule step)
  then show ?thesis using one_worker_steps(2) by (rule step)
qed

lemma one_worker_done: "reachable 1 [t] (one_worker [] False 0 W_lock O_done [t])"
proof -
  have "reachable 1 [t] (one_worker [] False (Suc 0) W_ran O_lock ([] @ [t]))"
    using one_worker_takes one_worker_steps(5) by (rule step)
  then have "reachable 1 [t] (one_worker [] False (Suc 0 - 1) W_lowered O_lock ([] @ [t]))"
    using one_worker_steps(6) by (rule step)
  then have "reachable 1 [t] (one_worker [] False (Suc 0 - 1) W_lock (wake_owner O_lock) ([] @ [t]))"
    using one_worker_steps(7) by (rule step)
  then have "reachable 1 [t] (one_worker [] False 0 W_lock O_lock [t])" by (simp add: wake_owner_def)
  then have "reachable 1 [t] (one_worker [] True 0 W_lock O_check [t])" using one_owner_steps(4) by (rule step)
  then show ?thesis using one_owner_steps(5) by (rule step)
qed

lemma one_worker_stuck: "reachable 1 [t] (one_worker [] False 0 W_wait O_wait [t])"
proof -
  have "reachable 1 [t] (one_worker [] True (Suc 0) (W_run t) O_check [])"
    using one_worker_takes one_owner_steps(4) by (rule step)
  then have "reachable 1 [t] (one_worker [] True (Suc 0) (W_run t) O_block [])" using one_owner_steps(6) by (rule step)
  then have "reachable 1 [t] (one_worker [] True (Suc 0) W_ran O_block ([] @ [t]))" using one_worker_steps(5) by (rule step)
  then have "reachable 1 [t] (one_worker [] True (Suc 0 - 1) W_lowered O_block ([] @ [t]))" using one_worker_steps(6) by (rule step)
  then have "reachable 1 [t] (one_worker [] True (Suc 0 - 1) W_lock (wake_owner O_block) ([] @ [t]))"
    using one_worker_steps(7) by (rule step)
  then have "reachable 1 [t] (one_worker [] True 0 W_lock O_block [t])" by (simp add: wake_owner_def)
  then have "reachable 1 [t] (one_worker [] False 0 W_lock O_wait [t])" using one_owner_steps(7) by (rule step)
  then have "reachable 1 [t] (one_worker [] True 0 W_check O_wait [t])" using one_worker_steps(1) by (rule step)
  then have "reachable 1 [t] (one_worker [] True 0 W_block O_wait [t])" using one_worker_steps(3) by (rule step)
  then show ?thesis using one_worker_steps(4) by (rule step)
qed

section \<open>Properties\<close>

text \<open>C33: When \<^verbatim>\<open>wait_all\<close> has returned, every submitted task has been run exactly once, and no task is queued
  or running; this holds for every number of workers and every interleaving.\<close>

theorem wait_all_means_all_finished:
  assumes "reachable n submitted p" "owner p = O_done \<or> owner p = O_stopped \<or> owner p = O_join \<or> owner p = O_end"
  shows "mset (finished p) = mset submitted \<and> tasks p = [] \<and> (\<forall>w\<in>set (workers p). running w = {#})"
proof -
  have z: "tasks p = []" "over counted (workers p) = 0" "mset (finished p) = mset submitted"
    using past_wait_finished [OF reachable_ok [OF assms(1)]] assms(2) by (auto simp: past_wait_def)
  have "running w = {#}" if "w \<in> set (workers p)" for w
  proof -
    have "counted w = 0" using member_le_sum_list [of "counted w" "map counted (workers p)"] that z(2) by simp
    then show ?thesis by (cases w) simp_all
  qed
  then show ?thesis using z by simp
qed

theorem wait_all_means_all_finished_witness:
  "\<exists>p. reachable 1 [5::nat] p \<and> owner p = O_done \<and> mset (finished p) = mset [5]"
proof -
  let ?p = "one_worker [] False 0 W_lock O_done [5::nat]"
  have "owner ?p = O_done" by (simp add: one_worker_def)
  then show ?thesis using wait_all_means_all_finished [OF one_worker_done [of 5]] one_worker_done [of "5::nat"] by blast
qed

text \<open>C38: \<^verbatim>\<open>wait_all\<close> can hang.  A worker lowers the counter and notifies without holding the mutex, so both can
  happen after the owner has found the counter above zero and before it blocks.  The notification is lost: all
  tasks are finished, the owner is blocked, and no thread can take another step.\<close>

theorem wait_all_can_miss_completion:
  "\<exists>p. reachable 1 [t] p \<and> finished p = [t] \<and> tasks p = [] \<and> active_tasks p = 0 \<and> owner p = O_wait \<and>
     (\<forall>q. \<not> pool_step p q)"
proof -
  let ?p = "one_worker [] False 0 W_wait O_wait [t]"
  have "\<not> pool_step ?p q" for q
    by (auto simp: one_worker_def elim!: pool_stepE)
  then show ?thesis using one_worker_stuck [of t] by (intro exI [of _ ?p]) (simp add: one_worker_def)
qed

end
