(* ===== verification/Pool_Phase.thy ===== *)
theory Pool_Phase
  imports Thread_Pool
begin

text \<open>
  A phase of the engine: a thread pool whose tasks change a shared state.

  A task takes effect when the pool has run it: it changes the state, throws, never returns, or does
  something that C++ does not define.  An exception that leaves a task leaves the thread function
  and terminates the program; a task that blocks keeps its worker forever.  The effects of the
  tasks are atomic: each modelled task makes its only change to the shared state at its end.
\<close>

section \<open>Steps\<close>

datatype 's outcome = Done 's | Throws | Blocks | Undefined

datatype ('t, 's) phase = Running "'t pool" 's | Terminated | Unspecified

inductive phase_step :: "('t \<Rightarrow> 's \<Rightarrow> 's outcome) \<Rightarrow> ('t, 's) phase \<Rightarrow> ('t, 's) phase \<Rightarrow> bool" for job where
  silent: "pool_step p q \<Longrightarrow> finished q = finished p \<Longrightarrow> phase_step job (Running p s) (Running q s)"
| completes: "pool_step p q \<Longrightarrow> finished q = finished p @ [t] \<Longrightarrow> job t s = Done s' \<Longrightarrow>
    phase_step job (Running p s) (Running q s')"
| throws: "pool_step p q \<Longrightarrow> finished q = finished p @ [t] \<Longrightarrow> job t s = Throws \<Longrightarrow>
    phase_step job (Running p s) Terminated"
| undefined: "pool_step p q \<Longrightarrow> finished q = finished p @ [t] \<Longrightarrow> job t s = Undefined \<Longrightarrow>
    phase_step job (Running p s) Unspecified"

inductive phase_reachable ::
  "('t \<Rightarrow> 's \<Rightarrow> 's outcome) \<Rightarrow> nat \<Rightarrow> 't list \<Rightarrow> 's \<Rightarrow> ('t, 's) phase \<Rightarrow> bool" for job n submitted s0 where
  phase_start: "phase_reachable job n submitted s0 (Running (new_pool n submitted) s0)"
| phase_next: "phase_reachable job n submitted s0 c \<Longrightarrow> phase_step job c c' \<Longrightarrow> phase_reachable job n submitted s0 c'"

inductive_cases phase_stepE: "phase_step job c c'"

section \<open>Tasks one after the other\<close>

fun run_all :: "('t \<Rightarrow> 's \<Rightarrow> 's outcome) \<Rightarrow> 't list \<Rightarrow> 's \<Rightarrow> 's outcome" where
  "run_all job [] s = Done s"
| "run_all job (t # ts) s = (case job t s of Done s' \<Rightarrow> run_all job ts s' | x \<Rightarrow> x)"

lemma run_all_append:
  "run_all job (ts @ us) s = (case run_all job ts s of Done s' \<Rightarrow> run_all job us s' | x \<Rightarrow> x)"
  by (induction ts arbitrary: s) (auto split: outcome.splits)

text \<open>
  The states of a running phase are the states of the pool with the effects of the finished tasks in
  the order in which they finished.
\<close>

lemma phase_sound:
  assumes "phase_reachable job n submitted s0 c"
  shows "\<forall>p s. c = Running p s \<longrightarrow> reachable n submitted p \<and> run_all job (finished p) s0 = Done s"
  using assms
proof (induction rule: phase_reachable.induct)
  case phase_start
  then show ?case using start by (auto simp: new_pool_def)
next
  case (phase_next c c')
  from phase_next.hyps(2) phase_next.IH show ?case
    by (cases rule: phase_stepE) (auto simp: run_all_append intro: reachable.step)
qed

lemma phase_complete:
  assumes "reachable n submitted p" "run_all job (finished p) s0 = Done s"
  shows "phase_reachable job n submitted s0 (Running p s)"
  using assms
proof (induction arbitrary: s rule: reachable.induct)
  case start
  then show ?case using phase_start [of job n submitted s0] by (simp add: new_pool_def)
next
  case (step p q)
  from step.hyps(2) show ?case
  proof (cases rule: pool_step_finished)
    case 1
    then show ?thesis using step by (auto intro: phase_next silent)
  next
    case (2 t)
    then obtain s1 where "run_all job (finished p) s0 = Done s1" "job t s1 = Done s"
      using step.prems by (auto simp: run_all_append split: outcome.splits)
    then show ?thesis using step.IH step.hyps(2) 2 by (auto intro: phase_next completes)
  qed
qed

lemma phase_reachable_Running:
  "phase_reachable job n submitted s0 (Running p s) \<longleftrightarrow>
     reachable n submitted p \<and> run_all job (finished p) s0 = Done s"
proof
  assume "phase_reachable job n submitted s0 (Running p s)"
  then show "reachable n submitted p \<and> run_all job (finished p) s0 = Done s" by (rule phase_sound [rule_format]) simp
qed (rule phase_complete, simp_all)

lemma phase_returned:
  assumes "phase_reachable job n submitted s0 (Running p s)" "past_wait (owner p)"
  shows "set (finished p) = set submitted \<and> run_all job (finished p) s0 = Done s"
proof -
  have "reachable n submitted p" "run_all job (finished p) s0 = Done s"
    using assms(1) by (simp_all add: phase_reachable_Running)
  moreover have "mset (finished p) = mset submitted"
    using past_wait_finished [OF reachable_ok [OF \<open>reachable n submitted p\<close>] assms(2)] by simp
  ultimately show ?thesis using mset_eq_setD by blast
qed

section \<open>Tasks that write one entry\<close>

text \<open>
  The contract of tasks that each write one entry of the shared state: \<open>wrote t v\<close> says that \<open>v\<close> is
  a value the task may leave under its key.
\<close>

locale keyed_jobs =
  fixes job :: "'t \<Rightarrow> 's \<Rightarrow> 's outcome"
    and key :: "'t \<Rightarrow> 'k"
    and look :: "'s \<Rightarrow> 'k \<Rightarrow> 'v"
    and wrote :: "'t \<Rightarrow> 'v \<Rightarrow> bool"
  assumes writes: "job t s = Done s' \<Longrightarrow> wrote t (look s' (key t))"
    and keeps: "job t s = Done s' \<Longrightarrow> k \<noteq> key t \<Longrightarrow> look s' k = look s k"
begin

lemma last_writer:
  "run_all job ts s = Done s' \<Longrightarrow>
     (if k \<in> key ` set ts then \<exists>t\<in>set ts. key t = k \<and> wrote t (look s' k) else look s' k = look s k)"
proof (induction ts arbitrary: s)
  case (Cons t ts)
  then obtain s1 where s1: "job t s = Done s1" "run_all job ts s1 = Done s'" by (auto split: outcome.splits)
  show ?case
  proof (cases "k \<in> key ` set ts")
    case True
    then show ?thesis using Cons.IH [OF s1(2)] by auto
  next
    case False
    then have "look s' k = look s1 k" using Cons.IH [OF s1(2)] by simp
    then show ?thesis using False writes [OF s1(1)] keeps [OF s1(1), of k] by (cases "k = key t") auto
  qed
qed simp

lemma returned_entry:
  assumes "phase_reachable job n submitted s0 (Running p s)" "past_wait (owner p)"
  shows "if k \<in> key ` set submitted then \<exists>t\<in>set submitted. key t = k \<and> wrote t (look s k) else look s k = look s0 k"
proof -
  have f: "set (finished p) = set submitted" and r: "run_all job (finished p) s0 = Done s"
    using phase_returned [OF assms] by simp_all
  show ?thesis using last_writer [OF r, of k] unfolding f .
qed

end

end
