(* ===== verification/Forge.thy ===== *)
theory Forge
  imports Stores Plugin_Manager Pool_Phase
begin

text \<open>
  \<^verbatim>\<open>forge/forge_engine/forge.cpp\<close>, \<^verbatim>\<open>renderers/console_renderer.cpp\<close> and \<^verbatim>\<open>main.cpp\<close>: the builder of the
  engine, the phases of its work, the report and the program.

  The repository has one provider, one kind of client and one renderer behind its interfaces, and the
  model has these: a provider is its API key, a client factory is the cache policy of the clients it
  makes, and the renderer prints lines.  A null pointer and an empty function are \<open>None\<close>.

  \<^verbatim>\<open>fetch_data\<close> and \<^verbatim>\<open>run\<close> give their tasks to a thread pool; they are phases of the step relation of
  \<open>Pool_Phase\<close>.
\<close>

section \<open>The builder\<close>

datatype renderer = ConsoleRenderer

record thread_pool_options =
  io_threads :: nat
  compute_threads :: nat

record 'l forge_engine =
  fe_thread_pool_options :: thread_pool_options
  fe_plugin_manager :: "'l plugin_manager option"
  fe_data_store :: "data_store option"
  fe_report_store :: "report_store option"
  fe_renderer :: "renderer option"
  fe_data_provider :: "string option"
  fe_http_client_factory :: "cache_policy option"

definition new_forge_engine :: "'l forge_engine" where
  "new_forge_engine =
     \<lparr>fe_thread_pool_options = \<lparr>io_threads = 2, compute_threads = 2\<rparr>, fe_plugin_manager = None, fe_data_store = None,
      fe_report_store = None, fe_renderer = None, fe_data_provider = None, fe_http_client_factory = None\<rparr>"

definition set_data_store :: "data_store option \<Rightarrow> 'l forge_engine \<Rightarrow> 'l forge_engine" where
  "set_data_store ds e = e\<lparr>fe_data_store := ds\<rparr>"

definition set_report_store :: "report_store option \<Rightarrow> 'l forge_engine \<Rightarrow> 'l forge_engine" where
  "set_report_store rs e = e\<lparr>fe_report_store := rs\<rparr>"

definition set_plugin_manager :: "'l plugin_manager option \<Rightarrow> 'l forge_engine \<Rightarrow> 'l forge_engine" where
  "set_plugin_manager mgr e = e\<lparr>fe_plugin_manager := mgr\<rparr>"

definition set_thread_pools :: "thread_pool_options \<Rightarrow> 'l forge_engine \<Rightarrow> 'l forge_engine" where
  "set_thread_pools options e = e\<lparr>fe_thread_pool_options := options\<rparr>"

definition set_renderer :: "renderer option \<Rightarrow> 'l forge_engine \<Rightarrow> 'l forge_engine" where
  "set_renderer r e = e\<lparr>fe_renderer := r\<rparr>"

definition set_data_provider :: "string option \<Rightarrow> 'l forge_engine \<Rightarrow> 'l forge_engine" where
  "set_data_provider provider e = e\<lparr>fe_data_provider := provider\<rparr>"

definition set_http_client_factory :: "cache_policy option \<Rightarrow> 'l forge_engine \<Rightarrow> 'l forge_engine" where
  "set_http_client_factory factory e = e\<lparr>fe_http_client_factory := factory\<rparr>"

record 'l builder =
  b_forge_engine :: "'l forge_engine"
  b_data_provider :: "string option"
  b_plugin_names :: "string list"

definition new_builder :: "'l builder" where
  "new_builder = \<lparr>b_forge_engine = new_forge_engine, b_data_provider = None, b_plugin_names = []\<rparr>"

definition with_data_provider :: "string option \<Rightarrow> 'l builder \<Rightarrow> 'l builder" where
  "with_data_provider provider b = b\<lparr>b_forge_engine := set_data_provider provider (b_forge_engine b)\<rparr>"

definition with_http_client_factory :: "cache_policy option \<Rightarrow> 'l builder \<Rightarrow> 'l builder" where
  "with_http_client_factory factory b = b\<lparr>b_forge_engine := set_http_client_factory factory (b_forge_engine b)\<rparr>"

definition with_plugin_names :: "string list \<Rightarrow> 'l builder \<Rightarrow> 'l builder" where
  "with_plugin_names names b = b\<lparr>b_plugin_names := names\<rparr>"

definition with_thread_pools :: "thread_pool_options \<Rightarrow> 'l builder \<Rightarrow> 'l builder" where
  "with_thread_pools options b = b\<lparr>b_forge_engine := set_thread_pools options (b_forge_engine b)\<rparr>"

definition with_renderer :: "renderer option \<Rightarrow> 'l builder \<Rightarrow> 'l builder" where
  "with_renderer r b = b\<lparr>b_forge_engine := set_renderer r (b_forge_engine b)\<rparr>"

definition validate :: "'l builder \<Rightarrow> 'l builder result" where
  "validate b =
     (if b_data_provider b = None then Inl (Runtime_error ''Data provider is required'')
      else if fe_http_client_factory (b_forge_engine b) = None then Inl (Runtime_error ''HTTP client is required'')
      else if b_plugin_names b = [] then Inl (Runtime_error ''Plugin names are required'')
      else if io_threads (fe_thread_pool_options (b_forge_engine b)) = 0 then Inl (Runtime_error ''IO threads are required'')
      else if compute_threads (fe_thread_pool_options (b_forge_engine b)) = 0
      then Inl (Runtime_error ''Compute threads are required'')
      else Inr b)"

definition build :: "'l builder \<Rightarrow> 'l forge_engine" where
  "build b =
     set_report_store (Some empty_report_store) (set_data_store (Some empty_data_store)
       (set_plugin_manager (Some (new_plugin_manager (b_plugin_names b))) (b_forge_engine b)))"

text \<open>The calls a client can make on a builder.\<close>

datatype builder_call =
    With_data_provider "string option"
  | With_http_client_factory "cache_policy option"
  | With_plugin_names "string list"
  | With_thread_pools thread_pool_options
  | With_renderer "renderer option"

fun apply_call :: "builder_call \<Rightarrow> 'l builder \<Rightarrow> 'l builder" where
  "apply_call (With_data_provider d) b = with_data_provider d b"
| "apply_call (With_http_client_factory c) b = with_http_client_factory c b"
| "apply_call (With_plugin_names ns) b = with_plugin_names ns b"
| "apply_call (With_thread_pools opts) b = with_thread_pools opts b"
| "apply_call (With_renderer r) b = with_renderer r b"

lemma apply_call_provider: "b_data_provider (apply_call c b) = b_data_provider b"
  by (cases c) (simp_all add: with_data_provider_def with_http_client_factory_def with_plugin_names_def
      with_thread_pools_def with_renderer_def)

lemma apply_calls_provider: "b_data_provider (fold apply_call calls b) = b_data_provider b"
  by (induction calls arbitrary: b) (simp_all add: apply_call_provider)

text \<open>The provider is looked up in a member that no call sets.\<close>

lemma validation_always_fails:
  "validate (fold apply_call calls new_builder) = Inl (Runtime_error ''Data provider is required'')"
  by (simp add: validate_def apply_calls_provider new_builder_def)

section \<open>Initialisation\<close>

text \<open>\<open>entries_of\<close> lists a directory.\<close>

definition initialize ::
  "'j manifest_json \<Rightarrow> (string \<Rightarrow> string option) \<Rightarrow> 'l loader_interface \<Rightarrow> (string \<Rightarrow> (string \<times> bool) list) \<Rightarrow> string \<Rightarrow> string \<Rightarrow>
   'l forge_engine \<Rightarrow> unit result \<times> 'l forge_engine" where
  "initialize api text_of il entries_of loader root_path e =
     (if loader = ''directory'' then
        (case fe_plugin_manager e of
           None \<Rightarrow> (Inl Null_pointer, e)
         | Some mgr \<Rightarrow>
             let (r, mgr') = load_plugins_from_dir api text_of il (entries_of root_path) mgr
             in (r, e\<lparr>fe_plugin_manager := Some mgr'\<rparr>))
      else (Inl (Runtime_error ''Invalid loader type''), e))"

section \<open>Fetching the data\<close>

text \<open>What the lambda of a task captures: the plugin and one of its symbols.\<close>

record fetch_job =
  job_plugin :: string
  job_host_params :: host_params
  job_symbol :: host_symbol

definition fetch_args :: "host_params \<Rightarrow> host_symbol \<Rightarrow> aggregate_bars_args" where
  "fetch_args hp hs =
     \<lparr>args_timespan = sym_timespan hs, args_symbol = sym_symbol hs, args_from = hp_backtest_start_datetime hp,
      args_to = hp_backtest_end_datetime hp, args_timespan_unit = sym_timespan_unit hs\<rparr>"

definition fetch_jobs :: "('l \<Rightarrow> string) \<Rightarrow> ('l \<Rightarrow> host_params) \<Rightarrow> 'l plugin_manager \<Rightarrow> fetch_job list" where
  "fetch_jobs name host_params_of mgr =
     with_plugins (\<lambda>plugin jobs. jobs @ map (\<lambda>symbol.
         \<lparr>job_plugin = name plugin, job_host_params = host_params_of plugin, job_symbol = symbol\<rparr>)
       (hp_symbols (host_params_of plugin))) mgr []"

text \<open>
  A task makes a client, asks for the bars and stores them.  The clients share the disk of the cache
  and the outside world.
\<close>

definition fetch_task ::
  "'j json_api \<Rightarrow> 'w environment \<Rightarrow> (string \<Rightarrow> nat) \<Rightarrow> string option \<Rightarrow> cache_policy option \<Rightarrow> fetch_job \<Rightarrow>
   'w client \<times> data_store \<Rightarrow> ('w client \<times> data_store) outcome" where
  "fetch_task api env hash provider factory j cds =
     (let (c, ds) = cds in
      case factory of
        None \<Rightarrow> Throws
      | Some policy \<Rightarrow>
          (case provider of
             None \<Rightarrow> Undefined
           | Some api_key \<Rightarrow>
               (case custom_aggregate_bars api api_key env hash policy
                       (fetch_args (job_host_params j) (job_symbol j)) (c\<lparr>curl := new_curl_easy\<rparr>) of
                  (c', Inl e) \<Rightarrow> Throws
                | (c', Inr bars) \<Rightarrow>
                    (case store_bars_by_plugin_name False (job_plugin j) (sym_symbol (job_symbol j)) bars ds of
                       Blocked \<Rightarrow> Blocks
                     | Returned ds' \<Rightarrow> Done (c', ds')))))"

section \<open>Running the simulations\<close>

text \<open>
  \<^verbatim>\<open>BackTestEngine::run\<close> reads the bars of its plugin from the data store and goes on with them;
  \<open>back_test\<close> is all that it does beside this read, and \<open>None\<close> where that does not return.
\<close>

definition back_test_run ::
  "(bar list \<Rightarrow> bar list) \<Rightarrow> ('l \<Rightarrow> string) \<Rightarrow> ('l \<Rightarrow> bar list \<Rightarrow> back_test_report result option) \<Rightarrow> 'l \<Rightarrow>
   data_store \<Rightarrow> (data_store \<times> back_test_report result option) locked" where
  "back_test_run std_sort name back_test plugin ds =
     bindL (get_iterable_plugin_data std_sort False (name plugin) ds) (\<lambda>(ds1, iterable_plugin_data).
       Returned (ds1, bindRO (Some iterable_plugin_data) (back_test plugin)))"

text \<open>The rest of \<^verbatim>\<open>BackTestEngine::run\<close> for a loaded plugin of either kind.\<close>

definition loader_back_test ::
  "(nat \<Rightarrow> string) \<Rightarrow> int64 \<Rightarrow> ('h, 'p, 'o) loader \<Rightarrow> bar list \<Rightarrow> back_test_report result option" where
  "loader_back_test uuids now plugin bars =
     (let hp = loader_host_params plugin in
      bindRO (run_on_bars uuids now hp loader_on_bar loader_on_end loader_free_string bars
        (prepare_engine hp empty_engine, plugin)) (\<lambda>(e, p, report). Some (Inr report)))"

text \<open>\<^verbatim>\<open>BackTestEngine::run\<close> as a whole.\<close>

definition run ::
  "(bar list \<Rightarrow> bar list) \<Rightarrow> (nat \<Rightarrow> string) \<Rightarrow> int64 \<Rightarrow> ('h, 'p, 'o) loader \<Rightarrow> data_store \<Rightarrow>
   (data_store \<times> back_test_report result option) locked" where
  "run std_sort uuids now plugin ds = back_test_run std_sort loader_name (loader_back_test uuids now) plugin ds"

text \<open>It blocks on its read, so that what is shown of \<open>run_on_bars\<close> is about the part after it.\<close>

lemma run_blocks: "run std_sort uuids now plugin ds = Blocked"
  by (simp add: run_def back_test_run_def iterable_data_blocks bindL_def)

text \<open>The task of \<^verbatim>\<open>ForgeEngine::run\<close> for one plugin: the back test, and the two reports in the store.\<close>

definition run_task ::
  "(bar list \<Rightarrow> bar list) \<Rightarrow> ('l \<Rightarrow> string) \<Rightarrow> ('l \<Rightarrow> bar list \<Rightarrow> back_test_report result option) \<Rightarrow> 'l \<Rightarrow>
   data_store \<times> report_store \<Rightarrow> (data_store \<times> report_store) outcome" where
  "run_task std_sort name back_test plugin drs =
     (let (ds, rs) = drs; plugin_name = name plugin in
      case has_plugin_data False plugin_name ds of
        Blocked \<Rightarrow> Blocks
      | Returned has \<Rightarrow>
          if \<not> has then Throws
          else
            case back_test_run std_sort name back_test plugin ds of
              Blocked \<Rightarrow> Blocks
            | Returned (ds1, None) \<Rightarrow> Blocks
            | Returned (ds1, Some (Inl e)) \<Rightarrow> Throws
            | Returned (ds1, Some (Inr report)) \<Rightarrow>
                Done (ds1, store_monte_carlo_report plugin_name monte_carlo_run
                  (store_back_test_report plugin_name report rs)))"

definition run_jobs :: "'l plugin_manager \<Rightarrow> 'l list" where
  "run_jobs mgr = with_plugins (\<lambda>plugin jobs. jobs @ [plugin]) mgr []"

section \<open>The report\<close>

definition render_back_test_report :: "back_test_report list \<Rightarrow> string list" where
  "render_back_test_report reports =
     ''----- Back Test Reports ----- '' # map (\<lambda>report. ''TODO: Render back test report'') reports"

definition render_monte_carlo_report :: "monte_carlo_report list \<Rightarrow> string list" where
  "render_monte_carlo_report reports =
     ''----- Monte Carlo Reports ----- '' # map (\<lambda>report. ''TODO: Render monte carlo report'') reports"

definition report :: "'l forge_engine \<Rightarrow> string list result" where
  "report e =
     (case (fe_renderer e, fe_report_store e) of
        (Some ConsoleRenderer, Some rs) \<Rightarrow>
          Inr (render_back_test_report (get_back_test_reports rs) @ render_monte_carlo_report (get_monte_carlo_reports rs))
      | _ \<Rightarrow> Inl Null_pointer)"

end
