(* ===== verification/Program.thy ===== *)
theory Program
  imports Forge
begin

text \<open>
  \<^verbatim>\<open>main.cpp\<close>: the engine set up, and its four calls one after the other.

  \<^verbatim>\<open>fetch_data\<close> and \<^verbatim>\<open>run\<close> are relations between the engine before and what becomes of the call: it
  returns, when the pool has been destroyed, or the program is aborted by an exception of a task.
  A call that does not return is related to nothing.  What the program finds outside is the record
  \<open>surroundings\<close>.
\<close>

section \<open>The calls of the engine\<close>

datatype 's call = Returns 's | Aborts | Unknown

record ('j, 'l, 'w) surroundings =
  sur_polygon_api_key :: "string option"
  sur_hardware_concurrency :: nat
  sur_curl_global_init :: bool
  sur_manifest_api :: "'j manifest_json"
  sur_text_of :: "string \<Rightarrow> string option"
  sur_entries_of :: "string \<Rightarrow> (string \<times> bool) list"
  sur_loaders :: "'l loader_interface"
  sur_host_params :: "'l \<Rightarrow> host_params"
  sur_environment :: "'w environment"
  sur_hash :: "string \<Rightarrow> nat"
  sur_sort :: "bar list \<Rightarrow> bar list"
  sur_back_test :: "'l \<Rightarrow> bar list \<Rightarrow> back_test_report result option"

inductive fetch_data ::
  "('j, 'l, 'w) surroundings \<Rightarrow> 'l forge_engine \<times> 'w client \<Rightarrow> ('l forge_engine \<times> 'w client) call \<Rightarrow> bool" for sur where
  fetch_returns: "fe_plugin_manager e = Some mgr \<Longrightarrow> fe_data_store e = Some ds \<Longrightarrow>
    phase_reachable (fetch_task (mj_api (sur_manifest_api sur)) (sur_environment sur) (sur_hash sur) (fe_data_provider e)
        (fe_http_client_factory e)) (io_threads (fe_thread_pool_options e))
      (fetch_jobs (il_get_plugin_name (sur_loaders sur)) (sur_host_params sur) mgr) (c, ds) (Running p (c', ds')) \<Longrightarrow>
    owner p = O_end \<Longrightarrow> fetch_data sur (e, c) (Returns (e\<lparr>fe_data_store := Some ds'\<rparr>, c'))"
| fetch_aborts: "fe_plugin_manager e = Some mgr \<Longrightarrow> fe_data_store e = Some ds \<Longrightarrow>
    phase_reachable (fetch_task (mj_api (sur_manifest_api sur)) (sur_environment sur) (sur_hash sur) (fe_data_provider e)
        (fe_http_client_factory e)) (io_threads (fe_thread_pool_options e))
      (fetch_jobs (il_get_plugin_name (sur_loaders sur)) (sur_host_params sur) mgr) (c, ds) Terminated \<Longrightarrow>
    fetch_data sur (e, c) Aborts"
| fetch_unknown: "fe_plugin_manager e = None \<or> fe_data_store e = None \<or> fe_data_provider e = None \<Longrightarrow>
    fetch_data sur (e, c) Unknown"

inductive run_simulations :: "('j, 'l, 'w) surroundings \<Rightarrow> 'l forge_engine \<Rightarrow> 'l forge_engine call \<Rightarrow> bool" for sur where
  run_returns: "fe_plugin_manager e = Some mgr \<Longrightarrow> fe_data_store e = Some ds \<Longrightarrow> fe_report_store e = Some rs \<Longrightarrow>
    phase_reachable (run_task (sur_sort sur) (il_get_plugin_name (sur_loaders sur)) (sur_back_test sur))
      (compute_threads (fe_thread_pool_options e)) (run_jobs mgr) (ds, rs) (Running p (ds', rs')) \<Longrightarrow>
    owner p = O_end \<Longrightarrow>
    run_simulations sur e (Returns (e\<lparr>fe_data_store := Some ds', fe_report_store := Some rs'\<rparr>))"
| run_aborts: "fe_plugin_manager e = Some mgr \<Longrightarrow> fe_data_store e = Some ds \<Longrightarrow> fe_report_store e = Some rs \<Longrightarrow>
    phase_reachable (run_task (sur_sort sur) (il_get_plugin_name (sur_loaders sur)) (sur_back_test sur))
      (compute_threads (fe_thread_pool_options e)) (run_jobs mgr) (ds, rs) Terminated \<Longrightarrow>
    run_simulations sur e Aborts"
| run_unknown: "fe_plugin_manager e = None \<or> fe_data_store e = None \<or> fe_report_store e = None \<Longrightarrow>
    run_simulations sur e Unknown"

section \<open>The program\<close>

definition curl_global :: "bool \<Rightarrow> unit result" where
  "curl_global init_ok = (if init_ok then Inr () else Inl (Runtime_error ''Failed to initialize libcurl''))"

definition enabled_plugin_names :: "string list" where
  "enabled_plugin_names = [''sma_native'', ''sma_python'']"

definition program_engine :: "('j, 'l, 'w) surroundings \<Rightarrow> string \<Rightarrow> 'l forge_engine result" where
  "program_engine sur polygon_api_key =
     bindR (curl_global (sur_curl_global_init sur)) (\<lambda>_.
     bindR (validate
       (with_renderer (Some ConsoleRenderer)
         (with_plugin_names enabled_plugin_names
           (with_thread_pools \<lparr>io_threads = sur_hardware_concurrency sur div 2, compute_threads = sur_hardware_concurrency sur\<rparr>
             (with_data_provider (Some polygon_api_key)
               (with_http_client_factory (Some \<lparr>enable_caching = True, ttl_s = ONE_DAY_S\<rparr>) new_builder)))))) (\<lambda>b.
       Inr (build b)))"

datatype exit_status = Exit int | Aborted | Unspecified_exit

text \<open>
  The handler of \<^verbatim>\<open>std::exception\<close>.  The one of \<^verbatim>\<open>HttpError\<close>, which returns 2, is not reached: these errors
  are thrown in tasks.
\<close>

definition exit_of_exception :: "exn \<Rightarrow> exit_status" where
  "exit_of_exception x = (if x = Null_pointer then Unspecified_exit else Exit 1)"

fun exit_of_call :: "'s call \<Rightarrow> exit_status option" where
  "exit_of_call (Returns s) = None"
| "exit_of_call Aborts = Some Aborted"
| "exit_of_call Unknown = Some Unspecified_exit"

inductive main :: "('j, 'l, 'w) surroundings \<Rightarrow> 'w client \<Rightarrow> exit_status \<Rightarrow> bool" for sur c where
  no_key: "sur_polygon_api_key sur = None \<Longrightarrow> main sur c (exit_of_exception Logic_error)"
| empty_key: "sur_polygon_api_key sur = Some [] \<Longrightarrow> main sur c (Exit 1)"
| setup_throws: "sur_polygon_api_key sur = Some k \<Longrightarrow> k \<noteq> [] \<Longrightarrow> program_engine sur k = Inl x \<Longrightarrow>
    main sur c (exit_of_exception x)"
| initialize_throws: "sur_polygon_api_key sur = Some k \<Longrightarrow> k \<noteq> [] \<Longrightarrow> program_engine sur k = Inr e \<Longrightarrow>
    initialize (sur_manifest_api sur) (sur_text_of sur) (sur_loaders sur) (sur_entries_of sur) ''directory'' ''plugins'' e =
      (Inl x, e1) \<Longrightarrow>
    main sur c (exit_of_exception x)"
| fetch_ends: "sur_polygon_api_key sur = Some k \<Longrightarrow> k \<noteq> [] \<Longrightarrow> program_engine sur k = Inr e \<Longrightarrow>
    initialize (sur_manifest_api sur) (sur_text_of sur) (sur_loaders sur) (sur_entries_of sur) ''directory'' ''plugins'' e =
      (Inr (), e1) \<Longrightarrow>
    fetch_data sur (e1, c) r \<Longrightarrow> exit_of_call r = Some x \<Longrightarrow>
    main sur c x"
| run_ends: "sur_polygon_api_key sur = Some k \<Longrightarrow> k \<noteq> [] \<Longrightarrow> program_engine sur k = Inr e \<Longrightarrow>
    initialize (sur_manifest_api sur) (sur_text_of sur) (sur_loaders sur) (sur_entries_of sur) ''directory'' ''plugins'' e =
      (Inr (), e1) \<Longrightarrow>
    fetch_data sur (e1, c) (Returns (e2, c2)) \<Longrightarrow> run_simulations sur e2 r \<Longrightarrow> exit_of_call r = Some x \<Longrightarrow>
    main sur c x"
| report_throws: "sur_polygon_api_key sur = Some k \<Longrightarrow> k \<noteq> [] \<Longrightarrow> program_engine sur k = Inr e \<Longrightarrow>
    initialize (sur_manifest_api sur) (sur_text_of sur) (sur_loaders sur) (sur_entries_of sur) ''directory'' ''plugins'' e =
      (Inr (), e1) \<Longrightarrow>
    fetch_data sur (e1, c) (Returns (e2, c2)) \<Longrightarrow> run_simulations sur e2 (Returns e3) \<Longrightarrow> report e3 = Inl x \<Longrightarrow>
    main sur c (exit_of_exception x)"
| main_returns: "sur_polygon_api_key sur = Some k \<Longrightarrow> k \<noteq> [] \<Longrightarrow> program_engine sur k = Inr e \<Longrightarrow>
    initialize (sur_manifest_api sur) (sur_text_of sur) (sur_loaders sur) (sur_entries_of sur) ''directory'' ''plugins'' e =
      (Inr (), e1) \<Longrightarrow>
    fetch_data sur (e1, c) (Returns (e2, c2)) \<Longrightarrow> run_simulations sur e2 (Returns e3) \<Longrightarrow> report e3 = Inr printed \<Longrightarrow>
    main sur c (Exit 0)"

inductive_cases mainE: "main sur c x"

lemma program_engine_throws: "\<exists>msg. program_engine (sur :: ('j, 'l, 'w) surroundings) k = Inl (Runtime_error msg)"
proof -
  have "validate (fold apply_call [With_http_client_factory (Some \<lparr>enable_caching = True, ttl_s = ONE_DAY_S\<rparr>),
      With_data_provider (Some k),
      With_thread_pools \<lparr>io_threads = sur_hardware_concurrency sur div 2, compute_threads = sur_hardware_concurrency sur\<rparr>,
      With_plugin_names enabled_plugin_names, With_renderer (Some ConsoleRenderer)] new_builder) =
    (Inl (Runtime_error ''Data provider is required'') :: 'l builder result)"
    by (rule validation_always_fails)
  then show ?thesis by (cases "sur_curl_global_init sur") (simp_all add: program_engine_def curl_global_def)
qed

lemma program_engine_simps [simp]: "program_engine sur k \<noteq> Inr e" "program_engine sur k = Inl x \<Longrightarrow> exit_of_exception x = Exit 1"
  using program_engine_throws [of sur k] by (auto simp: exit_of_exception_def)

end
