(* ===== verification/Http_Properties.thy ===== *)
theory Http_Properties
  imports Stock_Api
begin

text \<open>
  What the HTTP layer guarantees: the cache returns what was stored, a write replaces a file or
  leaves it, freshness respects the time to live, and retries are bounded.  Two properties show
  how caching and retrying interact.
\<close>

section \<open>The cache\<close>

text \<open>C31: What is stored in the cache is found again: after a response with one-line, trimmed headers has been
  cached without an error, the cached response for the request is that response under the url of the
  request.\<close>

theorem cache_returns_stored_response:
  assumes "enable_caching policy" "cache_response hash policy now req resp fs = (fs', Inr ())"
    and "response_ok resp" "long_ok now"
  shows "\<exists>h. probe hash policy ts req fs' = Inr (Some h) \<and>
    get_cached_response h = resp\<lparr>effective_url := req_url req\<rparr> \<and> meta_unix_ts_s (hit_meta h) = now"
  using probe_cached [OF assms, of ts] by (simp add: get_cached_response_def meta_of_response_def)

definition demo_fs :: file_system where
  "demo_fs = \<lparr>files = (\<lambda>p. None), can_open = (\<lambda>p. True), can_write = (\<lambda>p. True), can_rename = (\<lambda>p. True),
     can_create_directories = True\<rparr>"

definition demo_request :: request where
  "demo_request = \<lparr>req_url = ''https://x/a'', req_method = ''GET'', req_body = [], req_headers = []\<rparr>"

definition demo_response :: response where
  "demo_response = empty_response\<lparr>status := 200, body := ''{}'', etag := ''\"a: b\"'', cache_control := ''max-age=60''\<rparr>"

lemma cache_response_writable:
  assumes "enable_caching policy" "can_create_directories fs" "\<And>p. can_open fs p" "\<And>p. can_write fs p" "\<And>p. can_rename fs p"
  shows "\<exists>fs'. cache_response hash policy now req resp fs = (fs', Inr ())"
  using assms by (simp add: cache_response_def create_base_path_def save_meta_atomic_def write_atomic_def Let_def)

theorem cache_returns_stored_response_witness:
  "\<exists>fs' h. cache_response length default_cache_policy 1000 demo_request demo_response demo_fs = (fs', Inr ()) \<and>
     probe length default_cache_policy 0 demo_request fs' = Inr (Some h) \<and>
     get_cached_response h = demo_response\<lparr>effective_url := ''https://x/a''\<rparr>"
proof -
  have e: "enable_caching default_cache_policy" by (simp add: default_cache_policy_def)
  then obtain fs' where c: "cache_response length default_cache_policy 1000 demo_request demo_response demo_fs = (fs', Inr ())"
    using cache_response_writable [of default_cache_policy demo_fs length 1000 demo_request demo_response]
    by (auto simp: demo_fs_def)
  have "response_ok demo_response" "long_ok 1000" by code_simp+
  then show ?thesis
    using cache_returns_stored_response [OF e c, of 0] c by (auto simp: demo_request_def)
qed

text \<open>A write either succeeds and the file holds the new bytes, or fails and the file holds what it held
  before; no other file than the temporary one is touched.\<close>

lemma write_replaces_or_keeps:
  "(case write_atomic p bytes fs of
      (fs', Inl e) \<Rightarrow> files fs' p = files fs p
    | (fs', Inr u) \<Rightarrow> files fs' p = Some bytes) \<and>
   (q = p \<or> q = p @ ''.tmp'' \<or> files (fst (write_atomic p bytes fs)) q = files fs q)"
proof -
  obtain fs' r where w: "write_atomic p bytes fs = (fs', r)" by fastforce
  show ?thesis
  proof (cases r)
    case (Inl e)
    then show ?thesis using write_atomic_fail [of p bytes fs fs' e] w tmp_differs [of p] by (auto split: if_splits)
  next
    case (Inr u)
    then show ?thesis using write_atomic_ok [of p bytes fs fs' u] w by auto
  qed
qed

text \<open>An entry that counts as fresh is not older than the time to live, whatever its cache control says,
  and an entry whose cache control is a single \<^verbatim>\<open>max-age\<close> is fresh exactly while its age is within both.\<close>

lemma fresh_within_time_to_live:
  assumes "0 \<le> ttl_s policy" "meta_unix_ts_s m \<le> now"
  shows "(fresh_enough policy now m \<longrightarrow> now - meta_unix_ts_s m \<le> ttl_s policy) \<and>
    (meta_cache_control m = MAX_AGE_KEY @ ''='' @ show_nat n \<and> int n \<le> LONG_MAX \<longrightarrow>
       fresh_enough policy now m = (now - meta_unix_ts_s m \<le> min (ttl_s policy) (int n)))"
proof (intro conjI impI)
  have age: "max (now - meta_unix_ts_s m) 0 = now - meta_unix_ts_s m" using assms(2) by simp
  show "now - meta_unix_ts_s m \<le> ttl_s policy" if "fresh_enough policy now m"
    using fresh_loop_within_ttl [OF assms(1)] that age by (simp add: fresh_enough_def)
  assume c: "meta_cache_control m = MAX_AGE_KEY @ ''='' @ show_nat n \<and> int n \<le> LONG_MAX"
  let ?t = "MAX_AGE_KEY @ ''='' @ show_nat n"
  have digit: "is_digit (last (show_nat n))" "is_digit (hd (show_nat n))"
    using show_nat_digits last_in_set hd_in_set show_nat_not_Nil by blast+
  have "CHR '','' \<notin> set (show_nat n)" using show_nat_digits [of n] by (auto simp: is_digit_def)
  then have "token_ok ?t"
    using digit(1) by (auto simp: token_ok_def MAX_AGE_KEY_def is_blank_def [of "CHR ''m''"])
  then have split: "split_comma_delimited_string (meta_cache_control m) = [?t]"
    using split_join [of "[?t]"] c by simp
  have tr: "trim ?t = ?t" by (rule trim_id) (use digit(1) in \<open>simp add: MAX_AGE_KEY_def is_space_def [of "CHR ''m''"]\<close>)
  have k: "\<not> ieq_prefix ?t (length ?t) NO_STORE_KEY" "\<not> ieq_prefix ?t (length ?t) NO_CACHE_KEY"
    "ieq_prefix ?t (length ?t) MAX_AGE_KEY"
    by (simp_all add: ieq_prefix_iff MAX_AGE_KEY_def NO_STORE_KEY_def NO_CACHE_KEY_def tolower_def)
  have d: "dropWhile (\<lambda>c. c \<noteq> CHR ''='') ?t = ''='' @ show_nat n" by (simp add: MAX_AGE_KEY_def)
  have "trim (show_nat n) = show_nat n" by (rule trim_id) (use digit in simp)
  then have "directive_max_age ?t = Some (int n)"
    using strtol_digits [OF show_nat_not_Nil show_nat_digits, of n] c
    unfolding directive_max_age_def d by (simp add: digits_val_show_nat)
  then show "fresh_enough policy now m = (now - meta_unix_ts_s m \<le> min (ttl_s policy) (int n))"
    using k unfolding fresh_enough_def split fresh_loop.simps Let_def tr age by (simp only: if_True if_False option.case)
qed

section \<open>Retries\<close>

text \<open>C32: A request with retries makes at most as many transfers as the policy allows tries.\<close>

theorem retries_bounded:
  assumes "counts_transfers env c"
  shows "c (world (fst (get_with_retries env hash policy p req s))) \<le> c (world s) + max_tries p"
  using retry_loop_count [OF assms] by (simp add: get_with_retries_def)

text \<open>A world that counts transfers, under a server that answers every one with the same status.\<close>

definition demo_env :: "int \<Rightarrow> nat environment" where
  "demo_env code =
     \<lparr>env_perform = (\<lambda>u hs w. (Transferred \<lparr>tr_code = code, tr_effective_url = None, tr_headers = [], tr_body = []\<rparr>, Suc w)),
      env_now = (\<lambda>w. 0), env_sleep = (\<lambda>ms w. w), env_jitter = (\<lambda>b w. (0, w))\<rparr>"

definition demo_client :: "nat client" where
  "demo_client = \<lparr>curl = new_curl_easy, disk = demo_fs, world = 0\<rparr>"

lemma demo_env_counts: "counts_transfers (demo_env code) id"
  by (simp add: counts_transfers_def demo_env_def)

theorem retries_bounded_witness:
  "world (fst (get_with_retries (demo_env 503) length default_cache_policy default_retry_policy demo_request demo_client)) \<le> 3"
  using retries_bounded [OF demo_env_counts, of 503 length default_cache_policy default_retry_policy demo_request demo_client]
  by (simp add: demo_client_def default_retry_policy_def)

text \<open>The world after the first \<open>n\<close> delays between attempts.\<close>

fun delayed :: "'w environment \<Rightarrow> retry_policy \<Rightarrow> nat \<Rightarrow> int \<Rightarrow> 'w \<Rightarrow> 'w" where
  "delayed env p 0 d w = w"
| "delayed env p (Suc n) d w =
     (let (jitter, w1) = env_jitter env (base_delay p) w
      in delayed env p n (min (d * 2) (max_delay p)) (env_sleep env (d + jitter) w1))"

lemma get_retry_delay_disk: "disk (snd (get_retry_delay env p d s)) = disk s"
  by (simp add: get_retry_delay_def Let_def split: prod.split)

lemma delayed_Suc:
  "delayed env p (Suc n) d (world s) =
     delayed env p n (fst (get_retry_delay env p d s)) (world (snd (get_retry_delay env p d s)))"
  by (simp add: get_retry_delay_def Let_def split: prod.split)

text \<open>A retryable response in the cache answers every further attempt, as long as it is fresh.\<close>

lemma retry_from_cache:
  assumes c: "counts_transfers env c" and e: "enable_caching policy"
    and cr: "cache_response hash policy now req r fs = (fs', Inr ())" "response_ok r" "long_ok now"
    and r: "is_retryable_http (status r)"
  shows "disk s = fs' \<Longrightarrow>
    \<forall>i<k. fresh_enough policy (env_now env (delayed env p i d (world s))) (meta_of_response now r) \<Longrightarrow>
    c (world (fst (retry_loop env hash policy p req k d s))) = c (world s)"
proof (induction k arbitrary: d s)
  case (Suc k)
  have "fresh_enough policy (env_now env (world s)) (meta_of_response now r)"
    using Suc.prems(2) [rule_format, of 0] by simp
  then have g: "get env hash policy req s = (s, Inr (r\<lparr>effective_url := req_url req\<rparr>))"
    by (rule get_after_cache [OF e cr Suc.prems(1)])
  have sleep: "c (env_sleep env ms w) = c w" for ms w using c by (simp add: counts_transfers_def)
  have delay: "c (world (fst (case get_retry_delay env p d s of (d2, s2) \<Rightarrow> retry_loop env hash policy p req k d2 s2))) = c (world s)"
  proof -
    have "\<forall>i<k. fresh_enough policy (env_now env (delayed env p i (fst (get_retry_delay env p d s))
        (world (snd (get_retry_delay env p d s))))) (meta_of_response now r)"
      using Suc.prems(2) unfolding delayed_Suc [symmetric] by blast
    then show ?thesis
      using Suc.IH Suc.prems(1) get_retry_delay_count [OF c, of p d s] get_retry_delay_disk [of env p d s]
      by (simp add: split_beta)
  qed
  show ?case
  proof (cases "k = 0")
    case False
    then show ?thesis using delay r by (simp add: g)
  qed (use sleep in \<open>simp add: g Let_def\<close>)
qed simp

lemma fresh_meta_of_response:
  assumes "cache_control r = []" "now \<le> t" "t \<le> now + ttl_s policy"
  shows "fresh_enough policy t (meta_of_response now r)"
  using assms by (simp add: fresh_enough_def meta_of_response_def fresh_loop_Nil)

text \<open>C37: Retries do not reach the server.  A response with a retryable status and without cache control is stored in
  the cache like any other, so every further attempt that falls into its time to live is answered from the cache:
  if all attempts do, a request with retries for which the cache has no entry yet
  makes one transfer, however many tries are left.\<close>

theorem retries_answered_from_cache:
  assumes "counts_transfers env c" "enable_caching policy" "0 < max_tries p"
    and "\<And>q. can_open (disk s) q" "\<And>q. can_write (disk s) q" "\<And>q. can_rename (disk s) q"
    and "probe hash policy 0 req (disk s) = Inr None"
    and "env_perform env (req_url req) (req_headers req) (world s) = (Transferred t, w)"
    and "make_response t (fold header_cb (tr_headers t) (prepare_for_new_request (curl s))) = (r, cu)"
    and "is_retryable_http (status r)" "response_ok r" "cache_control r = []"
    and "long_ok (env_now env w)"
    and "\<forall>i<max_tries p. env_now env w \<le> env_now env (delayed env p i (base_delay p) w) \<and>
      env_now env (delayed env p i (base_delay p) w) \<le> env_now env w + ttl_s policy"
  shows "c (world (fst (get_with_retries env hash policy p req s))) = Suc (c (world s))"
proof -
  let ?now = "env_now env w"
  have "can_create_directories (disk s)"
    using assms(2,7) by (simp add: probe_def create_base_path_def split: if_splits)
  then obtain fs' where cr: "cache_response hash policy ?now req r (disk s) = (fs', Inr ())"
    using cache_response_writable [of policy "disk s"] assms(2,4-6) by blast
  define s1 where "s1 = s\<lparr>curl := cu, disk := fs', world := w\<rparr>"
  have g: "get env hash policy req s = (s1, Inr r)"
    using assms(7-9) cr
    by (simp add: get_def fetch_def finish_get_def Let_def conditional_headers_def fresh_hit_def s1_def)
  have cw: "c w = Suc (c (world s))" using assms(1,8) unfolding counts_transfers_def by (metis snd_conv)
  obtain k where k: "max_tries p = Suc k" using assms(3) by (cases "max_tries p") auto
  let ?d = "get_retry_delay env p (base_delay p) s1"
  have "\<forall>i<k. fresh_enough policy (env_now env (delayed env p i (fst ?d) (world (snd ?d)))) (meta_of_response ?now r)"
    using assms(14) fresh_meta_of_response [OF assms(12)] unfolding delayed_Suc [symmetric] k
    by (simp add: s1_def del: delayed.simps)
  then have "c (world (fst (retry_loop env hash policy p req k (fst ?d) (snd ?d)))) = c (world (snd ?d))"
    using retry_from_cache [OF assms(1,2) cr assms(11,13,10), of "snd ?d" k p "fst ?d"]
    by (simp add: get_retry_delay_disk s1_def)
  then have delay: "c (world (fst (case ?d of (d2, s2) \<Rightarrow> retry_loop env hash policy p req k d2 s2))) = Suc (c (world s))"
    using get_retry_delay_count [OF assms(1), of p "base_delay p" s1] cw by (simp add: split_beta s1_def)
  have sleep: "c (env_sleep env ms w) = c w" for ms w using assms(1) by (simp add: counts_transfers_def)
  show ?thesis
  proof (cases "k = 0")
    case False
    then show ?thesis using delay assms(10) by (simp add: get_with_retries_def k g)
  qed (use sleep cw in \<open>simp add: get_with_retries_def k g Let_def s1_def\<close>)
qed

theorem retries_answered_from_cache_witness:
  "world (fst (get_with_retries (demo_env 503) length default_cache_policy default_retry_policy demo_request demo_client)) = 1"
proof -
  have h: "env_perform (demo_env 503) (req_url demo_request) (req_headers demo_request) (world demo_client) =
      (Transferred \<lparr>tr_code = 503, tr_effective_url = None, tr_headers = [], tr_body = []\<rparr>, 1)"
    by (simp add: demo_env_def demo_client_def)
  have m: "make_response \<lparr>tr_code = 503, tr_effective_url = None, tr_headers = [], tr_body = []\<rparr>
      (fold header_cb (tr_headers \<lparr>tr_code = 503, tr_effective_url = None, tr_headers = [], tr_body = []\<rparr>)
        (prepare_for_new_request (curl demo_client))) = (empty_response\<lparr>status := 503\<rparr>, new_curl_easy)"
    by (simp add: make_response_def prepare_for_new_request_def demo_client_def new_curl_easy_def empty_response_def)
  have "id (world (fst (get_with_retries (demo_env 503) length default_cache_policy default_retry_policy demo_request demo_client)))
      = Suc (id (world demo_client))"
  proof (rule retries_answered_from_cache [OF demo_env_counts _ _ _ _ _ _ h m])
    show "probe length default_cache_policy 0 demo_request (disk demo_client) = Inr None"
      by (simp add: probe_def create_base_path_def load_meta_def demo_client_def demo_fs_def Let_def)
    show "response_ok (empty_response\<lparr>status := 503\<rparr>)" by code_simp
    show "long_ok (env_now (demo_env 503) 1)" by code_simp
    show "is_retryable_http (status (empty_response\<lparr>status := 503\<rparr>))"
      by (simp add: is_retryable_http_def SERVICE_UNAVAILABLE_def)
  qed (simp_all add: default_cache_policy_def default_retry_policy_def demo_env_def demo_client_def demo_fs_def ONE_DAY_S_def
      empty_response_def)
  then show ?thesis by (simp add: demo_client_def)
qed

text \<open>When the last try is answered with 429 and a \<^verbatim>\<open>Retry-After\<close> header, the answer is lost: the client
  sleeps and then returns an empty response with status 0.\<close>

lemma last_rate_limit_answer_lost:
  assumes "max_tries p = 1" "get env hash policy req s = (s1, Inr resp)"
    and "status resp = TOO_MANY_REQUESTS" "retry_after resp \<noteq> []"
  shows "snd (get_with_retries env hash policy p req s) = Inr empty_response"
  using assms by (simp add: get_with_retries_def Let_def)

section \<open>Bars\<close>

text \<open>Bars are only returned for a status from 200 to 299; there is one bar for each entry of the result
  array, in its order, and each carries the ticker of its entry and its time in nanoseconds.\<close>

lemma bars_of_successful_response:
  assumes "custom_aggregate_bars api api_key env hash policy args s = (s', Inr bars)"
  shows "\<exists>resp doc entries. snd (get_with_retries env hash policy default_retry_policy
        (build_custom_aggregate_bars api_key args) s) = Inr resp \<and> 200 \<le> status resp \<and> status resp < 300 \<and>
      json_iterate api (body resp) = Inr doc \<and> member_as api (json_array api) doc ''results'' = Inr entries \<and>
      length (results bars) = length entries \<and>
      (\<forall>i<length entries. \<exists>t. member_as api (json_int64 api) (entries ! i) ''t'' = Inr t \<and>
         bar_unix_ts_ns (results bars ! i) = t * int64_of_int 1000000 \<and>
         member_as api (json_string api) (entries ! i) ''ticker'' = Inr (bar_symbol (results bars ! i)))"
proof -
  obtain resp where resp: "get_with_retries env hash policy default_retry_policy (build_custom_aggregate_bars api_key args) s = (s', Inr resp)"
    "200 \<le> status resp" "status resp < 300" "parse_document api (body resp) = Inr bars"
    by (rule custom_aggregate_bars_success [OF assms])
  obtain doc entries where d: "json_iterate api (body resp) = Inr doc"
    "member_as api (json_array api) doc ''results'' = Inr entries" "parse_bars api entries = Inr (results bars)"
    using resp(4) by (auto simp: parse_document_def bindE_eq_Inr)
  have "\<exists>t. member_as api (json_int64 api) (entries ! i) ''t'' = Inr t \<and>
      bar_unix_ts_ns (results bars ! i) = t * int64_of_int 1000000 \<and>
      member_as api (json_string api) (entries ! i) ''ticker'' = Inr (bar_symbol (results bars ! i))" if "i < length entries" for i
    using parse_bar_fields [OF parse_bars_nth [OF d(3) that]] .
  then show ?thesis using resp d(1,2) parse_bars_length [OF d(3)] by (intro exI [of _ resp] exI [of _ doc] exI [of _ entries]) auto
qed

text \<open>A JSON document and a server that sends it.\<close>

datatype json = JInt int | JBool bool | JStr string | JArr "json list" | JObj "(string \<times> json) list"

definition demo_json :: json where
  "demo_json = JObj [(''ticker'', JStr ''ABC''), (''adjusted'', JBool True), (''queryCount'', JInt 1), (''resultsCount'', JInt 1),
     (''results'', JArr [JObj [(''v'', JInt 5), (''vw'', JInt 5), (''o'', JInt 5), (''c'', JInt 5), (''h'', JInt 5), (''l'', JInt 5),
        (''t'', JInt 7), (''n'', JInt 1), (''ticker'', JStr ''ABC'')]])]"

definition demo_api :: "json json_api" where
  "demo_api =
     \<lparr>json_iterate = (\<lambda>s. Inr demo_json),
      json_field = (\<lambda>j k. case j of JObj kvs \<Rightarrow> (case map_of kvs k of None \<Rightarrow> Inl ''no field'' | Some v \<Rightarrow> Inr v) | _ \<Rightarrow> Inl ''no object''),
      json_array = (\<lambda>j. case j of JArr js \<Rightarrow> Inr js | _ \<Rightarrow> Inl ''no array''),
      json_string = (\<lambda>j. case j of JStr s \<Rightarrow> Inr s | _ \<Rightarrow> Inl ''no string''),
      json_bool = (\<lambda>j. case j of JBool b \<Rightarrow> Inr b | _ \<Rightarrow> Inl ''no bool''),
      json_int64 = (\<lambda>j. case j of JInt i \<Rightarrow> Inr (int64_of_int i) | _ \<Rightarrow> Inl ''no int''),
      json_int = (\<lambda>j. case j of JInt i \<Rightarrow> Inr i | _ \<Rightarrow> Inl ''no int''),
      json_double = (\<lambda>j. case j of JInt i \<Rightarrow> Inr (Fin (of_int i)) | _ \<Rightarrow> Inl ''no number'')\<rparr>"

end
