(* ===== verification/Plugin_Properties.thy ===== *)
theory Plugin_Properties
  imports Plugin_Manager Scenario Http_Properties
begin

text \<open>
  What the plugin side guarantees: the manifests it accepts, the life of a native plugin, the plugins
  the manager keeps, and what becomes of a run whose plugin cannot be called.
\<close>

section \<open>Manifests\<close>

lemmas manifest_options = KIND_PARSER_OPTIONS_def API_VERSION_PARSER_OPTIONS_def TIMESPAN_UNIT_PARSER_OPTIONS_def
  COMMISSION_TYPE_PARSER_OPTIONS_def SLIPPAGE_MODEL_PARSER_OPTIONS_def DEFAULT_CURRENCY_PARSER_OPTIONS_def
  TIMEZONE_PARSER_OPTIONS_def OPTIMIZATION_MODE_PARSER_OPTIONS_def POSITION_SIZING_METHOD_PARSER_OPTIONS_def

lemma parse_symbol_unit:
  "parse_symbol api r = Inr s \<Longrightarrow>
     sym_timespan_unit s \<in> {''second'', ''minute'', ''hour'', ''day'', ''week'', ''month'', ''year''}"
  by (auto simp: parse_symbol_def bindR_eq_Inr parse_value_Inr TIMESPAN_UNIT_PARSER_OPTIONS_def split: sum.splits)

lemma parse_symbols_all:
  assumes "\<And>r s. parse_symbol api r = Inr s \<Longrightarrow> Q s"
  shows "parse_symbols api rs = Inr ss \<Longrightarrow> length ss = length rs \<and> list_all Q ss"
  using assms by (induction rs arbitrary: ss) (auto simp: bindR_eq_Inr)

text \<open>The choices a manifest leaves to its author, as the engine reads them.\<close>

definition choices_ok :: "host_params \<Rightarrow> bool" where
  "choices_ok hp \<longleftrightarrow>
     hp_commission_type hp \<in> Some ` {''per_share'', ''percentage'', ''flat''} \<and>
     hp_slippage_model hp \<in> Some ` {''none'', ''time_based'', ''time_volume_based''} \<and>
     hp_default_currency hp = Some ''USD'' \<and> hp_timezone hp = Some ''America/New_York'' \<and>
     hp_optimization_mode hp \<in> Some ` {''none'', ''grid_search'', ''bayesian'', ''genetic''} \<and>
     hp_position_sizing_method hp \<in> Some ` {''fixed_percentage'', ''fixed_dollar'', ''equal_weight''}"

text \<open>Every optional parameter that the engine looks at is there.\<close>

definition all_given :: "host_params \<Rightarrow> bool" where
  "all_given hp \<longleftrightarrow>
     None \<notin> {hp_market_hours_only hp, hp_allow_fractional_shares hp, hp_use_stop_loss hp, hp_use_take_profit hp,
       hp_allow_short_selling hp} \<and>
     None \<notin> {hp_commission hp, hp_slippage hp, hp_position_size_value hp, hp_max_position_size hp,
       hp_stop_loss_pct hp, hp_take_profit_pct hp, hp_fill_max_pct_of_volume hp, hp_risk_free_rate hp,
       hp_initial_margin_pct hp, hp_max_leverage hp}"

lemma parse_host_params_given:
  "parse_host_params api doc syms = Inr hp \<Longrightarrow> all_given hp \<and> hp_symbols hp = syms"
  unfolding parse_host_params_def Let_def bindR_eq_Inr
  by (elim exE conjE, drule sum.inject(2) [THEN iffD1], hypsubst) (simp (no_asm) add: all_given_def)

lemma parse_host_params_choices:
  "parse_host_params api doc syms = Inr hp \<Longrightarrow> choices_ok hp"
  unfolding parse_host_params_def Let_def bindR_eq_Inr
  by (elim exE conjE, drule sum.inject(2) [THEN iffD1], hypsubst, (drule host_param_Inr)+)
    (simp add: choices_ok_def manifest_options)

text \<open>The parameters that are marked as not required.\<close>

definition optional_params :: "string list" where
  "optional_params =
     [''position_sizing_method'', ''position_size_value'', ''max_position_size'', ''use_stop_loss'', ''stop_loss_pct'',
      ''use_take_profit'', ''take_profit_pct'', ''fill_max_pct_of_volume'', ''risk_free_rate'', ''allow_short_selling'',
      ''initial_margin_pct'', ''max_leverage'']"

lemma host_param_missing:
  "host_param api doc conv key options = Inr v \<Longrightarrow> json_field (mj_api api) doc ''host_params'' = Inr params \<Longrightarrow>
     json_field (mj_api api) params key \<noteq> Inl x"
  by (auto simp: host_param_def parse_value_Inr member_as_def bindE_def)

lemma parse_host_params_missing:
  assumes "json_field (mj_api api) doc ''host_params'' = Inr params" "key \<in> set optional_params"
    and "json_field (mj_api api) params key = Inl x"
  shows "parse_host_params api doc syms \<noteq> Inr hp"
proof
  assume "parse_host_params api doc syms = Inr hp"
  then have "list_all (\<lambda>k. json_field (mj_api api) params k \<noteq> Inl x) optional_params"
    unfolding parse_host_params_def Let_def bindR_eq_Inr optional_params_def
    apply (elim exE conjE)
    apply (drule host_param_missing [where x = x, OF _ assms(1)])+
    apply (simp only: list.pred_inject HOL.simp_thms)
    done
  then show False using assms(2,3) by (auto simp: list_all_iff)
qed

lemma case_sum_eq_Inr:
  "(case x of Inl e \<Rightarrow> Inl a | Inr y \<Rightarrow> f y) = Inr z \<longleftrightarrow> (\<exists>y. x = Inr y \<and> f y = Inr z)"
  by (cases x) auto

lemma parse_json_Inr:
  assumes "parse_json api doc = Inr m"
  shows "pm_api_version m = 1 \<and> pm_kind m \<in> {''python'', ''native''} \<and>
    (\<exists>raw syms. parse_symbols api raw = Inr syms \<and> parse_host_params api doc syms = Inr (pm_host_params m))"
proof -
  have "to_int32 1 = 1" by code_simp
  then show ?thesis
    using assms unfolding parse_json_def Let_def bindR_eq_Inr case_sum_eq_Inr
    by (elim exE conjE, drule_tac sum.inject(2) [THEN iffD1], hypsubst)
      (auto simp: parse_value_Inr KIND_PARSER_OPTIONS_def API_VERSION_PARSER_OPTIONS_def)
qed

text \<open>C23: A manifest that parses is one the engine understands: its API version is 1, its kind is one of the
  two the manager can load, the commission, slippage, currency, time zone, optimisation and sizing
  choices are among those its option tables list, every optional parameter has a value, and each symbol has a
  unit of time from second to year.  The schema of manifests documents the units up to week only.\<close>

theorem parsed_manifest_valid:
  assumes "parse_json api doc = Inr m"
  shows "pm_api_version m = 1 \<and> (is_python m \<longleftrightarrow> \<not> is_native m) \<and> choices_ok (pm_host_params m) \<and>
    all_given (pm_host_params m) \<and>
    list_all (\<lambda>s. sym_timespan_unit s \<in> {''second'', ''minute'', ''hour'', ''day'', ''week'', ''month'', ''year''})
      (hp_symbols (pm_host_params m))"
proof -
  obtain raw syms where m: "pm_api_version m = 1" "pm_kind m \<in> {''python'', ''native''}"
    and s: "parse_symbols api raw = Inr syms" and h: "parse_host_params api doc syms = Inr (pm_host_params m)"
    using parse_json_Inr [OF assms] by blast
  have "is_python m \<longleftrightarrow> \<not> is_native m" using m(2) by (auto simp: is_python_def is_native_def)
  moreover have "list_all (\<lambda>s. sym_timespan_unit s \<in> {''second'', ''minute'', ''hour'', ''day'', ''week'', ''month'', ''year''}) syms"
    by (rule conjunct2 [OF parse_symbols_all [OF _ s]]) (rule parse_symbol_unit)
  ultimately show ?thesis
    using m(1) parse_host_params_given [OF h] parse_host_params_choices [OF h] by simp
qed

definition demo_host_json :: "(string \<times> json) list" where
  "demo_host_json =
     [(''symbols'', JArr [JObj [(''primary'', JBool True), (''timespan'', JInt 1), (''symbol'', JStr ''ABC''),
        (''timespan_unit'', JStr ''minute'')]]),
      (''market_hours_only'', JBool False), (''allow_fractional_shares'', JBool False),
      (''monte_carlo_runs'', JInt 1), (''monte_carlo_seed'', JInt 7), (''initial_capital'', JStr ''1000.000000''),
      (''backtest_start_datetime'', JStr ''2023-01-01''), (''backtest_end_datetime'', JStr ''2024-01-01''),
      (''commission'', JInt 0), (''commission_type'', JStr ''flat''), (''slippage'', JInt 0),
      (''slippage_model'', JStr ''none''), (''default_currency'', JStr ''USD''), (''timezone'', JStr ''America/New_York''),
      (''optimization_mode'', JStr ''none''), (''position_sizing_method'', JStr ''equal_weight''),
      (''position_size_value'', JInt 1), (''max_position_size'', JInt 100), (''use_stop_loss'', JBool False),
      (''stop_loss_pct'', JInt 0), (''use_take_profit'', JBool False), (''take_profit_pct'', JInt 0),
      (''fill_max_pct_of_volume'', JInt 1), (''risk_free_rate'', JInt 0), (''allow_short_selling'', JBool False),
      (''initial_margin_pct'', JInt 1), (''max_leverage'', JInt 1)]"

definition demo_manifest_json :: "(string \<times> json) list \<Rightarrow> json" where
  "demo_manifest_json host =
     JObj [(''name'', JStr ''demo''), (''kind'', JStr ''native''), (''entry'', JStr ''demo.so''), (''description'', JStr ''-''),
       (''author'', JStr ''-''), (''version'', JStr ''1.0.0''), (''api_version'', JInt 1), (''host_params'', JObj host),
       (''strategy_params'', JStr ''{}'')]"

definition demo_manifest_api :: "json manifest_json" where
  "demo_manifest_api =
     \<lparr>mj_api = demo_api, mj_object = (\<lambda>j. case j of JObj kvs \<Rightarrow> Inr j | _ \<Rightarrow> Inl ''no object''),
      mj_text = json_string demo_api\<rparr>"

lemma demo_manifest_parses:
  obtains m where "parse_json demo_manifest_api (demo_manifest_json demo_host_json) = Inr m"
proof -
  have "case parse_json demo_manifest_api (demo_manifest_json demo_host_json) of Inl x \<Rightarrow> False | Inr m \<Rightarrow> True"
    by code_simp
  then show thesis using that by (auto split: sum.splits)
qed

theorem parsed_manifest_valid_witness:
  "\<exists>m. parse_json demo_manifest_api (demo_manifest_json demo_host_json) = Inr m \<and> choices_ok (pm_host_params m) \<and>
     all_given (pm_host_params m)"
proof -
  obtain m where m: "parse_json demo_manifest_api (demo_manifest_json demo_host_json) = Inr m" by (rule demo_manifest_parses)
  then show ?thesis using parsed_manifest_valid [OF m] by blast
qed

text \<open>C36: A parameter that is marked as not required is required all the same: a manifest whose host
  parameters lack it is rejected.\<close>

theorem missing_optional_parameter_rejected:
  assumes "json_field (mj_api api) doc ''host_params'' = Inr params" "key \<in> set optional_params"
    and "json_field (mj_api api) params key = Inl x"
  shows "\<exists>e. parse_json api doc = Inl e"
proof (cases "parse_json api doc")
  case (Inr m)
  then show ?thesis using parse_json_Inr [OF Inr] parse_host_params_missing [OF assms] by blast
qed simp

theorem missing_optional_parameter_rejected_witness:
  "\<exists>e. parse_json demo_manifest_api
     (demo_manifest_json (filter (\<lambda>(k, v). k \<noteq> ''stop_loss_pct'') demo_host_json)) = Inl e"
proof (rule missing_optional_parameter_rejected)
  show "json_field (mj_api demo_manifest_api)
      (demo_manifest_json (filter (\<lambda>(k, v). k \<noteq> ''stop_loss_pct'') demo_host_json)) ''host_params'' =
      Inr (JObj (filter (\<lambda>(k, v). k \<noteq> ''stop_loss_pct'') demo_host_json))"
    by (simp add: demo_manifest_api_def demo_api_def demo_manifest_json_def)
  show "''stop_loss_pct'' \<in> set optional_params" by (simp add: optional_params_def)
  show "json_field (mj_api demo_manifest_api)
      (JObj (filter (\<lambda>(k, v). k \<noteq> ''stop_loss_pct'') demo_host_json)) ''stop_loss_pct'' = Inl ''no field''"
    by (simp add: demo_manifest_api_def demo_api_def demo_host_json_def)
qed

text \<open>C25: With the parameters of a parsed manifest the loop of \<^verbatim>\<open>BackTestEngine::run\<close> over its bars and the end of the
  back test return when shares are whole, the maximal
  position size and the orders of the plugin do not exceed \<open>2 ^ 53\<close> shares, and the plugin reports no
  error and signals only for the symbol of the bar it is shown.  A parsed manifest always has a cap
  by volume and a maximal position size.  The read of the bars before the loop is not part of this.\<close>

theorem manifest_bars_complete:
  assumes "parse_json api doc = Inr m" "hp_allow_fractional_shares (pm_host_params m) = Some False"
    and "\<And>s. hp_max_position_size (pm_host_params m) = Some s \<Longrightarrow> s \<le> Fin (2 ^ 53)"
    and "\<And>b p c. b \<in> set bars \<Longrightarrow> answers (result_ok b) (fst (plug_bar p b c))"
    and "\<And>b p c r x. b \<in> set bars \<Longrightarrow> fst (plug_bar p b c) = Inr r \<Longrightarrow> CInstr_order x \<in> set (pr_instructions r) \<Longrightarrow>
      small (cord_quantity x)"
    and "\<And>p. answers (\<lambda>r. pr_code r = 0) (fst (plug_end p))"
  shows "\<exists>e' p'. run_on_bars u now (pm_host_params m) plug_bar plug_end free bars (prepare_engine (pm_host_params m) empty_engine, p) =
    Some (Inr (e', p', \<lparr>some_value = ''some_value'', another_value = ''another_value''\<rparr>))"
proof (rule run_complete)
  show "fits (pm_host_params m) (prepare_engine (pm_host_params m) empty_engine)"
    by (rule fits_initial) (use empty_engine_sized assms(2) in \<open>simp add: fits_def\<close>)
  obtain raw syms where "parse_host_params api doc syms = Inr (pm_host_params m)"
    using parse_json_Inr [OF assms(1)] by blast
  then obtain s where s: "hp_max_position_size (pm_host_params m) = Some s"
    using parse_host_params_given by (fastforce simp: all_given_def)
  show "answers (\<lambda>r. result_ok b r \<and> asks_small (pm_host_params m) r) (fst (plug_bar p b c))"
    if "b \<in> set bars" for b p c
    using assms(4) [OF that, of p c] assms(5) [OF that, of p c] s assms(2) assms(3) [OF s]
    by (auto simp: answers_def asks_small_def split: cinstruction.split sum.splits)
qed (rule assms(6))

theorem manifest_bars_complete_witness:
  "\<exists>m e' p'. parse_json demo_manifest_api (demo_manifest_json demo_host_json) = Inr m \<and>
     run_on_bars demo_uuids 0 (pm_host_params m) demo_on_bar demo_on_end demo_free demo_bars (prepare_engine (pm_host_params m) empty_engine, 0) =
       Some (Inr (e', p', \<lparr>some_value = ''some_value'', another_value = ''another_value''\<rparr>))"
proof -
  obtain m where m: "parse_json demo_manifest_api (demo_manifest_json demo_host_json) = Inr m" by (rule demo_manifest_parses)
  have "case parse_json demo_manifest_api (demo_manifest_json demo_host_json) of Inl x \<Rightarrow> False
    | Inr m \<Rightarrow> hp_allow_fractional_shares (pm_host_params m) = Some False \<and>
        hp_max_position_size (pm_host_params m) = Some (Fin 100)"
    by code_simp
  then have p: "hp_allow_fractional_shares (pm_host_params m) = Some False"
    "hp_max_position_size (pm_host_params m) = Some (Fin 100)" using m by simp_all
  have "\<exists>e' p'. run_on_bars demo_uuids 0 (pm_host_params m) demo_on_bar demo_on_end demo_free demo_bars (prepare_engine (pm_host_params m) empty_engine, 0) =
      Some (Inr (e', p', \<lparr>some_value = ''some_value'', another_value = ''another_value''\<rparr>))"
    by (rule manifest_bars_complete [OF m p(1)])
      (use p(2) demo_result_ok in \<open>auto simp: demo_on_end_def demo_on_bar_def answers_def split: if_splits\<close>)
  then show ?thesis using m by blast
qed

section \<open>Native plugins\<close>

text \<open>C24: The life of a native plugin, whose \<^verbatim>\<open>create_plugin\<close> does not throw.  If loading throws, the library is closed again and no later call
  reaches it.  If loading succeeds, then whatever calls follow, every call into the plugin passes a
  live instance, and unloading ends the calls with exactly one \<^verbatim>\<open>destroy\<close> and then closes the library.\<close>

theorem native_plugin_lifecycle:
  assumes "load_plugin dl ctx (new_native_loader m) = (r, l)" "\<forall>c. Load c \<notin> set calls"
  shows "case r of
      Inl x \<Rightarrow> nl_lib l = None \<and> fold (loader_step dl) calls l = l
    | Inr u \<Rightarrow> \<exists>h us. dl_open dl (pm_entry m) = Inr h \<and> list_all plain_call us \<and>
        nl_trace (unload_plugin (fold (loader_step dl) calls l)) = us @ [Call ''destroy'' True, Close h]"
proof (cases r)
  case (Inl x)
  then have "nl_lib l = None \<and> nl_export l = empty_export" using load_plugin_failed [of dl ctx m x l] assms(1) by simp
  then show ?thesis using idle_steps [of l calls dl] assms(2) Inl by simp
next
  case (Inr u)
  have "load_plugin dl ctx (new_native_loader m) = (Inr (), l)" using assms(1) Inr by simp
  then obtain h where h: "dl_open dl (pm_entry m) = Inr h" "loaded h l"
    using load_plugin_loaded by blast
  have "loaded h (fold (loader_step dl) calls l) \<or> unloaded h (fold (loader_step dl) calls l)"
    by (rule loader_steps_loaded [OF disjI1 [OF h(2)] assms(2)])
  then have "unloaded h (unload_plugin (fold (loader_step dl) calls l))" by (rule unload_unloaded)
  then show ?thesis using h(1) Inr by (auto simp: unloaded_def)
qed

definition demo_export :: "int plugin_export" where
  "demo_export =
     \<lparr>exp_api_version = 1, exp_instance = Some 0,
      exp_vtable = \<lparr>vt_destroy = Some (\<lambda>self. ()), vt_on_init = None, vt_on_start = None, vt_on_bar = None,
        vt_on_end = Some (\<lambda>self. (Inr \<lparr>pr_code = 0, pr_message = None, pr_instructions = []\<rparr>, None, Some 1)),
        vt_free_string = None\<rparr>\<rparr>"

definition demo_linker :: "(nat, int) linker" where
  "demo_linker = \<lparr>dl_open = (\<lambda>path. Inr 3), dl_sym = (\<lambda>h name. Inr (\<lambda>ctx. demo_export))\<rparr>"

definition demo_manifest :: plugin_manifest where
  "demo_manifest =
     \<lparr>pm_api_version = 1, pm_name = ''demo'', pm_kind = ''native'', pm_entry = ''demo.so'', pm_description = None,
      pm_author = None, pm_version = ''1.0.0'', pm_host_params = demo_params, pm_strategy_params = ''{}''\<rparr>"

definition demo_loader :: "(nat, int) native_loader" where
  "demo_loader = (new_native_loader demo_manifest)\<lparr>nl_lib := Some 3, nl_export := demo_export\<rparr>"

lemma demo_load: "load_plugin demo_linker 1 (new_native_loader demo_manifest) = (Inr (), demo_loader)"
  by (simp add: load_defs demo_linker_def demo_export_def demo_loader_def new_native_loader_def PLUGIN_API_VERSION_def)

theorem native_plugin_lifecycle_witness:
  "load_plugin demo_linker 1 (new_native_loader demo_manifest) = (Inr (), demo_loader) \<and>
   (\<exists>us. list_all plain_call us \<and>
      nl_trace (unload_plugin (fold (loader_step demo_linker) [Init, End, Free None] demo_loader)) =
        us @ [Call ''destroy'' True, Close 3])"
  using native_plugin_lifecycle [OF demo_load, of "[Init, End, Free None]"] demo_load
  by (auto simp: demo_linker_def)

section \<open>Runs of a plugin that cannot be called\<close>

lemma empty_books_return:
  fixes st :: state
  defines "e \<equiv> empty_engine\<lparr>eng_state := st\<rparr>"
  shows "execute_order_book u hp b e = Some (Inr e)" "execute_limit_orders u hp e = Some (Inr e)"
    "execute_exit_orders u hp e = Inr e"
proof -
  have e: "order_book e = []" "exit_book e = empty_exit_order_book" "limit_book e = empty_limit_order_book"
    by (simp_all add: e_def empty_engine_def)
  show "execute_order_book u hp b e = Some (Inr e)"
    unfolding execute_order_book_def by (subst loop_while.simps) (simp add: order_book_round_def heap_top_def e)
  show "execute_limit_orders u hp e = Some (Inr e)"
    by (simp add: execute_limit_orders_def process_buy_limits_def process_sell_limits_def e
        empty_limit_order_book_def omap_empty_def)
  have "process_stop_loss_loop u hp [] e = Inr e"
    by (subst process_stop_loss_loop.simps) (simp add: e empty_exit_order_book_def heap_top_def e_def empty_engine_def)
  moreover have "process_take_profit_loop u hp [] e = Inr e"
    by (subst process_take_profit_loop.simps) (simp add: e empty_exit_order_book_def heap_top_def e_def empty_engine_def)
  ultimately show "execute_exit_orders u hp e = Inr e"
    by (simp add: execute_exit_orders_def process_stop_loss_heap_def process_take_profit_heap_def)
qed

text \<open>A plugin that answers the first bar with an error ends the run there.\<close>

lemma run_first_bar_fails:
  assumes "\<And>c. plug_bar p b c = (failed msg, p)" "is_within_market_hour_restrictions (bar_unix_ts_ns b) hp"
  shows "run_on_bars u now hp plug_bar plug_end free (b # bs) (prepare_engine hp empty_engine, p) =
    Some (Inl (Runtime_error (''Plugin on_bar failed: '' @ msg)))"
  using assms by (simp add: run_on_bars_def prepare_engine_def run_bar_def Let_def empty_books_return failed_def check_result_def)

text \<open>A native plugin need not provide \<^verbatim>\<open>on_bar\<close> to be loaded, but it cannot be run: a run from a fresh
  engine throws at the first bar inside the market hours, with the message of the loader.\<close>

lemma run_without_on_bar_fails:
  assumes "load_plugin dl ctx (new_native_loader m) = (Inr (), l)" "vt_on_bar (exp_vtable (nl_export l)) = None"
    and "is_within_market_hour_restrictions (bar_unix_ts_ns b) hp"
  shows "run_on_bars u now hp on_bar on_end free_string (b # bs) (prepare_engine hp empty_engine, l) =
    Some (Inl (Runtime_error ''Plugin on_bar failed: Undefined Method on_bar''))"
proof -
  obtain h where "loaded h l" using load_plugin_loaded [OF assms(1)] by blast
  then have "on_bar l b c = (failed ''Undefined Method on_bar'', l)" for c
    using assms(2) by (simp add: on_bar_def loaded_def)
  then show ?thesis using run_first_bar_fails [of on_bar l b, OF _ assms(3)] by simp
qed

text \<open>C35: A Python plugin that cannot be imported is loaded without an error.  Loading and initialising it succeed and no
  call reaches Python.  The loop of \<^verbatim>\<open>BackTestEngine::run\<close> over its bars is the first to throw: where the first bar lies
  inside the market hours, it ends there with a message about the API version.\<close>

theorem failed_import_surfaces_at_bar:
  assumes "py_create py (pm_entry m) ctx = Inl x" "is_python m" "is_within_market_hour_restrictions (bar_unix_ts_ns b) hp"
  shows "\<exists>loader l. start_loader (loader_ops dl py) ctx m = Inr loader \<and> loader = Python l \<and> pl_trace l = [] \<and>
    run_on_bars u now hp loader_on_bar loader_on_end loader_free_string (b # bs) (prepare_engine hp empty_engine, loader) =
      Some (Inl (Runtime_error ''Plugin on_bar failed: Invalid API Version''))"
proof (intro exI conjI)
  let ?l = "new_python_loader m"
  show "start_loader (loader_ops dl py) ctx m = Inr (Python ?l)"
    using assms(1,2) by (simp add: start_loader_def make_loader_def loader_ops_def loader_load_plugin_def
        loader_on_init_def py_load_plugin_def py_on_init_def new_python_loader_def empty_export_def PLUGIN_API_VERSION_def)
  show "pl_trace ?l = []" by (simp add: new_python_loader_def)
  show "run_on_bars u now hp loader_on_bar loader_on_end loader_free_string (b # bs) (prepare_engine hp empty_engine, Python ?l) =
      Some (Inl (Runtime_error ''Plugin on_bar failed: Invalid API Version''))"
    by (rule trans [OF run_first_bar_fails [where msg = "''Invalid API Version''", OF _ assms(3)]])
      (simp_all add: loader_on_bar_def py_on_bar_def new_python_loader_def empty_export_def PLUGIN_API_VERSION_def)
qed (rule refl)

text \<open>A Python without modules.\<close>

definition demo_python :: "(unit, unit) python" where
  "demo_python =
     \<lparr>py_create = (\<lambda>module ctx. Inl (Python_error ''ModuleNotFoundError'')),
      py_call = (\<lambda>obj name args. (Inl (Python_error ''AttributeError''), obj)), py_enum = (\<lambda>i. Inl (Python_error ''TypeError'')),
      cast_tuple = (\<lambda>v. Inl (Python_error ''cast'')), cast_list = (\<lambda>v. Inl (Python_error ''cast'')),
      cast_dict = (\<lambda>v. Inl (Python_error ''cast'')), cast_int = (\<lambda>v. Inl (Python_error ''cast'')),
      cast_int64 = (\<lambda>v. Inl (Python_error ''cast'')), cast_double = (\<lambda>v. Inl (Python_error ''cast'')),
      cast_string = (\<lambda>v. Inl (Python_error ''cast''))\<rparr>"

theorem failed_import_surfaces_at_bar_witness:
  "\<exists>loader. start_loader (loader_ops demo_linker demo_python) 1 (demo_manifest\<lparr>pm_kind := ''python''\<rparr>) = Inr loader \<and>
     run_on_bars demo_uuids 0 demo_params loader_on_bar loader_on_end loader_free_string demo_bars (prepare_engine demo_params empty_engine, loader) =
       Some (Inl (Runtime_error ''Plugin on_bar failed: Invalid API Version''))"
proof -
  let ?m = "demo_manifest\<lparr>pm_kind := ''python''\<rparr>"
  have "py_create demo_python (pm_entry ?m) 1 = Inl (Python_error ''ModuleNotFoundError'')" "is_python ?m"
    by (simp_all add: demo_python_def is_python_def)
  moreover have "is_within_market_hour_restrictions t demo_params" for t
    by (simp add: is_within_market_hour_restrictions_def demo_params_def)
  moreover have "demo_bars = hd demo_bars # tl demo_bars" by (simp add: demo_bars_def)
  ultimately show ?thesis
    using failed_import_surfaces_at_bar [of demo_python ?m 1 _ "hd demo_bars" demo_params demo_linker demo_uuids 0
        "tl demo_bars"] by (metis (full_types))
qed

section \<open>The plugin manager\<close>

text \<open>C27: When the manager has gone through a plugin directory without an exception, it keeps plugins of the requested
  names only, each under the name of its own manifest and made from the manifest of one of the
  subdirectories; and every subdirectory had a readable, valid manifest, and if its name was requested a
  plugin of that name is kept.  This covers native and Python plugins alike.\<close>

theorem manager_loads_requested_plugins:
  assumes "load_plugins_from_dir api text_of (loader_ops dl py) entries (new_plugin_manager names) = (Inr (), mgr)"
  shows "list_all (\<lambda>(k, l). kept_plugin loader_manifest api text_of entries names k l) (mgr_plugins mgr) \<and>
    list_all (dealt_with api text_of mgr) entries"
proof -
  have r: "load_dir_entries api text_of (loader_ops dl py) entries (new_plugin_manager names) = (Inr (), mgr)"
    using assms by (simp add: load_plugins_from_dir_def split: if_splits)
  have "kept_ok loader_manifest api text_of entries mgr \<and> mgr_plugin_names mgr = names"
    using both.kept_entries [OF both.kept_new order_refl] r by (metis new_plugin_manager_def plugin_manager.simps(3) snd_conv)
  then show ?thesis using both.dealt_entries [OF r] unfolding kept_ok_def by blast
qed

definition demo_directory :: "json manifest_json" where
  "demo_directory =
     demo_manifest_api\<lparr>mj_api := demo_api\<lparr>json_iterate := (\<lambda>text. Inr (demo_manifest_json demo_host_json))\<rparr>\<rparr>"

theorem manager_loads_requested_plugins_witness:
  "\<exists>mgr. load_plugins_from_dir demo_directory (\<lambda>path. Some ''{}'') (loader_ops demo_linker demo_python)
       [(''plugins/README'', False), (''plugins/demo'', True)] (new_plugin_manager [''demo'', ''other'']) = (Inr (), mgr) \<and>
     map fst (mgr_plugins mgr) = [''demo''] \<and>
     list_all (\<lambda>(k, l). kept_plugin loader_manifest demo_directory (\<lambda>path. Some ''{}'')
       [(''plugins/README'', False), (''plugins/demo'', True)] [''demo'', ''other''] k l) (mgr_plugins mgr)"
proof -
  let ?load = "load_plugins_from_dir demo_directory (\<lambda>path. Some ''{}'') (loader_ops demo_linker demo_python)
      [(''plugins/README'', False), (''plugins/demo'', True)] (new_plugin_manager [''demo'', ''other''])"
  have "case fst ?load of Inl x \<Rightarrow> False | Inr u \<Rightarrow> True" by code_simp
  then have r: "?load = (Inr (), snd ?load)" by (cases ?load) (auto split: sum.splits)
  have "map fst (mgr_plugins (snd ?load)) = [''demo'']" by code_simp
  then show ?thesis using manager_loads_requested_plugins [OF r] by (intro exI [of _ "snd ?load"] conjI) (rule r, simp_all)
qed

text \<open>C28: The manager releases every plugin it keeps.  Whatever a directory holds, also when loading ends with an
  exception, and whatever calls the engine then makes on the kept plugins, destroying the manager unloads all of them,
  entry by entry: every
  native library has seen exactly one \<^verbatim>\<open>destroy\<close>, as its last call and before it was closed, and the object of
  every Python plugin is deleted.\<close>

theorem manager_releases_plugins:
  assumes "load_plugins_from_dir api text_of (loader_ops dl py) entries (new_plugin_manager names) = (r, mgr)"
  shows "list_all2 (\<lambda>(k, l) (k', l'). k' = k \<and> l' = loader_unload_plugin (fold use_loader (calls k) l) \<and> loader_gone l')
    (mgr_plugins mgr)
    (mgr_plugins (destroy_manager (loader_ops dl py)
      (mgr\<lparr>mgr_plugins := map (\<lambda>(k, l). (k, fold use_loader (calls k) l)) (mgr_plugins mgr)\<rparr>)))"
proof -
  let ?mgr = "mgr\<lparr>mgr_plugins := map (\<lambda>(k, l). (k, fold use_loader (calls k) l)) (mgr_plugins mgr)\<rparr>"
  have "list_all (\<lambda>(k, l). loader_live l) (mgr_plugins mgr)"
    using life.live_loaded assms by (metis snd_conv)
  then have "list_all (\<lambda>(k, l). loader_live l) (mgr_plugins ?mgr)"
    by (auto simp: list_all_iff use_loaders_live)
  from life.destroy_gone [OF this] show ?thesis
    by (simp add: list_all2_map1 case_prod_unfold loader_ops_def)
qed

definition demo_loaded :: "unit result \<times> (nat, int, unit) loader plugin_manager" where
  "demo_loaded = load_plugins_from_dir demo_directory (\<lambda>path. Some ''{}'') (loader_ops demo_linker demo_python)
     [(''plugins/demo'', True)] (new_plugin_manager [''demo''])"

theorem manager_releases_plugins_witness:
  "\<exists>l. mgr_plugins (snd demo_loaded) = [(''demo'', l)] \<and>
     loader_gone (loader_unload_plugin (fold use_loader [Use_end, Use_free None] l))"
proof -
  have "map fst (mgr_plugins (snd demo_loaded)) = [''demo'']" unfolding demo_loaded_def by code_simp
  then obtain l where l: "mgr_plugins (snd demo_loaded) = [(''demo'', l)]" by auto
  have "load_plugins_from_dir demo_directory (\<lambda>path. Some ''{}'') (loader_ops demo_linker demo_python)
     [(''plugins/demo'', True)] (new_plugin_manager [''demo'']) = (fst demo_loaded, snd demo_loaded)"
    by (simp add: demo_loaded_def)
  from manager_releases_plugins [OF this, of "\<lambda>k. [Use_end, Use_free None]"]
  have "loader_gone (loader_unload_plugin (fold use_loader [Use_end, Use_free None] l))"
    by (simp add: l destroy_manager_def loader_ops_def del: use_loader.simps)
  then show ?thesis using l by blast
qed

end
