(* ===== verification/Program_Properties.thy ===== *)
theory Program_Properties
  imports Program Plugin_Properties
begin

text \<open>
  What the phases of the engine achieve, and what becomes of the program: the composition of the plugin
  manager, the stock API with its cache, the stores and the thread pool.
\<close>

section \<open>Fetching the data\<close>

text \<open>The entry of the data store a task of \<^verbatim>\<open>fetch_data\<close> writes, and the bars it may leave there.\<close>

definition job_key :: "fetch_job \<Rightarrow> string \<times> string" where
  "job_key j = (job_plugin j, sym_symbol (job_symbol j))"

definition stored :: "'w client \<times> data_store \<Rightarrow> string \<times> string \<Rightarrow> aggregate_bars option locked" where
  "stored cds k = get_bars False (fst k) (snd k) (snd cds)"

definition fetched ::
  "'j json_api \<Rightarrow> 'w environment \<Rightarrow> (string \<Rightarrow> nat) \<Rightarrow> string \<Rightarrow> cache_policy \<Rightarrow> fetch_job \<Rightarrow> aggregate_bars option locked \<Rightarrow> bool" where
  "fetched api env hash api_key policy j v \<longleftrightarrow>
     (\<exists>bars c c'. custom_aggregate_bars api api_key env hash policy (fetch_args (job_host_params j) (job_symbol j)) c =
        (c', Inr bars) \<and> v = Returned (Some bars))"

lemma fetch_task_Done:
  assumes "fetch_task api env hash (Some api_key) (Some policy) j cds = Done cds'"
  shows "fetched api env hash api_key policy j (stored cds' (job_key j))"
    and "k \<noteq> job_key j \<Longrightarrow> stored cds' k = stored cds k"
proof -
  obtain c' bars where r: "custom_aggregate_bars api api_key env hash policy
        (fetch_args (job_host_params j) (job_symbol j)) ((fst cds)\<lparr>curl := new_curl_easy\<rparr>) = (c', Inr bars)"
    and d: "store_bars_by_plugin_name False (job_plugin j) (sym_symbol (job_symbol j)) bars (snd cds) = Returned (snd cds')"
    using assms by (cases cds) (auto simp: fetch_task_def split: sum.splits prod.splits locked.splits)
  obtain ds' where ds': "store_bars_by_plugin_name False (job_plugin j) (sym_symbol (job_symbol j)) bars (snd cds) = Returned ds'"
    "\<And>p s. get_bars False p s ds' = (if p = job_plugin j \<and> s = sym_symbol (job_symbol j) then Returned (Some bars)
      else get_bars False p s (snd cds))"
    using stored_bars_are_returned by blast
  then show "fetched api env hash api_key policy j (stored cds' (job_key j))"
    and "k \<noteq> job_key j \<Longrightarrow> stored cds' k = stored cds k"
    using r d by (auto simp: fetched_def stored_def job_key_def prod_eq_iff)
qed

interpretation fetching: keyed_jobs "fetch_task api env hash (Some api_key) (Some policy)" job_key stored
  "fetched api env hash api_key policy" for api env hash api_key policy
  by unfold_locales (rule fetch_task_Done, assumption)+

lemma set_fetch_jobs:
  "set (fetch_jobs name hp_of mgr) =
     {j. \<exists>l\<in>snd ` set (mgr_plugins mgr). \<exists>s\<in>set (hp_symbols (hp_of l)).
        j = \<lparr>job_plugin = name l, job_host_params = hp_of l, job_symbol = s\<rparr>}"
proof -
  have "set (fold (\<lambda>(n, l) jobs. jobs @ map (job l) (syms l)) ps acc) = set acc \<union> (\<Union>l\<in>snd ` set ps. job l ` set (syms l))"
    for job :: "'a \<Rightarrow> host_symbol \<Rightarrow> fetch_job" and syms and ps :: "(string \<times> 'a) list" and acc
    by (induction ps arbitrary: acc) auto
  then show ?thesis by (auto simp: fetch_jobs_def with_plugins_def)
qed

text \<open>C26: When \<^verbatim>\<open>fetch_data\<close> has waited for its pool, every symbol of every plugin has its bars in the data store:
  bars that the API returned for that symbol, its span of time, and the dates of the plugin, from its start to its end.
  Entries of other plugins and symbols
  are as they were.  This holds for every interleaving of the tasks and any number of threads; if a
  plugin names a symbol twice, or two plugins share a name, the bars are those of one of the requests.\<close>

theorem fetch_data_stores_bars:
  assumes "phase_reachable (fetch_task api env hash (Some api_key) (Some policy)) n (fetch_jobs name hp_of mgr) (c, ds)
      (Running p (c', ds'))"
    and "past_wait (owner p)"
  shows "if \<exists>l\<in>snd ` set (mgr_plugins mgr). \<exists>s\<in>set (hp_symbols (hp_of l)). (plugin, symbol) = (name l, sym_symbol s)
    then \<exists>l\<in>snd ` set (mgr_plugins mgr). \<exists>s\<in>set (hp_symbols (hp_of l)). \<exists>bars d d'.
      (plugin, symbol) = (name l, sym_symbol s) \<and>
      custom_aggregate_bars api api_key env hash policy
        \<lparr>args_timespan = sym_timespan s, args_symbol = sym_symbol s, args_from = hp_backtest_start_datetime (hp_of l),
         args_to = hp_backtest_end_datetime (hp_of l), args_timespan_unit = sym_timespan_unit s\<rparr> d = (d', Inr bars) \<and>
      get_bars False plugin symbol ds' = Returned (Some bars)
    else get_bars False plugin symbol ds' = get_bars False plugin symbol ds"
proof -
  let ?k = "(plugin, symbol)" and ?js = "fetch_jobs name hp_of mgr"
  have entry: "if ?k \<in> job_key ` set ?js
    then \<exists>j\<in>set ?js. job_key j = ?k \<and> fetched api env hash api_key policy j (get_bars False plugin symbol ds')
    else get_bars False plugin symbol ds' = get_bars False plugin symbol ds"
    using fetching.returned_entry [OF assms, of ?k] unfolding stored_def fst_conv snd_conv .
  have asked: "?k \<in> job_key ` set ?js \<longleftrightarrow>
      (\<exists>l\<in>snd ` set (mgr_plugins mgr). \<exists>s\<in>set (hp_symbols (hp_of l)). ?k = (name l, sym_symbol s))"
    unfolding set_fetch_jobs image_iff by (simp add: job_key_def) (metis fetch_job.select_convs(1,3))
  show ?thesis
  proof (cases "?k \<in> job_key ` set ?js")
    case True
    then obtain j where j: "j \<in> set ?js" "job_key j = ?k" "fetched api env hash api_key policy j (get_bars False plugin symbol ds')"
      using entry by auto
    then obtain l s where "l \<in> snd ` set (mgr_plugins mgr)" "s \<in> set (hp_symbols (hp_of l))"
      "j = \<lparr>job_plugin = name l, job_host_params = hp_of l, job_symbol = s\<rparr>"
      unfolding set_fetch_jobs by blast
    then show ?thesis
      using j(2,3) asked True by (simp only: fetched_def fetch_args_def job_key_def fetch_job.simps if_True) metis
  next
    case False
    then show ?thesis using entry by (simp only: asked if_False)
  qed
qed

definition demo_plugin :: "(nat, int, unit) loader" where
  "demo_plugin = Native (new_native_loader (demo_manifest\<lparr>pm_host_params := demo_params\<lparr>hp_symbols :=
     [\<lparr>sym_primary = True, sym_timespan = 1, sym_symbol = ''ABC'', sym_timespan_unit = ''minute''\<rparr>]\<rparr>\<rparr>))"

definition demo_manager :: "(nat, int, unit) loader plugin_manager" where
  "demo_manager = (new_plugin_manager [''demo''])\<lparr>mgr_plugins := [(''demo'', demo_plugin)]\<rparr>"

theorem fetch_data_stores_bars_witness:
  "\<exists>p c' ds' bars. phase_reachable (fetch_task demo_api (demo_env 200) length (Some ''key'') (Some default_cache_policy)) 1
       (fetch_jobs loader_name loader_host_params demo_manager) (demo_client, empty_data_store) (Running p (c', ds')) \<and>
     owner p = O_done \<and> get_bars False ''demo'' ''ABC'' ds' = Returned (Some bars)"
proof -
  let ?task = "fetch_task demo_api (demo_env 200) length (Some ''key'') (Some default_cache_policy)"
  let ?js = "fetch_jobs loader_name loader_host_params demo_manager"
  obtain j where j: "?js = [j]"
    and k: "\<exists>l\<in>snd ` set (mgr_plugins demo_manager). \<exists>s\<in>set (hp_symbols (loader_host_params l)).
      (''demo'', ''ABC'') = (loader_name l, sym_symbol s)"
    by (simp add: fetch_jobs_def with_plugins_def demo_manager_def demo_plugin_def loader_name_def get_plugin_name_def
        loader_host_params_def get_host_params_def new_native_loader_def demo_manifest_def new_plugin_manager_def)
  have "case run_all ?task ?js (demo_client, empty_data_store) of Done s \<Rightarrow> True | _ \<Rightarrow> False" by code_simp
  then obtain c' ds' where r: "run_all ?task [j] (demo_client, empty_data_store) = Done (c', ds')"
    by (auto simp: j split: outcome.splits)
  let ?p = "one_worker [] False 0 W_lock O_done [j]"
  have p: "phase_reachable ?task 1 ?js (demo_client, empty_data_store) (Running ?p (c', ds'))"
    unfolding j phase_reachable_Running using one_worker_done [of j] r by (simp add: one_worker_def)
  have "past_wait (owner ?p)" by (simp add: past_wait_def one_worker_def)
  then obtain bars where "get_bars False ''demo'' ''ABC'' ds' = Returned (Some bars)"
    using fetch_data_stores_bars [OF p, of "''demo''" "''ABC''"] k by (auto split: if_splits)
  then show ?thesis using p by (intro exI [of _ ?p] exI [of _ c'] exI [of _ ds'] exI [of _ bars]) (simp add: one_worker_def)
qed

section \<open>Running the simulations\<close>

lemma run_jobs_eq: "run_jobs mgr = map snd (mgr_plugins mgr)"
proof -
  have "fold (\<lambda>(n, l) jobs. jobs @ [l]) ps acc = acc @ map snd ps" for ps :: "(string \<times> 'a) list" and acc
    by (induction ps arbitrary: acc) auto
  then show ?thesis by (simp add: run_jobs_def with_plugins_def)
qed

lemma run_task_not_Done: "run_task std_sort name back_test plugin s \<noteq> Done s'"
  by (auto simp: run_task_def back_test_run_def bindL_def has_plugin_data_def lock_guard_def iterable_data_blocks Let_def split_beta)

text \<open>C39: \<^verbatim>\<open>run\<close> never returns once a plugin is loaded, and it stores no report.  The task of a plugin that has data
  blocks on the mutex of the data store, which its own thread holds; the task of a plugin without data throws,
  which ends the program.\<close>

theorem run_never_returns:
  assumes "phase_reachable (run_task std_sort name back_test) n (run_jobs mgr) (ds, rs) (Running p (ds', rs'))"
    and "mgr_plugins mgr \<noteq> []"
  shows "\<not> past_wait (owner p) \<and> finished p = [] \<and> ds' = ds \<and> rs' = rs"
proof -
  have "run_all (run_task std_sort name back_test) (finished p) (ds, rs) = Done (ds', rs')"
    using assms(1) by (simp add: phase_reachable_Running)
  then have f: "finished p = [] \<and> ds' = ds \<and> rs' = rs"
  proof (cases "finished p")
    case (Cons t ts)
    then show ?thesis
      using \<open>run_all _ _ _ = _\<close> run_task_not_Done [of std_sort name back_test t "(ds, rs)"]
      by (cases "run_task std_sort name back_test t (ds, rs)") auto
  qed simp
  moreover have "run_jobs mgr \<noteq> []" using assms(2) by (cases "mgr_plugins mgr") (simp_all add: run_jobs_eq)
  ultimately show ?thesis using phase_returned [OF assms(1)] by auto
qed

theorem run_never_returns_witness:
  "\<exists>p. phase_reachable (run_task id loader_name (loader_back_test demo_uuids 0)) 1 (run_jobs demo_manager)
       (empty_data_store, empty_report_store) (Running p (empty_data_store, empty_report_store)) \<and>
     owner p = O_lock \<and> \<not> past_wait (owner p)"
proof -
  let ?p = "one_worker [] False (Suc 0) (W_run demo_plugin) O_lock []"
  have m: "mgr_plugins demo_manager \<noteq> []" "run_jobs demo_manager = [demo_plugin]"
    by (simp_all add: demo_manager_def run_jobs_eq)
  have p: "phase_reachable (run_task id loader_name (loader_back_test demo_uuids 0)) 1 (run_jobs demo_manager)
      (empty_data_store, empty_report_store) (Running ?p (empty_data_store, empty_report_store))"
    unfolding m(2) phase_reachable_Running using one_worker_takes [of demo_plugin] by (simp add: one_worker_def)
  then show ?thesis using run_never_returns [OF p m(1)] by (intro exI [of _ ?p]) (simp add: one_worker_def)
qed

section \<open>The program\<close>

text \<open>C40: The program never gets to its work.  Whatever the environment, the directory of plugins and the network are,
  its only exit status is 1: the key is missing or empty, libcurl cannot be initialised, or validation of
  the engine throws.\<close>

theorem program_always_fails: "main sur c x \<longleftrightarrow> x = Exit 1"
proof
  show "main sur c x \<Longrightarrow> x = Exit 1" by (elim mainE) (simp_all add: exit_of_exception_def [of Logic_error])
  assume x: "x = Exit 1"
  show "main sur c x"
  proof (cases "sur_polygon_api_key sur")
    case None
    then show ?thesis using no_key [of sur c] x by (simp add: exit_of_exception_def)
  next
    case (Some k)
    obtain y where "program_engine sur k = Inl (Runtime_error y)" using program_engine_throws by blast
    then show ?thesis
      using Some setup_throws [OF Some, of "Runtime_error y" c] empty_key [of sur c] x
      by (cases "k = []") (auto simp: exit_of_exception_def)
  qed
qed

end
