(* ===== verification/Spec2Isabelle.thy ===== *)
theory Spec2Isabelle
  imports Backtest_Properties Execution_Properties Settlement_Properties Curl_Handle String_Buffers Sma_Native Program_Properties
begin

text \<open>
  A verification of QuantForge, a framework that back-tests trading strategies.  The sources are under
  \<^verbatim>\<open>src/src\<close>; file names below are relative to it.

  \<^bold>\<open>The program.\<close>  A strategy is a plugin, described by a manifest.  The forge engine
  (\<^verbatim>\<open>forge/forge_engine\<close>) loads the plugins, fetches the price bars each of them asks for over HTTP,
  stores them (\<^verbatim>\<open>forge/stores\<close>), and runs one back test per plugin in a thread pool.  A back test
  (\<^verbatim>\<open>simulators/back_test\<close>) shows the plugin one bar after the other.  Before each bar it executes the
  orders that are due, the limit orders the bar reaches and the stops and targets the bar touches;
  then the plugin answers with signals and orders, which are scheduled.  Executing an order checks
  its margin, makes a fill and changes the account: cash, positions, the quantities of fills that
  are still open, and the margin they hold.  Money is a 64-bit number of microdollars, quantities are
  doubles.

  \<^bold>\<open>The theories, in the order they build on each other.\<close>

  \<^item> \<open>Prelude\<close>: exceptions as values, results and their composition, loops that may not end
    (\<open>loop_while\<close>, where \<open>None\<close> is a loop that runs forever), and association lists in the order of
    \<^verbatim>\<open>std::map\<close>, with the locale \<open>ordered_map\<close> for what a map promises.
  \<^item> \<open>Float64\<close>: IEEE binary64 with rounding to nearest, over rational numbers; signed zeros are one
    zero.  \<open>rnd_rat_code\<close> makes evaluation fast.
  \<^item> \<open>Money_Utils\<close> (\<^verbatim>\<open>utils/money_utils\<close>, \<^verbatim>\<open>utils/constants.hpp\<close>): money, its arithmetic through doubles, the
    parser of decimals.
  \<^item> \<open>Heaps\<close> (\<^verbatim>\<open>utils/min_heap.hpp\<close>, \<^verbatim>\<open>utils/max_heap.hpp\<close>): the array heaps with their sift loops.  The locale
    \<open>heap_order\<close> proves for every strict weak order that they are priority queues (\<open>pqueue\<close>); it is
    interpreted for the five orders of the program.
  \<^item> \<open>Models\<close>, \<open>State\<close>, \<open>Calculators\<close>, \<open>Executor\<close>, \<open>Order_Books\<close>, \<open>Abi_Converter\<close>, \<open>Engine\<close>: the files of the
    same names in \<^verbatim>\<open>simulators/back_test\<close>, with the equity, exchange, slippage and position calculators
    in \<open>Calculators\<close>.  Structures are records, variants are datatypes, \<^verbatim>\<open>int64_t\<close> is a 64-bit word that wraps
    around.  \<open>Engine\<close> ends with \<open>run_on_bars\<close>, all that the back test does with the bars it has read.
  \<^item> \<open>Engine_Invariants\<close>: the locale \<open>guarded_invariant\<close> carries an invariant through every loop of the
    engine up to \<open>run_on_bars\<close>, for the orders it admits; \<open>engine_invariant\<close> admits every order, and
    \<open>state_invariant\<close> needs only what single executions do to the account.
  \<^item> \<open>Run_Properties\<close>, \<open>Accounting\<close>, \<open>Book_Processing\<close>, \<open>Sized_Orders\<close>, \<open>Completion\<close>: the interpretations (heaps in
    order, no short positions, margin and fill bookkeeping, equity curve, quantities of bounded size,
    known prices) and the lemmas on what a bar leaves in the books and when its loops return.
  \<^item> \<open>Lot_Book\<close>: the specification of the account, open lots and an amount of money as functions of the log
    of fills, and the proof that the account implements it for whole shares.
  \<^item> \<open>Scenario\<close>: a small market and plugins on which the properties are exercised.
  \<^item> \<open>Backtest_Properties\<close>, \<open>Execution_Properties\<close>, \<open>Settlement_Properties\<close>: the properties of runs, of bars and
    of executions.
  \<^item> \<open>String_Utils\<close>, \<open>Network_Cache\<close>, \<open>Http_Client\<close>, \<open>Stock_Api\<close>, \<open>Http_Properties\<close> (\<^verbatim>\<open>utils/string_utils\<close>, \<^verbatim>\<open>http\<close>): the
    cache in files, conditional requests, retries, the bars read from JSON, and their properties.
  \<^item> \<open>Curl_Handle\<close> (\<^verbatim>\<open>http/client/curl_easy.cpp\<close>): the options and the header list of the handle below a client.
  \<^item> \<open>Manifest\<close>, \<open>Native_Loader\<close>, \<open>Python_Loader\<close>, \<open>Plugin_Manager\<close>, \<open>Plugin_Properties\<close> (\<^verbatim>\<open>plugins\<close>): manifests and
    their constraints, the options of a plugin, shared libraries and Python objects and the calls into them, and
    the manager over the interface of the loaders.  The locale \<open>loader_contract\<close> states what the
    manager relies on, \<open>loader_lifecycle\<close> extends it by what unloading achieves; both are interpreted for the
    two loaders together.
  \<^item> \<open>String_Buffers\<close>: the C strings handed to plugins as pointers into a vector that grows.
  \<^item> \<open>Sma_Native\<close> (\<^verbatim>\<open>.plugins/sma_native\<close>): the example plugin.
  \<^item> \<open>Thread_Pool\<close> (\<^verbatim>\<open>utils/thread_pool\<close>): the threads of a pool as a step relation, with reachable states;
    \<open>Pool_Phase\<close>: a pool whose tasks change a shared state.  The locale \<open>keyed_jobs\<close> is for tasks that each
    write one entry.
  \<^item> \<open>Stores\<close>, \<open>Forge\<close>, \<open>Program\<close>, \<open>Program_Properties\<close> (\<^verbatim>\<open>forge\<close>, \<^verbatim>\<open>renderers\<close>, \<^verbatim>\<open>main.cpp\<close>): the stores, the builder, the
    back test with the read of its bars (\<open>run\<close>), the phases of the engine, the report, the program, and what the whole
    achieves.

  \<^bold>\<open>What is shown.\<close> Of runs, which here begin with the bars at hand (\<open>run_on_bars\<close>),
  since the read before them blocks: over whole shares the account at the end of a run is the one that its log of fills
  determines, by closing lots first in, first out; with short selling forbidden no position is ever short; margin in use
  is the sum of the margins of open fills up to dropped rests; the equity curve is bounded by its peak and drawdowns
  only grow; the books stay ordered; without a cap by volume, or with whole shares and quantities up to \<open>2 ^
  53\<close>, where every whole number is a double, it gets through its bars and returns.  Of bars: what each kind of
  book still holds afterwards; with fractional shares the order book can loop forever on a bar without volume; a stop
  that is set aside keeps its quantity when its fill is closed.  Of executions: the change of cash and margin when a
  position opens, closes or is reversed, where a part of the new margin is lost, that the executor and the account agree
  on the fills a closing order releases, bounds on prices, quantities and margin.  Of data: round trips of money and of
  cached responses, bounded retries, the calendar of market hours; that libcurl sees the request of the client.  Of
  plugins: what a parsed manifest satisfies, the order of calls into a library, which plugins the manager keeps and that
  it releases them, when the strings of instructions can be read, the profit of the example plugin.  Of threads: all
  tasks have run when \<^verbatim>\<open>wait_all\<close> returns, which it need not do.  Of the program: fetching leaves
  the bars of every plugin in the store, whatever the interleaving; the simulations never return, because reading the
  bars blocks on a mutex held by the same thread; and the program as it is never gets that far, since validation of the
  engine always throws.

  \<^bold>\<open>Parameters.\<close> Code outside the repository is an argument of the definitions that use it: the
  plugin (functions on its state), the sequence of uuids, the clock, the transfer of an HTTP request, the file system,
  the hash of a string, the JSON library (a record of accessors), the dynamic linker, the Python interpreter with
  pybind11, the acceptance of options by libcurl, the growth of a vector, and \<^verbatim>\<open>std::sort\<close>,
  which is not stable.  No definition uses fuel: a loop that may not end has the value \<open>None\<close>, every other
  one has a termination proof; the phases of the engine are step relations.

  \<^bold>\<open>Not modelled.\<close> \<^verbatim>\<open>create_uuid\<close>, which is random.  Starting the Python
  interpreter and its global lock.  The accesses of concurrent tasks to the files of the cache are not interleaved: a
  task takes effect as a whole.  A \<^verbatim>\<open>create_plugin\<close> that throws, and spurious wake-ups of
  threads.  The state that a native plugin is shown is a value; in the code it is a structure of pointers that dangle.
  Memory is finite and allocation fails in the program only; here it does not.  The engine gets instructions with their
  strings as values; \<open>String_Buffers\<close> says when the pointers give these values.
\<close>

end
